(* ===== verification/Ploy_Prelude.thy ===== *)
theory Ploy_Prelude
  imports
    Main
    "HOL-Library.Char_ord"
    "HOL-Library.List_Lexorder"
    "HOL-Library.Product_Lexorder"
    "HOL-Library.Multiset"
    "HOL-Library.Word"
begin

text \<open>
  The prelude of the development: the Go string functions the program uses, the relational
  tables behind \<^verbatim>\<open>internal/store\<close>, the JSON values of its JSONB columns, and the generic
  lemmas the components share.

  Go strings are byte strings and are modelled as \<^typ>\<open>string\<close> (a list of byte-sized
  characters). \<^verbatim>\<open>strings.TrimSpace\<close> and \<^verbatim>\<open>strings.ToLower\<close> are modelled on ASCII; the Unicode
  space and case tables are outside the model. Go compares strings bytewise, which is the
  lexicographic order that \<^theory_text>\<open>List_Lexorder\<close> and \<^theory_text>\<open>Char_ord\<close> install.
\<close>

named_theorems table_simps \<open>what UPDATE, INSERT and SELECT do to a keyed table\<close>
named_theorems go_string \<open>facts about the Go string functions\<close>
named_theorems status_defs \<open>definitions of the status classifications\<close>

section \<open>Names for the model's types\<close>

type_synonym job_id = string
type_synonym run_id = string
type_synonym wave_id = string
type_synonym node_id = string
type_synonym repo_id = string
type_synonym int32 = "32 word"

text \<open>A timestamp is a count of microseconds, the resolution of \<^verbatim>\<open>timestamptz\<close>.\<close>

type_synonym timestamp = int

section \<open>Go strings\<close>

definition is_space :: "char \<Rightarrow> bool" where
  "is_space c \<longleftrightarrow> c = CHR 0x09 \<or> c = CHR 0x0A \<or> c = CHR 0x0B \<or> c = CHR 0x0C \<or> c = CHR 0x0D
     \<or> c = CHR 0x20"

definition TrimSpace :: "string \<Rightarrow> string" where
  "TrimSpace s = rev (dropWhile is_space (rev (dropWhile is_space s)))"

definition to_lower_char :: "char \<Rightarrow> char" where
  "to_lower_char c =
     (if of_char c \<ge> (65 :: nat) \<and> of_char c \<le> (90 :: nat) then char_of (of_char c + 32 :: nat) else c)"

definition ToLower :: "string \<Rightarrow> string" where
  "ToLower s = map to_lower_char s"

definition HasPrefix :: "string \<Rightarrow> string \<Rightarrow> bool" where
  "HasPrefix s p \<longleftrightarrow> take (length p) s = p"

definition HasSuffix :: "string \<Rightarrow> string \<Rightarrow> bool" where
  "HasSuffix s p \<longleftrightarrow> HasPrefix (rev s) (rev p)"

definition TrimPrefix :: "string \<Rightarrow> string \<Rightarrow> string" where
  "TrimPrefix s p = (if HasPrefix s p then drop (length p) s else s)"

definition TrimSuffix :: "string \<Rightarrow> string \<Rightarrow> string" where
  "TrimSuffix s p = (if HasSuffix s p then take (length s - length p) s else s)"

text \<open>\<^verbatim>\<open>types.Normalize\<close> and \<^verbatim>\<open>types.IsEmpty\<close> of \<^verbatim>\<open>internal/domain/types/base.go\<close>.\<close>

definition Normalize :: "string \<Rightarrow> string" where
  "Normalize s = TrimSpace s"

definition IsEmpty :: "string \<Rightarrow> bool" where
  "IsEmpty s \<longleftrightarrow> Normalize s = []"

lemma dropWhile_last_not: "xs \<noteq> [] \<Longrightarrow> \<not> P (last xs) \<Longrightarrow> dropWhile P xs \<noteq> []"
  by (auto simp: dropWhile_eq_Nil_conv)

lemma last_dropWhile: "dropWhile P xs \<noteq> [] \<Longrightarrow> last (dropWhile P xs) = last xs"
  by (induction xs) auto

lemma dropWhile_id: "xs = [] \<or> \<not> P (hd xs) \<Longrightarrow> dropWhile P xs = xs"
  by (cases xs) auto

lemma TrimSpace_Nil [simp, go_string]: "TrimSpace [] = []"
  by (simp add: TrimSpace_def)

lemma TrimSpace_hd: "TrimSpace s \<noteq> [] \<Longrightarrow> \<not> is_space (hd (TrimSpace s))"
proof -
  assume ne: "TrimSpace s \<noteq> []"
  let ?d = "dropWhile is_space s"
  have d: "?d \<noteq> []" using ne by (metis TrimSpace_def dropWhile.simps(1) rev.simps(1))
  have "hd (TrimSpace s) = last (dropWhile is_space (rev ?d))"
    by (simp add: TrimSpace_def hd_rev)
  also have "\<dots> = hd ?d"
    using ne by (simp add: TrimSpace_def last_dropWhile last_rev)
  finally show ?thesis using d by (simp add: hd_dropWhile)
qed

lemma TrimSpace_last: "TrimSpace s \<noteq> [] \<Longrightarrow> \<not> is_space (last (TrimSpace s))"
  by (simp only: TrimSpace_def last_rev rev_is_Nil_conv) (rule hd_dropWhile)

lemma TrimSpace_fixed: "s = [] \<or> \<not> is_space (hd s) \<and> \<not> is_space (last s) \<Longrightarrow> TrimSpace s = s"
  by (cases "s = []") (auto simp: TrimSpace_def dropWhile_id hd_rev)

lemma TrimSpace_idem [simp, go_string]: "TrimSpace (TrimSpace s) = TrimSpace s"
  using TrimSpace_fixed TrimSpace_hd TrimSpace_last by blast

lemma length_TrimSpace: "length (TrimSpace s) \<le> length s"
  by (metis TrimSpace_def length_dropWhile_le length_rev order_trans)

lemma set_TrimSpace: "set (TrimSpace s) \<subseteq> set s"
  by (auto simp: TrimSpace_def dest!: set_dropWhileD)

lemma TrimSpace_prefix: "\<forall>c \<in> set ws. is_space c \<Longrightarrow> TrimSpace (ws @ s) = TrimSpace s"
  by (simp add: TrimSpace_def dropWhile_append2)

lemma TrimSpace_pad:
  assumes "\<forall>c \<in> set ws. is_space c" "\<forall>c \<in> set vs. is_space c" "TrimSpace s = s"
  shows "TrimSpace (ws @ s @ vs) = s"
proof (cases "s = []")
  case True
  then show ?thesis
    using assms(1,2) TrimSpace_prefix [of ws vs] TrimSpace_prefix [of vs "[]"] by simp
next
  case False
  then have "\<not> is_space (hd s)" "\<not> is_space (last s)"
    using assms(3) TrimSpace_hd TrimSpace_last by metis+
  with False assms(1,2) have "dropWhile is_space (ws @ s @ vs) = s @ vs"
    by (cases s) (auto simp: dropWhile_append2)
  moreover have "dropWhile is_space (rev vs @ rev s) = dropWhile is_space (rev s)"
    using assms(2) by (intro dropWhile_append2) simp
  then have "dropWhile is_space (rev (s @ vs)) = rev s"
    using False \<open>\<not> is_space (last s)\<close> by (simp add: dropWhile_id hd_rev)
  ultimately show ?thesis by (simp add: TrimSpace_def)
qed

lemma HasPrefix_append [simp, go_string]: "HasPrefix (p @ s) p"
  by (simp add: HasPrefix_def)

lemma HasPrefixD: "HasPrefix s p \<Longrightarrow> \<exists>t. s = p @ t"
  by (metis HasPrefix_def append_take_drop_id)

lemma HasPrefix_iff: "HasPrefix s p \<longleftrightarrow> (\<exists>t. s = p @ t)"
  by (auto dest: HasPrefixD)

lemma HasSuffix_iff: "HasSuffix s p \<longleftrightarrow> (\<exists>t. s = t @ p)"
  by (metis HasSuffix_def HasPrefix_iff rev_append rev_rev_ident)

lemma TrimPrefix_append [simp, go_string]: "TrimPrefix (p @ s) p = s"
  by (simp add: TrimPrefix_def)

lemma TrimSuffix_append [simp, go_string]: "TrimSuffix (s @ p) p = s"
  by (auto simp: TrimSuffix_def HasSuffix_iff)

text \<open>\<^verbatim>\<open>strings.Split\<close> at a one-character separator, and \<^verbatim>\<open>strings.Join\<close>.\<close>

fun split_on :: "char \<Rightarrow> string \<Rightarrow> string list" where
  "split_on sep [] = [[]]"
| "split_on sep (c # cs) =
     (if c = sep then [] # split_on sep cs
      else case split_on sep cs of [] \<Rightarrow> [[c]] | l # ls \<Rightarrow> (c # l) # ls)"

fun join_on :: "char \<Rightarrow> string list \<Rightarrow> string" where
  "join_on sep [] = []"
| "join_on sep [x] = x"
| "join_on sep (x # xs) = x @ sep # join_on sep xs"

lemma split_on_not_Nil [simp]: "split_on sep s \<noteq> []"
  by (induction s) (auto split: list.splits)

lemma split_on_no_sep: "p \<in> set (split_on sep s) \<Longrightarrow> sep \<notin> set p"
  by (induction s arbitrary: p) (auto split: if_splits list.splits)

lemma join_split_on [simp]: "join_on sep (split_on sep s) = s"
proof (induction s)
  case (Cons c s)
  obtain l ls where "split_on sep s = l # ls" by (cases "split_on sep s") auto
  with Cons show ?case by (cases ls) auto
qed simp

lemma split_on_single: "sep \<notin> set x \<Longrightarrow> split_on sep x = [x]"
  by (induction x) auto

lemma split_on_append: "sep \<notin> set x \<Longrightarrow> split_on sep (x @ sep # s) = x # split_on sep s"
  by (induction x) auto

lemma split_join_on: "xs \<noteq> [] \<Longrightarrow> (\<And>x. x \<in> set xs \<Longrightarrow> sep \<notin> set x) \<Longrightarrow> split_on sep (join_on sep xs) = xs"
  by (induction sep xs rule: join_on.induct) (auto simp: split_on_single split_on_append)

section \<open>Keyed tables\<close>

text \<open>
  A table of \<^verbatim>\<open>internal/store\<close> is the list of its rows. \<^verbatim>\<open>UPDATE t SET f WHERE P\<close> maps
  \<open>f\<close> over the rows that satisfy \<open>P\<close>; \<^verbatim>\<open>SELECT \<dots> WHERE key = k\<close> finds the row with that key.
\<close>

definition update_where :: "('r \<Rightarrow> bool) \<Rightarrow> ('r \<Rightarrow> 'r) \<Rightarrow> 'r list \<Rightarrow> 'r list" where
  "update_where P f t = map (\<lambda>r. if P r then f r else r) t"

definition find_by :: "('r \<Rightarrow> 'k) \<Rightarrow> 'k \<Rightarrow> 'r list \<Rightarrow> 'r option" where
  "find_by key k t = List.find (\<lambda>r. key r = k) t"

lemma update_where_Nil [simp]: "update_where P f [] = []"
  by (simp add: update_where_def)

lemma length_update_where [simp]: "length (update_where P f t) = length t"
  by (simp add: update_where_def)

lemma set_update_where [table_simps]:
  "set (update_where P f t) = (\<lambda>r. if P r then f r else r) ` set t"
  by (simp add: update_where_def)

lemma map_update_where [table_simps]:
  "(\<And>r. r \<in> set t \<Longrightarrow> P r \<Longrightarrow> g (f r) = g r) \<Longrightarrow> map g (update_where P f t) = map g t"
  by (auto simp: update_where_def)

lemma filter_update_where:
  "(\<And>r. r \<in> set t \<Longrightarrow> P r \<Longrightarrow> Q (f r) = Q r) \<Longrightarrow>
   filter Q (update_where P f t) = update_where P f (filter Q t)"
  by (induction t) (auto simp: update_where_def)

lemma update_where_id:
  "(\<And>r. r \<in> set t \<Longrightarrow> \<not> P r) \<Longrightarrow> update_where P f t = t"
  by (auto simp: update_where_def intro: map_idI)

lemma find_by_SomeD: "find_by key k t = Some r \<Longrightarrow> r \<in> set t \<and> key r = k"
  by (auto simp: find_by_def find_Some_iff)

lemma notin_imageD: "x \<notin> f ` S \<Longrightarrow> y \<in> S \<Longrightarrow> f y \<noteq> x"
  by blast

lemma find_by_None_iff: "find_by key k t = None \<longleftrightarrow> k \<notin> key ` set t"
  by (auto simp: find_by_def find_None_iff)

lemma find_by_in: "distinct (map key t) \<Longrightarrow> r \<in> set t \<Longrightarrow> find_by key (key r) t = Some r"
  by (induction t) (auto simp: find_by_def image_iff)

lemma find_by_iff:
  "distinct (map key t) \<Longrightarrow> find_by key k t = Some r \<longleftrightarrow> r \<in> set t \<and> key r = k"
  using find_by_in find_by_SomeD by fastforce

lemma distinct_key_eq: "distinct (map key t) \<Longrightarrow> r \<in> set t \<Longrightarrow> r' \<in> set t \<Longrightarrow> key r = key r' \<Longrightarrow> r = r'"
  by (metis find_by_in option.inject)

lemma find_by_update_where [table_simps]:
  "(\<And>r. key (f r) = key r) \<Longrightarrow>
   find_by key k (update_where P f t) = map_option (\<lambda>r. if P r then f r else r) (find_by key k t)"
  by (induction t) (auto simp: update_where_def find_by_def)

lemma find_by_append: "find_by key k (t @ u) = (case find_by key k t of None \<Rightarrow> find_by key k u | Some r \<Rightarrow> Some r)"
  by (induction t) (auto simp: find_by_def)

section \<open>JSON values\<close>

text \<open>
  JSONB columns hold parsed documents, so a column is a \<open>json\<close> value. Bytes that
  arrive from a request or are about to be written are a \<open>raw_json\<close>: no bytes, bytes
  \<^verbatim>\<open>json.Valid\<close> rejects, or the encoding of a value. Numbers are the integers the program stores.
\<close>

datatype json =
    JNull
  | JBool bool
  | JInt int
  | JStr string
  | JArr "json list"
  | JObj "(string \<times> json) list"

datatype raw_json = RawEmpty | RawInvalid | RawJson json

fun json_field :: "string \<Rightarrow> json \<Rightarrow> json option" where
  "json_field k (JObj fs) = map_of fs k"
| "json_field k _ = None"

text \<open>
  The JSONB operator \<^verbatim>\<open>a || b\<close>: two objects are merged and the fields of \<open>b\<close> win; otherwise a
  value that is no array counts as a one-element array and the arrays are concatenated.
\<close>

fun json_elements :: "json \<Rightarrow> json list" where
  "json_elements (JArr vs) = vs"
| "json_elements v = [v]"

fun json_concat :: "json \<Rightarrow> json \<Rightarrow> json" where
  "json_concat (JObj fs) (JObj gs) = JObj (gs @ filter (\<lambda>(k, _). k \<notin> fst ` set gs) fs)"
| "json_concat a b = JArr (json_elements a @ json_elements b)"

lemma map_of_filter_notin: "map_of (filter (\<lambda>(k, _). k \<notin> A) fs) k = (if k \<in> A then None else map_of fs k)"
  by (induction fs) auto

lemma json_field_concat:
  "json_field k (json_concat (JObj fs) (JObj gs)) =
     (case map_of gs k of Some v \<Rightarrow> Some v | None \<Rightarrow> map_of fs k)"
proof (cases "map_of gs k")
  case None
  then have "k \<notin> fst ` set gs" by (simp add: map_of_eq_None_iff)
  with None show ?thesis by (simp add: map_add_def map_of_filter_notin)
next
  case (Some v)
  then have "k \<in> fst ` set gs" by (metis map_of_eq_None_iff option.distinct(1))
  with Some show ?thesis by (simp add: map_add_def map_of_filter_notin)
qed

section \<open>Partial functions\<close>

lemma map_eqI_Some:
  assumes "\<And>k v. m k = Some v \<longleftrightarrow> m' k = Some v"
  shows "m = m'"
proof
  show "m k = m' k" for k
    using assms [of k "the (m k)"] assms [of k "the (m' k)"] by (cases "m k"; cases "m' k") simp_all
qed

lemma set_map_filter: "y \<in> set (List.map_filter f xs) \<longleftrightarrow> (\<exists>x \<in> set xs. f x = Some y)"
  by (induction xs) (auto simp: map_filter_simps split: option.splits)

section \<open>Results\<close>

text \<open>A fallible operation returns \<open>Inl\<close> with the error or \<open>Inr\<close> with its result; \<open>res_bind\<close> is the early return.\<close>

fun res_bind :: "'e + 'a \<Rightarrow> ('a \<Rightarrow> 'e + 'b) \<Rightarrow> 'e + 'b" where
  "res_bind (Inl e) f = Inl e"
| "res_bind (Inr x) f = f x"

lemma res_bind_Inr_iff: "res_bind m f = Inr y \<longleftrightarrow> (\<exists>x. m = Inr x \<and> f x = Inr y)"
  by (cases m) auto

lemma res_bind_Inl_iff: "res_bind m f = Inl e \<longleftrightarrow> m = Inl e \<or> (\<exists>x. m = Inr x \<and> f x = Inl e)"
  by (cases m) auto

fun res_iter :: "('a \<Rightarrow> 's \<Rightarrow> 'e + 's) \<Rightarrow> 'a list \<Rightarrow> 's \<Rightarrow> 'e + 's" where
  "res_iter f [] s = Inr s"
| "res_iter f (x # xs) s = res_bind (f x s) (res_iter f xs)"

lemma res_iter_append: "res_iter f (xs @ ys) s = res_bind (res_iter f xs s) (res_iter f ys)"
proof (induction xs arbitrary: s)
  case (Cons x xs)
  then show ?case by (cases "f x s") simp_all
qed simp

lemma res_iter_invariant:
  "res_iter f xs s = Inr t \<Longrightarrow> P s \<Longrightarrow> (\<And>x s t. x \<in> set xs \<Longrightarrow> P s \<Longrightarrow> f x s = Inr t \<Longrightarrow> P t) \<Longrightarrow> P t"
  by (induction xs arbitrary: s) (auto simp: res_bind_Inr_iff)

section \<open>Transition systems\<close>

inductive reachable :: "('s \<Rightarrow> bool) \<Rightarrow> ('s \<Rightarrow> 's \<Rightarrow> bool) \<Rightarrow> 's \<Rightarrow> bool" for init step where
  init: "init s \<Longrightarrow> reachable init step s"
| step: "reachable init step s \<Longrightarrow> step s t \<Longrightarrow> reachable init step t"

text \<open>An invariant of a transition system and what follows for the states it reaches.\<close>

locale invariant_system =
  fixes init :: "'s \<Rightarrow> bool" and step :: "'s \<Rightarrow> 's \<Rightarrow> bool" and inv :: "'s \<Rightarrow> bool"
  assumes inv_init: "init s \<Longrightarrow> inv s"
    and inv_step: "inv s \<Longrightarrow> step s t \<Longrightarrow> inv t"
begin

lemma reachable_inv: "reachable init step s \<Longrightarrow> inv s"
  by (induction rule: reachable.induct) (auto intro: inv_init inv_step)

lemma steps_inv: "step\<^sup>*\<^sup>* s t \<Longrightarrow> inv s \<Longrightarrow> inv t"
  by (induction rule: rtranclp_induct) (auto intro: inv_step)

text \<open>What a step keeps of an invariant state, any number of steps keeps.\<close>

lemma steps_stable:
  assumes "\<And>s t. inv s \<Longrightarrow> step s t \<Longrightarrow> Q s \<Longrightarrow> Q t" "step\<^sup>*\<^sup>* s t" "inv s" "Q s"
  shows "Q t"
  using assms(2) by (induction rule: rtranclp_induct) (use assms steps_inv in blast)+

end

end
