(* ===== verification/Domain_Types.thy ===== *)
theory Domain_Types
  imports Ploy_Prelude
begin

text \<open>
  \<^verbatim>\<open>internal/domain/types\<close>: the status enumerations with their wire strings
  (\<^verbatim>\<open>statuses.go\<close>, \<^verbatim>\<open>migs.go\<close>), identifier validation (\<^verbatim>\<open>ids.go\<close>), full commit SHAs
  (\<^verbatim>\<open>vcs.go\<close>) and the run statistics document (\<^verbatim>\<open>runstats.go\<close>).

  A Go status is a string that \<^verbatim>\<open>Validate\<close> has accepted; it is modelled by a datatype with one
  constructor per accepted constant, together with its wire string. The locale \<open>wire_enum\<close>
  states what every such enumeration promises and proves the round trips once.
\<close>

section \<open>Status enumerations\<close>

datatype job_status =
    JobStatusCreated | JobStatusQueued | JobStatusRunning
  | JobStatusSuccess | JobStatusFail | JobStatusError | JobStatusCancelled

datatype run_status =
    RunStatusQueued | RunStatusRunning | RunStatusCancelled | RunStatusFail | RunStatusSuccess

datatype wave_status = WaveStatusStarted | WaveStatusCancelled | WaveStatusFinished

datatype job_type = JobTypePreGate | JobTypeMig | JobTypePostGate

fun JobStatus_String :: "job_status \<Rightarrow> string" where
  "JobStatus_String JobStatusCreated = ''Created''"
| "JobStatus_String JobStatusQueued = ''Queued''"
| "JobStatus_String JobStatusRunning = ''Running''"
| "JobStatus_String JobStatusSuccess = ''Success''"
| "JobStatus_String JobStatusFail = ''Fail''"
| "JobStatus_String JobStatusError = ''Error''"
| "JobStatus_String JobStatusCancelled = ''Cancelled''"

fun RunStatus_String :: "run_status \<Rightarrow> string" where
  "RunStatus_String RunStatusQueued = ''Queued''"
| "RunStatus_String RunStatusRunning = ''Running''"
| "RunStatus_String RunStatusCancelled = ''Cancelled''"
| "RunStatus_String RunStatusFail = ''Fail''"
| "RunStatus_String RunStatusSuccess = ''Success''"

fun WaveStatus_String :: "wave_status \<Rightarrow> string" where
  "WaveStatus_String WaveStatusStarted = ''Started''"
| "WaveStatus_String WaveStatusCancelled = ''Cancelled''"
| "WaveStatus_String WaveStatusFinished = ''Finished''"

fun JobType_String :: "job_type \<Rightarrow> string" where
  "JobType_String JobTypePreGate = ''pre_gate''"
| "JobType_String JobTypeMig = ''mig''"
| "JobType_String JobTypePostGate = ''post_gate''"

definition job_statuses :: "job_status list" where
  "job_statuses = [JobStatusCreated, JobStatusQueued, JobStatusRunning, JobStatusSuccess,
     JobStatusFail, JobStatusError, JobStatusCancelled]"

definition run_statuses :: "run_status list" where
  "run_statuses = [RunStatusQueued, RunStatusRunning, RunStatusCancelled, RunStatusFail, RunStatusSuccess]"

definition wave_statuses :: "wave_status list" where
  "wave_statuses = [WaveStatusStarted, WaveStatusCancelled, WaveStatusFinished]"

definition job_types :: "job_type list" where
  "job_types = [JobTypePreGate, JobTypeMig, JobTypePostGate]"

text \<open>
  \<^verbatim>\<open>Validate\<close>: the \<^verbatim>\<open>switch\<close> over the constants accepts exactly the listed wire strings. The
  accepted value is returned, so that the conversion \<^verbatim>\<open>JobStatus(s)\<close> and its check are one step.
\<close>

definition validate_enum :: "'a list \<Rightarrow> ('a \<Rightarrow> string) \<Rightarrow> string \<Rightarrow> 'a option" where
  "validate_enum vals str s = List.find (\<lambda>c. str c = s) vals"

definition JobStatus_Validate :: "string \<Rightarrow> job_status option" where
  "JobStatus_Validate s = validate_enum job_statuses JobStatus_String s"

definition RunStatus_Validate :: "string \<Rightarrow> run_status option" where
  "RunStatus_Validate s = validate_enum run_statuses RunStatus_String s"

definition WaveStatus_Validate :: "string \<Rightarrow> wave_status option" where
  "WaveStatus_Validate s = validate_enum wave_statuses WaveStatus_String s"

text \<open>\<^verbatim>\<open>JobType.Validate\<close> trims the value before the \<^verbatim>\<open>switch\<close>; the other enumerations do not.\<close>

definition JobType_Validate :: "string \<Rightarrow> job_type option" where
  "JobType_Validate s = validate_enum job_types JobType_String (TrimSpace s)"

datatype status_error =
    UnknownJobStatus string      \<comment> \<open>\<^verbatim>\<open>unknown job status: %q\<close>\<close>
  | UnsupportedScan string       \<comment> \<open>\<^verbatim>\<open>unsupported scan type for %s: %T\<close>\<close>
  | UnknownScanned string string \<comment> \<open>\<^verbatim>\<open>unknown %s value: %q\<close>\<close>

definition ParseJobStatus :: "string \<Rightarrow> status_error + job_status" where
  "ParseJobStatus raw =
     (case JobStatus_Validate (TrimSpace raw) of
        None \<Rightarrow> Inl (UnknownJobStatus raw)
      | Some st \<Rightarrow> Inr st)"

text \<open>The values a database driver hands to \<^verbatim>\<open>Scan\<close>.\<close>

datatype sql_value = SqlBytes string | SqlText string | SqlOther

fun scanDatabaseStatus :: "(string \<Rightarrow> 'a option) \<Rightarrow> string \<Rightarrow> sql_value \<Rightarrow> status_error + 'a" where
  "scanDatabaseStatus validate typeName SqlOther = Inl (UnsupportedScan typeName)"
| "scanDatabaseStatus validate typeName (SqlBytes v) =
     (case validate v of None \<Rightarrow> Inl (UnknownScanned typeName v) | Some st \<Rightarrow> Inr st)"
| "scanDatabaseStatus validate typeName (SqlText v) =
     (case validate v of None \<Rightarrow> Inl (UnknownScanned typeName v) | Some st \<Rightarrow> Inr st)"

text \<open>\<^verbatim>\<open>Value\<close>: a validated status is written as its wire string, anything else is refused.\<close>

definition databaseStatusValue :: "(string \<Rightarrow> 'a option) \<Rightarrow> string \<Rightarrow> sql_value option" where
  "databaseStatusValue validate s = (case validate s of None \<Rightarrow> None | Some _ \<Rightarrow> Some (SqlText s))"

locale wire_enum =
  fixes vals :: "'a list"
    and str :: "'a \<Rightarrow> string"
  assumes vals_all: "c \<in> set vals"
    and str_inj: "str c = str d \<Longrightarrow> c = d"
    and str_trimmed: "TrimSpace (str c) = str c"
begin

lemma str_eq_iff [simp]: "str c = str d \<longleftrightarrow> c = d"
  by (auto intro: str_inj)

lemma validate_str [simp]: "validate_enum vals str (str c) = Some c"
proof -
  have "List.find (\<lambda>d. d = c) xs = Some c" if "c \<in> set xs" for xs
    using that by (induction xs) auto
  then show ?thesis using vals_all by (simp add: validate_enum_def)
qed

lemma validate_iff: "validate_enum vals str s = Some c \<longleftrightarrow> s = str c"
proof
  assume "validate_enum vals str s = Some c"
  then show "s = str c" by (auto simp: validate_enum_def find_Some_iff)
qed simp

lemma validate_None_iff: "validate_enum vals str s = None \<longleftrightarrow> s \<notin> range str"
  by (cases "validate_enum vals str s") (auto simp: validate_iff)

lemma scan_value:
  "databaseStatusValue (validate_enum vals str) (str c) = Some v \<Longrightarrow>
   scanDatabaseStatus (validate_enum vals str) name v = Inr c"
  by (auto simp: databaseStatusValue_def)

lemma scan_Inr_iff:
  "scanDatabaseStatus (validate_enum vals str) name v = Inr c \<longleftrightarrow>
   v = SqlBytes (str c) \<or> v = SqlText (str c)"
  by (cases v) (auto simp: validate_iff split: option.splits)

end

interpretation job_status_enum: wire_enum job_statuses JobStatus_String
proof
  show "c \<in> set job_statuses" for c by (cases c) (simp_all add: job_statuses_def)
  show "JobStatus_String c = JobStatus_String d \<Longrightarrow> c = d" for c d by (cases c; cases d) simp_all
  show "TrimSpace (JobStatus_String c) = JobStatus_String c" for c
    by (cases c) (simp_all add: TrimSpace_fixed is_space_def)
qed

interpretation run_status_enum: wire_enum run_statuses RunStatus_String
proof
  show "c \<in> set run_statuses" for c by (cases c) (simp_all add: run_statuses_def)
  show "RunStatus_String c = RunStatus_String d \<Longrightarrow> c = d" for c d by (cases c; cases d) simp_all
  show "TrimSpace (RunStatus_String c) = RunStatus_String c" for c
    by (cases c) (simp_all add: TrimSpace_fixed is_space_def)
qed

interpretation wave_status_enum: wire_enum wave_statuses WaveStatus_String
proof
  show "c \<in> set wave_statuses" for c by (cases c) (simp_all add: wave_statuses_def)
  show "WaveStatus_String c = WaveStatus_String d \<Longrightarrow> c = d" for c d by (cases c; cases d) simp_all
  show "TrimSpace (WaveStatus_String c) = WaveStatus_String c" for c
    by (cases c) (simp_all add: TrimSpace_fixed is_space_def)
qed

interpretation job_type_enum: wire_enum job_types JobType_String
proof
  show "c \<in> set job_types" for c by (cases c) (simp_all add: job_types_def)
  show "JobType_String c = JobType_String d \<Longrightarrow> c = d" for c d by (cases c; cases d) simp_all
  show "TrimSpace (JobType_String c) = JobType_String c" for c
    by (cases c) (simp_all add: TrimSpace_fixed is_space_def)
qed

lemma ParseJobStatus_Inr_iff: "ParseJobStatus raw = Inr st \<longleftrightarrow> TrimSpace raw = JobStatus_String st"
  by (auto simp: ParseJobStatus_def JobStatus_Validate_def job_status_enum.validate_iff
      split: option.splits)

section \<open>Identifiers\<close>

datatype id_error = ErrEmpty | ErrInvalidID string

definition nanoid_alphabet :: string where
  "nanoid_alphabet = ''0123456789ABCDEFGHIJKLMNOPQRSTUVWXYZabcdefghijklmnopqrstuvwxyz_-''"

definition nanoIDAlphabetTable :: "char \<Rightarrow> bool" where
  "nanoIDAlphabetTable c \<longleftrightarrow> c \<in> set nanoid_alphabet"

text \<open>A validator returns the error, or \<open>None\<close> when the identifier is accepted.\<close>

definition validateNanoID :: "string \<Rightarrow> nat \<Rightarrow> id_error \<Rightarrow> id_error option" where
  "validateNanoID s len err =
     (if length s \<noteq> len then Some err
      else if \<forall>c \<in> set s. nanoIDAlphabetTable c then None else Some err)"

definition validateURLSafeID :: "string \<Rightarrow> nat \<Rightarrow> id_error \<Rightarrow> id_error option" where
  "validateURLSafeID s maxLength err =
     (if length s > maxLength then Some err
      else if \<forall>c \<in> set s. nanoIDAlphabetTable c then None else Some err)"

text \<open>
  \<^verbatim>\<open>marshalIDTextValidated\<close> and \<^verbatim>\<open>unmarshalIDTextValidated\<close>. The optional validator is \<open>None\<close>
  for tags without a \<^verbatim>\<open>ValidateID\<close> method. KSUID tags use the parser of the ksuid package as
  their validator, which is a parameter here like every other validator.
\<close>

definition marshalIDTextValidated :: "(string \<Rightarrow> id_error option) option \<Rightarrow> string \<Rightarrow> id_error + string" where
  "marshalIDTextValidated validate v =
     (let s = Normalize v in
      if IsEmpty s then Inl ErrEmpty
      else case validate of
          None \<Rightarrow> Inr s
        | Some f \<Rightarrow> (case f s of Some e \<Rightarrow> Inl e | None \<Rightarrow> Inr s))"

definition unmarshalIDTextValidated :: "(string \<Rightarrow> id_error option) option \<Rightarrow> string \<Rightarrow> id_error + string" where
  "unmarshalIDTextValidated validate b =
     (let s = Normalize b in
      if IsEmpty s then Inl ErrEmpty
      else case validate of
          None \<Rightarrow> Inr s
        | Some f \<Rightarrow> (case f s of Some e \<Rightarrow> Inl e | None \<Rightarrow> Inr s))"

lemma nanoid_not_space: "nanoIDAlphabetTable c \<Longrightarrow> \<not> is_space c"
proof -
  have "list_all (\<lambda>c. \<not> is_space c) nanoid_alphabet"
    by (simp add: nanoid_alphabet_def is_space_def)
  then show "nanoIDAlphabetTable c \<Longrightarrow> \<not> is_space c"
    by (simp add: nanoIDAlphabetTable_def list_all_iff)
qed

section \<open>Full commit SHAs\<close>

definition is_hex_lower :: "char \<Rightarrow> bool" where
  "is_hex_lower c \<longleftrightarrow> (CHR ''0'' \<le> c \<and> c \<le> CHR ''9'') \<or> (CHR ''a'' \<le> c \<and> c \<le> CHR ''f'')"

definition NormalizeFullCommitSHA :: "string \<Rightarrow> string option" where
  "NormalizeFullCommitSHA raw =
     (let normalized = ToLower (TrimSpace raw) in
      if length normalized \<noteq> 40 then None
      else if \<forall>c \<in> set normalized. is_hex_lower c then Some normalized else None)"

definition IsCanonicalFullCommitSHA :: "string \<Rightarrow> bool" where
  "IsCanonicalFullCommitSHA raw \<longleftrightarrow> NormalizeFullCommitSHA raw = Some raw"

section \<open>Run statistics\<close>

text \<open>
  \<^verbatim>\<open>RunStats.ResumeCount\<close> decodes \<^verbatim>\<open>resume_count\<close> and returns 0 when it is absent. A document
  that does not decode leaves the field unset, so it counts as absent too.
\<close>

definition ResumeCount :: "json \<Rightarrow> int" where
  "ResumeCount stats = (case json_field ''resume_count'' stats of Some (JInt n) \<Rightarrow> n | _ \<Rightarrow> 0)"

end
