(* ===== verification/Lifecycle.thy ===== *)
theory Lifecycle
  imports Domain_Types
begin

text \<open>
  \<^verbatim>\<open>internal/workflow/lifecycle\<close>: terminal states, the derived status of a wave, the decision
  whether a wave is finished (\<^verbatim>\<open>status.go\<close>), the status of a job from its exit code or error
  and the chain action after a completion (\<^verbatim>\<open>orchestrator.go\<close>), with the conversions to the API
  states (\<^verbatim>\<open>internal/migs/api/status_conversion.go\<close>) and the aggregation of
  \<^verbatim>\<open>internal/server/handlers/run_counts.go\<close>.

  Counters are Go \<^verbatim>\<open>int32\<close> values and stay 32-bit words with signed comparison. The lemmas relate
  the decisions taken on the counters to the multiset of run statuses they were counted from.
\<close>

section \<open>Terminal states\<close>

fun IsTerminalRunStatus :: "run_status \<Rightarrow> bool" where
  "IsTerminalRunStatus RunStatusSuccess \<longleftrightarrow> True"
| "IsTerminalRunStatus RunStatusFail \<longleftrightarrow> True"
| "IsTerminalRunStatus RunStatusCancelled \<longleftrightarrow> True"
| "IsTerminalRunStatus _ \<longleftrightarrow> False"

fun IsTerminalWaveStatus :: "wave_status \<Rightarrow> bool" where
  "IsTerminalWaveStatus WaveStatusFinished \<longleftrightarrow> True"
| "IsTerminalWaveStatus WaveStatusCancelled \<longleftrightarrow> True"
| "IsTerminalWaveStatus _ \<longleftrightarrow> False"

lemma IsTerminalRunStatus_iff:
  "IsTerminalRunStatus s \<longleftrightarrow> s \<noteq> RunStatusQueued \<and> s \<noteq> RunStatusRunning"
  by (cases s) simp_all

lemma IsTerminalWaveStatus_iff: "IsTerminalWaveStatus s \<longleftrightarrow> s \<noteq> WaveStatusStarted"
  by (cases s) simp_all

section \<open>Counters\<close>

record RunCounts =
  Total :: int32
  Queued :: int32
  Running :: int32
  Success :: int32
  Fail :: int32
  Cancelled :: int32
  DerivedStatus :: string

record CountRunsByWaveStatusRow =
  row_Status :: run_status
  row_Count :: int32

definition int32_less :: "int32 \<Rightarrow> int32 \<Rightarrow> bool" where
  "int32_less a b \<longleftrightarrow> sint a < sint b"

definition DeriveWaveStatus :: "RunCounts \<Rightarrow> string" where
  "DeriveWaveStatus counts =
     (if Total counts = 0 then ''pending''
      else if int32_less 0 (Cancelled counts) then ''cancelled''
      else if int32_less 0 (Running counts) then ''running''
      else if int32_less 0 (Fail counts) then ''failed''
      else let terminalCount = Success counts + Fail counts + Cancelled counts in
        if terminalCount = Total counts then ''completed'' else ''pending'')"

definition runCountsStep :: "CountRunsByWaveStatusRow \<Rightarrow> RunCounts \<Rightarrow> RunCounts" where
  "runCountsStep row c =
     (let c = c\<lparr>Total := Total c + row_Count row\<rparr> in
      case row_Status row of
        RunStatusQueued \<Rightarrow> c\<lparr>Queued := row_Count row\<rparr>
      | RunStatusRunning \<Rightarrow> c\<lparr>Running := row_Count row\<rparr>
      | RunStatusSuccess \<Rightarrow> c\<lparr>Success := row_Count row\<rparr>
      | RunStatusFail \<Rightarrow> c\<lparr>Fail := row_Count row\<rparr>
      | RunStatusCancelled \<Rightarrow> c\<lparr>Cancelled := row_Count row\<rparr>)"

definition runCountsFromStatusRows :: "CountRunsByWaveStatusRow list \<Rightarrow> RunCounts" where
  "runCountsFromStatusRows rows =
     (let c = fold runCountsStep rows
        \<lparr>Total = 0, Queued = 0, Running = 0, Success = 0, Fail = 0, Cancelled = 0, DerivedStatus = []\<rparr>
      in c\<lparr>DerivedStatus := DeriveWaveStatus c\<rparr>)"

section \<open>Wave completion\<close>

datatype run_state = RunStatePending | RunStateRunning | RunStateSucceeded | RunStateFailed | RunStateCancelled

text \<open>The zero value of \<^verbatim>\<open>RunState\<close> (the empty string) is \<open>None\<close>.\<close>

record RunCompletionEval =
  ShouldFinish :: bool
  RunState :: "run_state option"

definition completionStep ::
  "CountRunsByWaveStatusRow \<Rightarrow> int32 \<times> int32 \<times> bool \<times> bool \<Rightarrow> int32 \<times> int32 \<times> bool \<times> bool" where
  "completionStep row st =
     (case st of (totalCount, terminal, anyFail, anyCancelled) \<Rightarrow>
       (totalCount + row_Count row,
        (if row_Status row \<in> {RunStatusSuccess, RunStatusFail, RunStatusCancelled}
         then terminal + row_Count row else terminal),
        anyFail \<or> (row_Status row = RunStatusFail \<and> int32_less 0 (row_Count row)),
        anyCancelled \<or> (row_Status row = RunStatusCancelled \<and> int32_less 0 (row_Count row))))"

definition EvaluateWaveCompletionFromRunCounts :: "CountRunsByWaveStatusRow list \<Rightarrow> RunCompletionEval" where
  "EvaluateWaveCompletionFromRunCounts counts =
     (case fold completionStep counts (0, 0, False, False) of
        (totalCount, terminal, anyFail, anyCancelled) \<Rightarrow>
          if totalCount = 0 \<or> int32_less terminal totalCount
          then \<lparr>ShouldFinish = False, RunState = None\<rparr>
          else \<lparr>ShouldFinish = True,
                RunState = Some (if anyFail then RunStateFailed
                                 else if anyCancelled then RunStateCancelled
                                 else RunStateSucceeded)\<rparr>)"

section \<open>Job outcomes and chain decisions\<close>

text \<open>What \<^verbatim>\<open>errors.Is\<close> tells about an execution error.\<close>

datatype run_error = ContextCanceled | ContextDeadlineExceeded | OtherRunError string

fun JobStatusFromRunError :: "run_error \<Rightarrow> job_status" where
  "JobStatusFromRunError ContextCanceled = JobStatusCancelled"
| "JobStatusFromRunError ContextDeadlineExceeded = JobStatusCancelled"
| "JobStatusFromRunError (OtherRunError _) = JobStatusError"

definition JobStatusFromExitCode :: "int \<Rightarrow> job_status" where
  "JobStatusFromExitCode exitCode =
     (if exitCode = 0 then JobStatusSuccess
      else if exitCode = 1 then JobStatusFail else JobStatusError)"

datatype CompletionChainAction =
  CompletionChainNoAction | CompletionChainCancelRemainder | CompletionChainAdvanceNext

fun EvaluateCompletionDecision :: "job_status \<Rightarrow> bool \<Rightarrow> CompletionChainAction" where
  "EvaluateCompletionDecision JobStatusSuccess hasNext =
     (if hasNext then CompletionChainAdvanceNext else CompletionChainNoAction)"
| "EvaluateCompletionDecision JobStatusFail _ = CompletionChainCancelRemainder"
| "EvaluateCompletionDecision JobStatusError _ = CompletionChainCancelRemainder"
| "EvaluateCompletionDecision JobStatusCancelled _ = CompletionChainCancelRemainder"
| "EvaluateCompletionDecision _ _ = CompletionChainNoAction"

definition IsGateJobType :: "job_type \<Rightarrow> bool" where
  "IsGateJobType t \<longleftrightarrow> t = JobTypePreGate \<or> t = JobTypePostGate"

datatype stage_state = StageStatePending | StageStateRunning | StageStateSucceeded | StageStateFailed | StageStateCancelled

fun StageStatusFromDomain :: "job_status \<Rightarrow> stage_state" where
  "StageStatusFromDomain JobStatusCreated = StageStatePending"
| "StageStatusFromDomain JobStatusQueued = StageStatePending"
| "StageStatusFromDomain JobStatusRunning = StageStateRunning"
| "StageStatusFromDomain JobStatusSuccess = StageStateSucceeded"
| "StageStatusFromDomain JobStatusFail = StageStateFailed"
| "StageStatusFromDomain JobStatusError = StageStateFailed"
| "StageStatusFromDomain JobStatusCancelled = StageStateCancelled"

fun RunStatusFromDomain :: "run_status \<Rightarrow> run_state" where
  "RunStatusFromDomain RunStatusQueued = RunStatePending"
| "RunStatusFromDomain RunStatusRunning = RunStateRunning"
| "RunStatusFromDomain RunStatusSuccess = RunStateSucceeded"
| "RunStatusFromDomain RunStatusFail = RunStateFailed"
| "RunStatusFromDomain RunStatusCancelled = RunStateCancelled"

section \<open>Counters and the runs they count\<close>

text \<open>
  \<^verbatim>\<open>GROUP BY status\<close> with \<^verbatim>\<open>COUNT(*)::int\<close> over runs with statuses \<open>ss\<close>: one row per status that
  occurs, in an order SQL does not fix.
\<close>

definition group_by_status :: "run_status list \<Rightarrow> CountRunsByWaveStatusRow list \<Rightarrow> bool" where
  "group_by_status ss rows \<longleftrightarrow>
     distinct (map row_Status rows) \<and> row_Status ` set rows = set ss \<and>
     (\<forall>r \<in> set rows. row_Count r = word_of_nat (count_list ss (row_Status r)))"

lemma sint_word_of_nat32: "n < 2 ^ 31 \<Longrightarrow> sint (word_of_nat n :: int32) = int n"
  by (simp add: signed_of_nat signed_take_bit_int_eq_self)

lemma word_of_nat32_eq_0:
  assumes "n < 2 ^ 31"
  shows "(word_of_nat n :: int32) = 0 \<longleftrightarrow> n = 0"
proof
  assume "(word_of_nat n :: int32) = 0"
  then have "sint (word_of_nat n :: int32) = 0" by (simp only: signed_0)
  then show "n = 0" by (simp only: sint_word_of_nat32 [OF assms] of_nat_0_eq_iff)
qed simp

lemma int32_less_of_nat:
  "m < 2 ^ 31 \<Longrightarrow> n < 2 ^ 31 \<Longrightarrow> int32_less (word_of_nat m) (word_of_nat n) \<longleftrightarrow> m < n"
  by (simp add: int32_less_def sint_word_of_nat32)

lemma int32_less_0: "n < 2 ^ 31 \<Longrightarrow> int32_less 0 (word_of_nat n) \<longleftrightarrow> 0 < n"
  using int32_less_of_nat [of 0 n] by simp

lemma count_list_filter: "P s \<Longrightarrow> count_list (filter P ss) s = count_list ss s"
  by (induction ss) auto

lemma sum_count_filter: "(\<Sum>s \<in> {s \<in> set ss. P s}. count_list ss s) = length (filter P ss)"
proof -
  have "(\<Sum>s \<in> set (filter P ss). count_list (filter P ss) s) = length (filter P ss)"
    by (rule sum_count_set) auto
  moreover have "(\<Sum>s \<in> set (filter P ss). count_list (filter P ss) s) =
      (\<Sum>s \<in> {s \<in> set ss. P s}. count_list ss s)"
    by (rule sum.cong) (auto simp: count_list_filter)
  ultimately show ?thesis by simp
qed

lemma sum_rows_filter:
  assumes "group_by_status ss rows"
  shows "sum_list (map (\<lambda>r. count_list ss (row_Status r)) (filter (\<lambda>r. P (row_Status r)) rows)) =
    length (filter P ss)"
proof -
  let ?rs = "filter (\<lambda>r. P (row_Status r)) rows"
  from assms have d: "distinct (map row_Status ?rs)" and st: "set (map row_Status ?rs) = {s \<in> set ss. P s}"
    by (auto simp: group_by_status_def distinct_map inj_on_def)
  have "sum_list (map (\<lambda>r. count_list ss (row_Status r)) ?rs) = sum_list (map (count_list ss) (map row_Status ?rs))"
    by (simp add: comp_def)
  also have "\<dots> = (\<Sum>s \<in> {s \<in> set ss. P s}. count_list ss s)"
    using d st by (metis sum_list_distinct_conv_sum_set)
  finally show ?thesis by (simp add: sum_count_filter)
qed

lemma completion_fold:
  assumes "\<forall>r \<in> set rows. row_Count r = word_of_nat (n (row_Status r))"
  shows "fold completionStep rows (word_of_nat a, word_of_nat b, f, c) =
    (word_of_nat (a + sum_list (map (\<lambda>r. n (row_Status r)) rows)),
     word_of_nat (b + sum_list (map (\<lambda>r. n (row_Status r)) (filter (\<lambda>r. IsTerminalRunStatus (row_Status r)) rows))),
     f \<or> (\<exists>r \<in> set rows. row_Status r = RunStatusFail \<and> int32_less 0 (row_Count r)),
     c \<or> (\<exists>r \<in> set rows. row_Status r = RunStatusCancelled \<and> int32_less 0 (row_Count r)))"
  using assms
proof (induction rows arbitrary: a b f c)
  case (Cons r rows)
  have step: "completionStep r (word_of_nat a, word_of_nat b, f, c) =
    (word_of_nat (a + n (row_Status r)),
     word_of_nat (if IsTerminalRunStatus (row_Status r) then b + n (row_Status r) else b),
     f \<or> (row_Status r = RunStatusFail \<and> int32_less 0 (row_Count r)),
     c \<or> (row_Status r = RunStatusCancelled \<and> int32_less 0 (row_Count r)))"
    using Cons.prems by (cases "row_Status r") (simp_all add: completionStep_def)
  have "\<forall>r \<in> set rows. row_Count r = word_of_nat (n (row_Status r))" using Cons.prems by simp
  then show ?case
    unfolding fold.simps(2) comp_apply step by (subst Cons.IH) (auto simp: algebra_simps)
qed simp

lemma row_positive:
  assumes "group_by_status ss rows" "length ss < 2 ^ 31"
  shows "(\<exists>r \<in> set rows. row_Status r = s \<and> int32_less 0 (row_Count r)) \<longleftrightarrow> s \<in> set ss"
proof -
  have "int32_less 0 (word_of_nat (count_list ss t)) \<longleftrightarrow> t \<in> set ss" for t
    using le_less_trans [OF count_le_length assms(2)] by (simp add: int32_less_0 count_list_0_iff neq0_conv [symmetric] del: neq0_conv)
  moreover from assms(1) have "row_Status ` set rows = set ss"
    and "\<And>r. r \<in> set rows \<Longrightarrow> row_Count r = word_of_nat (count_list ss (row_Status r))"
    by (auto simp: group_by_status_def)
  ultimately show ?thesis by (simp cong: conj_cong bex_cong) (metis (no_types, lifting) image_iff)
qed

text \<open>The decision on the counters is the decision on the runs, in whatever order the rows come.\<close>

lemma EvaluateWaveCompletion_runs:
  assumes g: "group_by_status ss rows" and l: "length ss < 2 ^ 31"
  shows "EvaluateWaveCompletionFromRunCounts rows =
    (if ss = [] \<or> (\<exists>s \<in> set ss. \<not> IsTerminalRunStatus s) then \<lparr>ShouldFinish = False, RunState = None\<rparr>
     else \<lparr>ShouldFinish = True,
           RunState = Some (if RunStatusFail \<in> set ss then RunStateFailed
             else if RunStatusCancelled \<in> set ss then RunStateCancelled else RunStateSucceeded)\<rparr>)"
proof -
  let ?t = "length (filter IsTerminalRunStatus ss)"
  have "fold completionStep rows (0, 0, False, False) =
    (word_of_nat (length ss), word_of_nat ?t, RunStatusFail \<in> set ss, RunStatusCancelled \<in> set ss)"
  proof -
    have "\<forall>r \<in> set rows. row_Count r = word_of_nat (count_list ss (row_Status r))"
      using g by (simp add: group_by_status_def)
    from completion_fold [OF this, of 0 0 False False] show ?thesis
      using sum_rows_filter [OF g, of "\<lambda>_. True"]
      by (simp add: row_positive [OF g l] sum_rows_filter [OF g])
  qed
  moreover have "int32_less (word_of_nat ?t) (word_of_nat (length ss)) \<longleftrightarrow> ?t < length ss"
    using l le_less_trans [OF length_filter_le l] by (intro int32_less_of_nat)
  moreover have "?t < length ss \<longleftrightarrow> (\<exists>s \<in> set ss. \<not> IsTerminalRunStatus s)"
    by (metis length_filter_less filter_True less_irrefl)
  ultimately show ?thesis
    using l by (simp add: EvaluateWaveCompletionFromRunCounts_def word_of_nat32_eq_0)
qed

end
