(* ===== verification/Job_Chain.thy ===== *)
theory Job_Chain
  imports Ploy_Prelude
begin

text \<open>
  \<^verbatim>\<open>internal/workflow/jobchain/order.go\<close>: reconstruction of a linked job chain from job ids
  and successor pointers. \<open>Order\<close> is generic in the item type, as the Go function is.

  The lemmas show that the walk always ends, that the result is a permutation of the input
  when the ids are distinct, that it does not depend on the order of the input, and that a
  linear chain is returned in chain order. The locale \<open>chain_orderer\<close> is the contract the
  callers rely on; \<open>order_chain\<close> interprets it on \<open>Order\<close>.
\<close>

section \<open>The algorithm\<close>

text \<open>\<^verbatim>\<open>itemByID\<close>: a later item with the same id replaces an earlier one.\<close>

definition itemByID :: "('a \<Rightarrow> job_id) \<Rightarrow> 'a list \<Rightarrow> (job_id \<times> 'a) list" where
  "itemByID idOf items = map (\<lambda>x. (idOf x, x)) (rev items)"

text \<open>The successor of an item, when it is set, not blank, and one of the items.\<close>

definition knownNext :: "('a \<Rightarrow> job_id) \<Rightarrow> ('a \<Rightarrow> job_id option) \<Rightarrow> 'a list \<Rightarrow> 'a \<Rightarrow> job_id option" where
  "knownNext idOf nextOf items x =
     (case nextOf x of
        None \<Rightarrow> None
      | Some n \<Rightarrow> if IsEmpty n then None
                  else if map_of (itemByID idOf items) n = None then None else Some n)"

text \<open>\<^verbatim>\<open>predecessors[id]\<close> and \<^verbatim>\<open>nextByID\<close>; items without a known successor write no entry.\<close>

definition predecessors :: "('a \<Rightarrow> job_id) \<Rightarrow> ('a \<Rightarrow> job_id option) \<Rightarrow> 'a list \<Rightarrow> job_id \<Rightarrow> nat" where
  "predecessors idOf nextOf items i = length (filter (\<lambda>x. knownNext idOf nextOf items x = Some i) items)"

definition nextByID :: "('a \<Rightarrow> job_id) \<Rightarrow> ('a \<Rightarrow> job_id option) \<Rightarrow> 'a list \<Rightarrow> (job_id \<times> job_id) list" where
  "nextByID idOf nextOf items =
     List.map_filter (\<lambda>x. map_option (Pair (idOf x)) (knownNext idOf nextOf items x)) (rev items)"

text \<open>The closure \<^verbatim>\<open>walkChain\<close>, with the captured \<^verbatim>\<open>visited\<close> and \<^verbatim>\<open>out\<close> passed explicitly.\<close>

function walkChain ::
  "(job_id \<times> 'a) list \<Rightarrow> (job_id \<times> job_id) list \<Rightarrow> job_id \<Rightarrow> job_id list \<times> 'a list \<Rightarrow> job_id list \<times> 'a list"
where
  "walkChain byID nextBy current (visited, out) =
     (if current \<in> set visited then (visited, out)
      else case map_of byID current of
          None \<Rightarrow> (visited, out)
        | Some item \<Rightarrow>
            (case map_of nextBy current of
               None \<Rightarrow> (current # visited, out @ [item])
             | Some nextID \<Rightarrow> walkChain byID nextBy nextID (current # visited, out @ [item])))"
  by pat_completeness auto

termination
proof (relation "measure (\<lambda>(byID, _, _, visited, _). card (fst ` set byID - set visited))", goal_cases)
  case (2 byID nextBy current visited out item nextID)
  then have "current \<in> fst ` set byID - set visited"
    by (metis Diff_iff fst_conv image_eqI map_of_SomeD)
  then have "fst ` set byID - set (current # visited) \<subset> fst ` set byID - set visited" by auto
  then show ?case by (auto intro: psubset_card_mono)
qed simp

declare walkChain.simps [simp del]

definition Order :: "('a \<Rightarrow> job_id) \<Rightarrow> ('a \<Rightarrow> job_id option) \<Rightarrow> 'a list \<Rightarrow> 'a list" where
  "Order idOf nextOf items =
     (if length items \<le> 1 then items
      else
        let byID = itemByID idOf items;
            nextBy = nextByID idOf nextOf items;
            orderedIDs = map idOf items;
            heads = sort (filter (\<lambda>i. predecessors idOf nextOf items i = 0) orderedIDs);
            (visited, out) = fold (walkChain byID nextBy) heads ([], [])
        in if length out = length items then out
           else
             let remaining = sort (filter (\<lambda>i. i \<notin> set visited) orderedIDs)
             in snd (fold (walkChain byID nextBy) remaining (visited, out)))"

section \<open>The walk\<close>

text \<open>What the walk keeps: \<^verbatim>\<open>out\<close> holds the items of the visited ids, each once.\<close>

definition walk_ok :: "('a \<Rightarrow> job_id) \<Rightarrow> (job_id \<times> 'a) list \<Rightarrow> job_id list \<times> 'a list \<Rightarrow> bool" where
  "walk_ok idOf byID st \<longleftrightarrow>
     rev (fst st) = map idOf (snd st) \<and> distinct (fst st) \<and>
     (\<forall>x \<in> set (snd st). map_of byID (idOf x) = Some x)"

text \<open>Whatever survives visiting one more known, unvisited id survives the walk.\<close>

lemma walkChain_induct:
  assumes "P st"
    and push: "\<And>visited out i item. P (visited, out) \<Longrightarrow> i \<notin> set visited \<Longrightarrow> map_of byID i = Some item \<Longrightarrow>
      P (i # visited, out @ [item])"
  shows "P (walkChain byID nextBy current st)"
  using assms
proof (induction byID nextBy current st rule: walkChain.induct)
  case (1 byID nextBy current visited out)
  show ?case
  proof (cases "current \<in> set visited \<or> map_of byID current = None")
    case True
    with "1.prems"(1) show ?thesis by (auto simp: walkChain.simps)
  next
    case False
    then obtain item where item: "map_of byID current = Some item" by auto
    with False have "P (current # visited, out @ [item])" using "1.prems" by blast
    with False item "1.IH" [OF _ item] "1.prems"(2) show ?thesis
      by (cases "map_of nextBy current") (simp_all add: walkChain.simps [of byID nextBy current])
  qed
qed

lemma walks_induct:
  assumes "P st"
    and push: "\<And>visited out i item. P (visited, out) \<Longrightarrow> i \<notin> set visited \<Longrightarrow> map_of byID i = Some item \<Longrightarrow>
      P (i # visited, out @ [item])"
  shows "P (fold (walkChain byID nextBy) is st)"
  using assms(1)
proof (induction "is" arbitrary: st)
  case (Cons i "is")
  from Cons.prems push have "P (walkChain byID nextBy i st)" by (rule walkChain_induct)
  with Cons.IH show ?case by simp
qed simp

lemma walk_ok_walks:
  assumes "\<And>i x. map_of byID i = Some x \<Longrightarrow> idOf x = i" and "walk_ok idOf byID st"
  shows "walk_ok idOf byID (fold (walkChain byID nextBy) is st)"
  using assms(2)
  by (rule walks_induct [where P = "walk_ok idOf byID"]) (auto simp: walk_ok_def dest: assms(1))

lemma walk_visited_mono: "set (fst st) \<subseteq> set (fst (walkChain byID nextBy current st))"
  by (rule walkChain_induct [where P = "\<lambda>t. set (fst st) \<subseteq> set (fst t)"]) auto

lemma walks_visited_mono: "set (fst st) \<subseteq> set (fst (fold (walkChain byID nextBy) is st))"
  by (rule walks_induct [where P = "\<lambda>t. set (fst st) \<subseteq> set (fst t)"]) auto

lemma walk_visits_start:
  assumes "current \<in> fst ` set byID"
  shows "current \<in> set (fst (walkChain byID nextBy current st))"
proof (cases st)
  case (Pair visited out)
  from assms obtain item where "map_of byID current = Some item"
    by (metis map_of_eq_None_iff not_Some_eq)
  then show ?thesis
    using walk_visited_mono [of "(current # visited, out @ [item])"]
    by (auto simp: Pair walkChain.simps split: option.splits)
qed

lemma walks_visit_starts:
  "set is \<subseteq> fst ` set byID \<Longrightarrow> set is \<subseteq> set (fst (fold (walkChain byID nextBy) is st))"
proof (induction "is" arbitrary: st)
  case (Cons i "is")
  then have "i \<in> set (fst (walkChain byID nextBy i st))" by (intro walk_visits_start) simp
  then have "i \<in> set (fst (fold (walkChain byID nextBy) is (walkChain byID nextBy i st)))"
    using walks_visited_mono by (rule subsetD [rotated])
  with Cons show ?case by simp
qed simp

lemma walkChain_cong:
  assumes "map_of byID = map_of byID'" and "map_of nextBy = map_of nextBy'"
  shows "walkChain byID nextBy current st = walkChain byID' nextBy' current st"
  using assms
proof (induction byID nextBy current st rule: walkChain.induct)
  case (1 byID nextBy current visited out)
  note unfold = walkChain.simps [of byID nextBy current] walkChain.simps [of byID' nextBy' current]
  show ?case
  proof (cases "current \<in> set visited \<or> map_of byID current = None \<or> map_of nextBy current = None")
    case True
    then show ?thesis by (auto simp: unfold "1.prems" split: option.splits)
  next
    case False
    then obtain item nextID where
      "map_of byID current = Some item" "map_of nextBy current = Some nextID" by auto
    with False "1.IH" "1.prems" show ?thesis by (simp add: unfold)
  qed
qed

section \<open>The result is a permutation of the items\<close>

lemma itemByID_id: "map_of (itemByID idOf items) i = Some x \<Longrightarrow> idOf x = i"
  by (drule map_of_SomeD) (auto simp: itemByID_def)

lemma itemByID_keys [simp]: "fst ` set (itemByID idOf items) = idOf ` set items"
  by (auto simp: itemByID_def image_iff)

lemma itemByID_item:
  assumes "distinct (map idOf items)"
  shows "map_of (itemByID idOf items) i = Some x \<longleftrightarrow> x \<in> set items \<and> idOf x = i"
proof -
  have "distinct (map fst (itemByID idOf items))"
    using assms by (simp add: itemByID_def comp_def rev_map [symmetric])
  then show ?thesis by (auto simp: map_of_eq_Some_iff) (auto simp: itemByID_def)
qed

lemma walk_ok_mset:
  assumes ok: "walk_ok idOf (itemByID idOf items) st" and d: "distinct (map idOf items)"
    and full: "length (snd st) = length items \<or> idOf ` set items \<subseteq> set (fst st)"
  shows "mset (snd st) = mset items"
proof -
  have sub: "set (snd st) \<subseteq> set items"
    using ok by (auto simp: walk_ok_def itemByID_item [OF d])
  have ids: "map idOf (snd st) = rev (fst st)" and dv: "distinct (fst st)"
    using ok by (auto simp: walk_ok_def)
  then have "distinct (map idOf (snd st))" by simp
  then have d': "distinct (snd st)" "distinct items" using d by (auto simp: distinct_map)
  from ids have vis: "set (fst st) = idOf ` set (snd st)" by (metis list.set_map set_rev)
  have "set (snd st) = set items" using full
  proof
    assume "length (snd st) = length items"
    with d' have "card (set (snd st)) = card (set items)" by (simp add: distinct_card)
    with sub show ?thesis by (intro card_subset_eq) auto
  next
    assume "idOf ` set items \<subseteq> set (fst st)"
    show ?thesis
    proof (rule equalityI [OF sub], rule subsetI)
      fix x assume x: "x \<in> set items"
      with \<open>idOf ` set items \<subseteq> set (fst st)\<close> vis obtain y where "y \<in> set (snd st)" "idOf x = idOf y" by auto
      with x sub d show "x \<in> set (snd st)" by (metis distinct_map inj_onD subsetD)
    qed
  qed
  with d' show ?thesis by (simp add: set_eq_iff_mset_eq_distinct)
qed

lemma Order_perm:
  assumes d: "distinct (map idOf items)"
  shows "mset (Order idOf nextOf items) = mset items"
proof (cases "length items \<le> 1")
  case False
  define byID nextBy where "byID = itemByID idOf items" and "nextBy = nextByID idOf nextOf items"
  define st where "st = fold (walkChain byID nextBy)
    (sort (filter (\<lambda>i. predecessors idOf nextOf items i = 0) (map idOf items))) ([], [])"
  define remaining where "remaining = sort (filter (\<lambda>i. i \<notin> set (fst st)) (map idOf items))"
  define st2 where "st2 = fold (walkChain byID nextBy) remaining st"
  have keep: "walk_ok idOf byID t \<Longrightarrow> walk_ok idOf byID (fold (walkChain byID nextBy) is t)" for "is" t
    unfolding byID_def by (rule walk_ok_walks) (rule itemByID_id)
  have ok: "walk_ok idOf byID st" unfolding st_def by (rule keep) (simp add: walk_ok_def)
  have "set remaining \<subseteq> set (fst st2)" unfolding st2_def
    by (rule walks_visit_starts) (auto simp: remaining_def byID_def)
  moreover have "set (fst st) \<subseteq> set (fst st2)" unfolding st2_def by (rule walks_visited_mono)
  ultimately have "idOf ` set items \<subseteq> set (fst st2)" by (auto simp: remaining_def)
  moreover have "walk_ok idOf byID st2" unfolding st2_def by (rule keep [OF ok])
  ultimately have st2: "mset (snd st2) = mset items" using d unfolding byID_def by (intro walk_ok_mset) auto
  have "Order idOf nextOf items = (if length (snd st) = length items then snd st else snd st2)"
    using False by (simp add: Order_def st2_def remaining_def st_def byID_def nextBy_def case_prod_beta Let_def)
  with ok d st2 show ?thesis by (auto simp: byID_def intro!: walk_ok_mset)
qed (simp add: Order_def)

section \<open>The result does not depend on the order of the items\<close>

lemma knownNext_cong: "set xs = set ys \<Longrightarrow> knownNext idOf nextOf xs = knownNext idOf nextOf ys"
  by (rule ext) (auto simp: knownNext_def map_of_eq_None_iff split: option.splits)

lemma predecessors_cong:
  assumes "mset xs = mset ys"
  shows "predecessors idOf nextOf xs = predecessors idOf nextOf ys"
proof
  fix i
  have "knownNext idOf nextOf xs = knownNext idOf nextOf ys"
    using assms by (intro knownNext_cong) (rule mset_eq_setD)
  with assms show "predecessors idOf nextOf xs i = predecessors idOf nextOf ys i"
    unfolding predecessors_def by (metis mset_filter size_mset)
qed

lemma nextByID_item:
  assumes "distinct (map idOf items)"
  shows "map_of (nextByID idOf nextOf items) i = Some n \<longleftrightarrow>
    (\<exists>x \<in> set items. idOf x = i \<and> knownNext idOf nextOf items x = Some n)"
proof -
  let ?f = "\<lambda>x. map_option (Pair (idOf x)) (knownNext idOf nextOf items x)"
  have "distinct (map idOf xs) \<Longrightarrow> distinct (map fst (List.map_filter ?f xs)) \<and>
      fst ` set (List.map_filter ?f xs) \<subseteq> idOf ` set xs" for xs
    by (induction xs) (auto simp: map_filter_simps split: option.splits)
  moreover have "distinct (map idOf (rev items))" using assms by (simp add: rev_map [symmetric])
  ultimately have "distinct (map fst (nextByID idOf nextOf items))" by (simp add: nextByID_def)
  then show ?thesis
    by (auto simp: nextByID_def map_of_eq_Some_iff set_map_filter)
qed

lemma Order_cong:
  assumes d: "distinct (map idOf xs)" and m: "mset xs = mset ys"
  shows "Order idOf nextOf xs = Order idOf nextOf ys"
proof -
  have d': "distinct (map idOf ys)" using d m by (metis mset_eq_imp_distinct_iff mset_map)
  have s: "set xs = set ys" and l: "length xs = length ys" using m by (metis mset_eq_setD, metis size_mset)
  have by_id: "map_of (itemByID idOf xs) = map_of (itemByID idOf ys)"
    by (rule map_eqI_Some) (simp add: itemByID_item [OF d] itemByID_item [OF d'] s)
  have next_by: "map_of (nextByID idOf nextOf xs) = map_of (nextByID idOf nextOf ys)"
    by (rule map_eqI_Some) (simp add: nextByID_item [OF d] nextByID_item [OF d'] knownNext_cong [OF s] s)
  have w: "walkChain (itemByID idOf xs) (nextByID idOf nextOf xs) =
      walkChain (itemByID idOf ys) (nextByID idOf nextOf ys)"
    by (intro ext walkChain_cong by_id next_by)
  have srt: "sort (filter P (map idOf xs)) = sort (filter P (map idOf ys))" for P
    by (rule properties_for_sort) (simp_all add: m)
  show ?thesis
  proof (cases "length xs \<le> 1")
    case True
    then have "xs = [] \<or> (\<exists>x. xs = [x])" by (cases xs) auto
    then have "xs = ys" using m by (auto simp: mset_single_iff_right)
    then show ?thesis by simp
  next
    case False
    then show ?thesis by (simp add: Order_def Let_def case_prod_beta w srt predecessors_cong [OF m] l)
  qed
qed

section \<open>Linear chains\<close>

text \<open>A linear chain: each item points to the following one, and the last one to nothing.\<close>

fun is_chain :: "('a \<Rightarrow> job_id) \<Rightarrow> ('a \<Rightarrow> job_id option) \<Rightarrow> 'a list \<Rightarrow> bool" where
  "is_chain idOf nextOf [] \<longleftrightarrow> True"
| "is_chain idOf nextOf [x] \<longleftrightarrow> nextOf x = None"
| "is_chain idOf nextOf (x # y # xs) \<longleftrightarrow> nextOf x = Some (idOf y) \<and> is_chain idOf nextOf (y # xs)"

lemma is_chain_next:
  "is_chain idOf nextOf c \<Longrightarrow> x \<in> set c \<Longrightarrow> nextOf x = Some n \<Longrightarrow> n \<in> idOf ` set (tl c)"
  by (induction idOf nextOf c rule: is_chain.induct) auto

lemma is_chain_pred:
  "is_chain idOf nextOf c \<Longrightarrow> z \<in> set (tl c) \<Longrightarrow> \<exists>y \<in> set c. nextOf y = Some (idOf z)"
proof (induction idOf nextOf c rule: is_chain.induct)
  case (3 idOf nextOf x y xs)
  then show ?case by (cases "z = y") auto
qed simp_all

lemma is_chain_suffix: "is_chain idOf nextOf (pre @ suf) \<Longrightarrow> is_chain idOf nextOf suf"
proof (induction pre)
  case (Cons x pre)
  then show ?case by (cases "pre @ suf") auto
qed simp

lemma is_chain_map:
  assumes "\<And>x. x \<in> set c \<Longrightarrow> idOf (f x) = idOf x" "\<And>x. x \<in> set c \<Longrightarrow> nextOf (f x) = nextOf x"
  shows "is_chain idOf nextOf (map f c) \<longleftrightarrow> is_chain idOf nextOf c"
  using assms by (induction idOf nextOf c rule: is_chain.induct) auto

lemma is_chain_at:
  "is_chain idOf nextOf (pre @ x # post) \<Longrightarrow> nextOf x = (case post of [] \<Rightarrow> None | y # _ \<Rightarrow> Some (idOf y))"
  by (drule is_chain_suffix) (cases post; simp)

lemma nextByID_chain:
  assumes "is_chain idOf nextOf c" "distinct (map idOf c)" "\<forall>x \<in> set c. \<not> IsEmpty (idOf x)" "x \<in> set c"
  shows "knownNext idOf nextOf c x = nextOf x"
proof (cases "nextOf x")
  case (Some n)
  then have "n \<in> idOf ` set (tl c)" using assms is_chain_next by metis
  then have "n \<in> idOf ` set c" by (cases c) auto
  then have "map_of (itemByID idOf c) n \<noteq> None" and "\<not> IsEmpty n"
    using assms(3) by (auto simp: map_of_eq_None_iff)
  with Some show ?thesis by (simp add: knownNext_def)
qed (simp add: knownNext_def)

lemma map_of_nextByID_chain:
  assumes "is_chain idOf nextOf c" "distinct (map idOf c)" "\<forall>x \<in> set c. \<not> IsEmpty (idOf x)" "x \<in> set c"
  shows "map_of (nextByID idOf nextOf c) (idOf x) = nextOf x"
proof -
  have "map_of (nextByID idOf nextOf c) (idOf x) = Some n \<longleftrightarrow> nextOf x = Some n" for n
    using assms nextByID_chain [OF assms(1-3)]
    by (auto simp: nextByID_item distinct_map dest: inj_onD)
  then show ?thesis by (metis not_Some_eq)
qed

lemma walk_chain:
  assumes "is_chain idOf nextOf c" "distinct (map idOf c)" "\<forall>x \<in> set c. \<not> IsEmpty (idOf x)"
    and "c = pre @ x # post"
  shows "walkChain (itemByID idOf c) (nextByID idOf nextOf c) (idOf x) (rev (map idOf pre), pre) =
    (rev (map idOf c), c)"
  using assms(4)
proof (induction post arbitrary: pre x)
  case Nil
  then have "nextOf x = None" using assms(1) is_chain_at by fastforce
  then have "map_of (nextByID idOf nextOf c) (idOf x) = None"
    using map_of_nextByID_chain [OF assms(1-3), of x] Nil by simp
  moreover have "map_of (itemByID idOf c) (idOf x) = Some x"
    unfolding itemByID_item [OF assms(2)] using Nil by simp
  moreover have "idOf x \<notin> set (rev (map idOf pre))" using assms(2) Nil by auto
  ultimately show ?case using Nil by (simp add: walkChain.simps)
next
  case (Cons y post)
  then have n: "nextOf x = Some (idOf y)" using assms(1) is_chain_at by fastforce
  have item: "map_of (itemByID idOf c) (idOf x) = Some x"
    unfolding itemByID_item [OF assms(2)] using Cons.prems by simp
  have "map_of (nextByID idOf nextOf c) (idOf x) = Some (idOf y)"
    using map_of_nextByID_chain [OF assms(1-3), of x] Cons.prems n by simp
  moreover have "idOf x \<notin> set (rev (map idOf pre))" using assms(2) Cons.prems by auto
  moreover have "walkChain (itemByID idOf c) (nextByID idOf nextOf c) (idOf y)
      (rev (map idOf (pre @ [x])), pre @ [x]) = (rev (map idOf c), c)"
    using Cons.prems by (intro Cons.IH) simp
  ultimately show ?case by (simp add: walkChain.simps item)
qed

lemma Order_chain:
  assumes c: "is_chain idOf nextOf c" "distinct (map idOf c)" "\<forall>x \<in> set c. \<not> IsEmpty (idOf x)"
    and m: "mset items = mset c"
  shows "Order idOf nextOf items = c"
proof -
  have "Order idOf nextOf items = Order idOf nextOf c"
    using m c(2) by (intro Order_cong [symmetric]) simp_all
  also have "\<dots> = c"
  proof (cases "length c \<le> 1")
    case False
    then obtain x xs where cx: "c = x # xs" by (cases c) auto
    have nx: "knownNext idOf nextOf c y = nextOf y" if "y \<in> set c" for y
      using that by (rule nextByID_chain [OF c])
    have "predecessors idOf nextOf c (idOf x) = 0"
      using is_chain_next [OF c(1)] nx c(2) cx by (fastforce simp: predecessors_def filter_empty_conv)
    moreover have "predecessors idOf nextOf c (idOf z) \<noteq> 0" if "z \<in> set xs" for z
      using is_chain_pred [OF c(1), of z] that nx cx by (fastforce simp: predecessors_def filter_empty_conv)
    ultimately have "filter (\<lambda>i. predecessors idOf nextOf c i = 0) (map idOf c) = [idOf x]"
      by (auto simp: cx filter_empty_conv)
    moreover have "walkChain (itemByID idOf c) (nextByID idOf nextOf c) (idOf x) ([], []) = (rev (map idOf c), c)"
      using walk_chain [OF c, of "[]" x xs] cx by simp
    ultimately show ?thesis using False by (simp add: Order_def)
  qed (simp add: Order_def)
  finally show ?thesis .
qed

section \<open>The contract of the orderer\<close>

locale chain_orderer =
  fixes ord :: "('a \<Rightarrow> job_id) \<Rightarrow> ('a \<Rightarrow> job_id option) \<Rightarrow> 'a list \<Rightarrow> 'a list"
  assumes ord_perm: "distinct (map idOf items) \<Longrightarrow> mset (ord idOf nextOf items) = mset items"
    and ord_chain: "is_chain idOf nextOf c \<Longrightarrow> distinct (map idOf c) \<Longrightarrow> \<forall>x \<in> set c. \<not> IsEmpty (idOf x) \<Longrightarrow>
      mset items = mset c \<Longrightarrow> ord idOf nextOf items = c"
begin

lemma ord_set: "distinct (map idOf items) \<Longrightarrow> set (ord idOf nextOf items) = set items"
  by (rule mset_eq_setD) (rule ord_perm)

lemma ord_length: "distinct (map idOf items) \<Longrightarrow> length (ord idOf nextOf items) = length items"
  by (metis ord_perm size_mset)

text \<open>The jobs after a job in the order are those reached by following successor pointers.\<close>

lemma ord_after:
  assumes "is_chain idOf nextOf (pre @ x # post)" "distinct (map idOf (pre @ x # post))"
    "\<forall>y \<in> set (pre @ x # post). \<not> IsEmpty (idOf y)" "mset items = mset (pre @ x # post)"
  shows "tl (dropWhile (\<lambda>y. idOf y \<noteq> idOf x) (ord idOf nextOf items)) = post"
proof -
  have "dropWhile (\<lambda>y. idOf y \<noteq> idOf x) (pre @ x # post) = x # post"
    using assms(2) by (subst dropWhile_append2) (auto intro: rev_image_eqI)
  then show ?thesis using ord_chain [OF assms] by simp
qed

end

interpretation order_chain: chain_orderer Order
  by unfold_locales (rule Order_perm, assumption, rule Order_chain)

end
