(* ===== verification/Store_Model.thy ===== *)
theory Store_Model
  imports Lifecycle Job_Chain
begin

text \<open>
  \<^verbatim>\<open>internal/store\<close>: the tables (\<^verbatim>\<open>models.go\<close>, \<^verbatim>\<open>schema.sql\<close>) and the generated queries
  (\<^verbatim>\<open>jobs.sql.go\<close>, \<^verbatim>\<open>runs.sql.go\<close>, \<^verbatim>\<open>waves.sql.go\<close>, \<^verbatim>\<open>job_metrics.sql.go\<close>).

  A table is the list of its rows. A statement is a function on the database; \<^verbatim>\<open>now()\<close> is an
  argument. An error of a statement aborts its transaction, so an operation returns either the
  error, and the database is unchanged, or its result with the new database. The errors are
  those the contents of the tables determine (missing row, key, check and cast violations);
  a lost connection is a rollback with no result. \<^verbatim>\<open>SKIP LOCKED\<close> is the argument \<open>locked\<close>, the
  rows other transactions hold. Text columns compare bytewise.
\<close>

section \<open>Rows\<close>

record job =
  job_ID :: job_id
  job_RunID :: run_id
  job_RepoID :: repo_id
  job_RepoBaseRef :: string
  job_Attempt :: int
  job_Status :: job_status
  job_JobType :: job_type
  job_JobImage :: string
  job_NextID :: "job_id option"
  job_Name :: string
  job_NodeID :: "node_id option"
  job_ExitCode :: "int option"
  job_StartedAt :: "timestamp option"
  job_FinishedAt :: "timestamp option"
  job_DurationMs :: int
  job_RepoShaIn :: string
  job_RepoShaOut :: string
  job_RepoShaIn8 :: string
  job_RepoShaOut8 :: string
  job_Meta :: json

record run =
  run_ID :: run_id
  run_WaveID :: wave_id
  run_MigID :: string
  run_SpecID :: string
  run_RepoID :: repo_id
  run_RepoBaseRef :: string
  run_SourceCommitSha :: string
  run_RepoSha0 :: string
  run_CreatedBy :: "string option"
  run_Status :: run_status
  run_Attempt :: int
  run_LastError :: "string option"
  run_CreatedAt :: timestamp
  run_StartedAt :: "timestamp option"
  run_FinishedAt :: "timestamp option"
  run_Stats :: json

record wave =
  wave_ID :: wave_id
  wave_MigID :: string
  wave_SpecID :: string
  wave_CreatedBy :: "string option"
  wave_Status :: wave_status
  wave_CreatedAt :: timestamp
  wave_StartedAt :: "timestamp option"
  wave_FinishedAt :: "timestamp option"
  wave_Stats :: json

record node =
  node_ID :: node_id
  node_Name :: string
  node_IpAddress :: string
  node_Version :: "string option"
  node_Concurrency :: int
  node_CpuTotalMillis :: int
  node_CpuFreeMillis :: int
  node_MemTotalBytes :: int
  node_MemFreeBytes :: int
  node_DiskTotalBytes :: int
  node_DiskFreeBytes :: int
  node_Drained :: bool
  node_DrainRevision :: int
  node_CertSerial :: "string option"
  node_CertFingerprint :: "string option"
  node_CertNotBefore :: "timestamp option"
  node_CertNotAfter :: "timestamp option"
  node_LastHeartbeat :: "timestamp option"
  node_CreatedAt :: timestamp

record repo =
  repo_ID :: repo_id
  repo_Url :: string

record log_row =
  log_RunID :: run_id
  log_JobID :: "job_id option"
  log_ChunkNo :: int
  log_DataSize :: int

record sbom =
  sbom_JobID :: job_id
  sbom_RepoID :: repo_id
  sbom_Lib :: string
  sbom_Ver :: string

record job_metric =
  jm_NodeID :: node_id
  jm_JobID :: job_id
  jm_CpuConsumedNs :: int
  jm_DiskConsumedBytes :: int
  jm_MemConsumedBytes :: int

record node_metric =
  nm_NodeID :: node_id
  nm_CpuTotalMillis :: int
  nm_CpuFreeMillis :: int
  nm_MemTotalBytes :: int
  nm_MemFreeBytes :: int
  nm_DiskTotalBytes :: int
  nm_DiskFreeBytes :: int

record bootstrap_token =
  bt_TokenHash :: string
  bt_TokenID :: string
  bt_NodeID :: "node_id option"
  bt_IssuedAt :: timestamp
  bt_ExpiresAt :: "timestamp option"
  bt_UsedAt :: "timestamp option"
  bt_CertIssuedAt :: "timestamp option"
  bt_RevokedAt :: "timestamp option"
  bt_IssuedBy :: "string option"

record api_token =
  at_TokenHash :: string
  at_TokenID :: string
  at_Role :: string
  at_Username :: "string option"
  at_Description :: "string option"
  at_IssuedAt :: timestamp
  at_ExpiresAt :: "timestamp option"
  at_LastUsedAt :: "timestamp option"
  at_RevokedAt :: "timestamp option"
  at_CreatedBy :: "string option"
  at_CreatedAt :: timestamp

text \<open>
  The migration projects, specs and memberships only enter through foreign keys here:
  \<open>db_migs\<close> and \<open>db_specs\<close> hold the ids, \<open>db_mig_repos\<close> the pairs of mig and repo id.
\<close>

record db =
  db_jobs :: "job list"
  db_runs :: "run list"
  db_waves :: "wave list"
  db_nodes :: "node list"
  db_repos :: "repo list"
  db_migs :: "string list"
  db_specs :: "string list"
  db_mig_repos :: "(string \<times> repo_id) list"
  db_logs :: "log_row list"
  db_sboms :: "sbom list"
  db_job_metrics :: "job_metric list"
  db_node_metrics :: "node_metric list"
  db_bootstrap_tokens :: "bootstrap_token list"
  db_api_tokens :: "api_token list"

datatype store_error =
    ErrNoRows
  | ErrUniqueViolation string
  | ErrForeignKey string
  | ErrCheck string
  | ErrNotNull string
  | ErrIntegerRange
  | ErrInvalidCast
  | ErrInvalidJSON
  | ErrEmptyNodeID
  | ErrUnclaimJobID
  | ErrUnclaimNodeID
  | ErrRunsRequired
  | ErrJobsRequired
  | ErrRunRestartActive
  | ErrRunRestartWaveCancelled
  | ErrRunResumeInvalid
  | ErrJobExecutionStale
  | ActiveRepoRunError repo_id string run_id

section \<open>Job queries\<close>

text \<open>
  An interval in milliseconds: \<^verbatim>\<open>EXTRACT(EPOCH ...) * 1000\<close> is exact and the cast to \<^verbatim>\<open>BIGINT\<close>
  rounds half away from zero. Timestamps are microseconds.
\<close>

definition pg_interval_ms :: "int \<Rightarrow> int" where
  "pg_interval_ms us = (if us \<ge> 0 then (us + 500) div 1000 else - ((- us + 500) div 1000))"

definition coalesce :: "'a option \<Rightarrow> 'a \<Rightarrow> 'a" where
  "coalesce v d = (case v of None \<Rightarrow> d | Some x \<Rightarrow> x)"

definition is_active_job :: "job \<Rightarrow> bool" where
  "is_active_job j \<longleftrightarrow> job_Status j \<in> {JobStatusCreated, JobStatusQueued, JobStatusRunning}"

definition cancel_active_job :: "timestamp \<Rightarrow> job \<Rightarrow> job" where
  "cancel_active_job now j = j\<lparr>
     job_Status := JobStatusCancelled,
     job_FinishedAt := Some (coalesce (job_FinishedAt j) now),
     job_DurationMs := (case job_StartedAt j of
         None \<Rightarrow> 0
       | Some s \<Rightarrow> pg_interval_ms (max 0 (coalesce (job_FinishedAt j) now - s)))\<rparr>"

definition CancelActiveJobsByRun :: "timestamp \<Rightarrow> run_id \<Rightarrow> db \<Rightarrow> nat \<times> db" where
  "CancelActiveJobsByRun now runID d =
     (let hit = (\<lambda>j. job_RunID j = runID \<and> is_active_job j) in
      (length (filter hit (db_jobs d)),
       d\<lparr>db_jobs := update_where hit (cancel_active_job now) (db_jobs d)\<rparr>))"

definition CancelActiveJobsByRunAttempt :: "timestamp \<Rightarrow> run_id \<Rightarrow> int \<Rightarrow> db \<Rightarrow> nat \<times> db" where
  "CancelActiveJobsByRunAttempt now runID attempt d =
     (let hit = (\<lambda>j. job_RunID j = runID \<and> job_Attempt j = attempt \<and> is_active_job j) in
      (length (filter hit (db_jobs d)),
       d\<lparr>db_jobs := update_where hit (cancel_active_job now) (db_jobs d)\<rparr>))"

definition claimable :: "db \<Rightarrow> node \<Rightarrow> job \<Rightarrow> bool" where
  "claimable d n j \<longleftrightarrow>
     \<not> node_Drained n \<and> node_ID n \<noteq> [] \<and> job_Status j = JobStatusQueued \<and>
     (job_NodeID j = None \<or> job_NodeID j = Some (node_ID n)) \<and>
     (case find_by run_ID (job_RunID j) (db_runs d) of
        None \<Rightarrow> False
      | Some r \<Rightarrow> run_Status r = RunStatusRunning \<and>
          (case find_by wave_ID (run_WaveID r) (db_waves d) of
             None \<Rightarrow> False
           | Some w \<Rightarrow> wave_Status w = WaveStatusStarted)) \<and>
     \<not> (\<exists>owner \<in> set (db_jobs d). job_RunID owner = job_RunID j \<and> job_Attempt owner = job_Attempt j \<and>
          job_NodeID owner \<noteq> None \<and> job_NodeID owner \<noteq> Some (node_ID n))"

definition start_job :: "timestamp \<Rightarrow> node_id \<Rightarrow> job \<Rightarrow> job" where
  "start_job now n j = j\<lparr>job_Status := JobStatusRunning, job_NodeID := Some n, job_StartedAt := Some now\<rparr>"

definition ClaimJob_query :: "timestamp \<Rightarrow> (job_id \<Rightarrow> bool) \<Rightarrow> node_id \<Rightarrow> db \<Rightarrow> store_error + job \<times> db" where
  "ClaimJob_query now locked nodeID d =
     (case find_by node_ID nodeID (db_nodes d) of
        None \<Rightarrow> Inl ErrNoRows
      | Some n \<Rightarrow>
          (case sort_key (\<lambda>j. (job_RunID j, job_Attempt j, job_ID j))
                  (filter (\<lambda>j. claimable d n j \<and> \<not> locked (job_ID j)) (db_jobs d)) of
             [] \<Rightarrow> Inl ErrNoRows
           | j # _ \<Rightarrow> Inr (start_job now nodeID j,
               d\<lparr>db_jobs := update_where (\<lambda>k. job_ID k = job_ID j) (start_job now nodeID) (db_jobs d)\<rparr>)))"

definition get_row :: "('r \<Rightarrow> 'k) \<Rightarrow> 'k \<Rightarrow> 'r list \<Rightarrow> store_error + 'r" where
  "get_row key k t = (case find_by key k t of None \<Rightarrow> Inl ErrNoRows | Some r \<Rightarrow> Inr r)"

definition GetJob :: "job_id \<Rightarrow> db \<Rightarrow> store_error + job" where
  "GetJob i d = get_row job_ID i (db_jobs d)"

definition ListJobsByRun :: "run_id \<Rightarrow> db \<Rightarrow> job list" where
  "ListJobsByRun runID d =
     sort_key (\<lambda>j. (job_Attempt j, job_ID j)) (filter (\<lambda>j. job_RunID j = runID) (db_jobs d))"

definition ListJobsByRunAttempt :: "run_id \<Rightarrow> int \<Rightarrow> db \<Rightarrow> job list" where
  "ListJobsByRunAttempt runID attempt d =
     sort_key job_ID (filter (\<lambda>j. job_RunID j = runID \<and> job_Attempt j = attempt) (db_jobs d))"

text \<open>A JSONB column declared \<^verbatim>\<open>NOT NULL\<close>: no bytes are \<^verbatim>\<open>NULL\<close>, malformed bytes do not parse.\<close>

fun jsonb_required :: "string \<Rightarrow> raw_json \<Rightarrow> store_error + json" where
  "jsonb_required col RawEmpty = Inl (ErrNotNull col)"
| "jsonb_required col RawInvalid = Inl ErrInvalidJSON"
| "jsonb_required col (RawJson v) = Inr v"

fun validateJSONB :: "raw_json \<Rightarrow> store_error + unit" where
  "validateJSONB RawInvalid = Inl ErrInvalidJSON"
| "validateJSONB _ = Inr ()"

definition shortSHA :: "string \<Rightarrow> string" where
  "shortSHA sha = (if sha = [] then [] else take 8 sha)"

record CreateJobParams =
  cj_ID :: job_id
  cj_RunID :: run_id
  cj_RepoID :: repo_id
  cj_RepoBaseRef :: string
  cj_Attempt :: int
  cj_Status :: job_status
  cj_JobType :: job_type
  cj_JobImage :: string
  cj_NextID :: "job_id option"
  cj_Name :: string
  cj_Meta :: raw_json
  cj_RepoShaIn :: string

definition new_job :: "CreateJobParams \<Rightarrow> json \<Rightarrow> job" where
  "new_job arg meta = \<lparr>
     job_ID = cj_ID arg, job_RunID = cj_RunID arg, job_RepoID = cj_RepoID arg,
     job_RepoBaseRef = cj_RepoBaseRef arg, job_Attempt = cj_Attempt arg, job_Status = cj_Status arg,
     job_JobType = cj_JobType arg, job_JobImage = cj_JobImage arg, job_NextID = cj_NextID arg,
     job_Name = cj_Name arg, job_NodeID = None, job_ExitCode = None, job_StartedAt = None,
     job_FinishedAt = None, job_DurationMs = 0, job_RepoShaIn = cj_RepoShaIn arg, job_RepoShaOut = [],
     job_RepoShaIn8 = shortSHA (cj_RepoShaIn arg), job_RepoShaOut8 = [], job_Meta = meta\<rparr>"

definition CreateJob_query :: "CreateJobParams \<Rightarrow> db \<Rightarrow> store_error + job \<times> db" where
  "CreateJob_query arg d =
     res_bind (jsonb_required ''jobs.meta'' (cj_Meta arg)) (\<lambda>meta.
       if find_by job_ID (cj_ID arg) (db_jobs d) \<noteq> None then Inl (ErrUniqueViolation ''jobs_pkey'')
       else if find_by run_ID (cj_RunID arg) (db_runs d) = None then Inl (ErrForeignKey ''jobs.run_id'')
       else if find_by repo_ID (cj_RepoID arg) (db_repos d) = None then Inl (ErrForeignKey ''jobs.repo_id'')
       else if (case cj_NextID arg of None \<Rightarrow> False | Some n \<Rightarrow> find_by job_ID n (db_jobs d) = None \<and> n \<noteq> cj_ID arg)
         then Inl (ErrForeignKey ''jobs.next_id'')
       else Inr (new_job arg meta, d\<lparr>db_jobs := db_jobs d @ [new_job arg meta]\<rparr>))"

definition CreateJob :: "CreateJobParams \<Rightarrow> db \<Rightarrow> store_error + job \<times> db" where
  "CreateJob arg d = res_bind (validateJSONB (cj_Meta arg)) (\<lambda>_. CreateJob_query arg d)"

text \<open>\<^verbatim>\<open>nodes.last_heartbeat < cutoff\<close> of the joined node; a missing node gives \<^verbatim>\<open>NULL\<close>.\<close>

definition stale_running :: "timestamp \<Rightarrow> db \<Rightarrow> job \<Rightarrow> bool" where
  "stale_running cutoff d j \<longleftrightarrow>
     job_Status j = JobStatusRunning \<and>
     (case job_NodeID j of
        None \<Rightarrow> True
      | Some i \<Rightarrow> (case find_by node_ID i (db_nodes d) of
            None \<Rightarrow> True
          | Some n \<Rightarrow> (case node_LastHeartbeat n of None \<Rightarrow> True | Some t \<Rightarrow> t < cutoff)))"

definition ListStaleRunningJobs :: "timestamp \<Rightarrow> db \<Rightarrow> (run_id \<times> int \<times> nat) list" where
  "ListStaleRunningJobs cutoff d =
     (let hits = map (\<lambda>j. (job_RunID j, job_Attempt j)) (filter (stale_running cutoff d) (db_jobs d))
      in map (\<lambda>(r, a). (r, a, count_list hits (r, a))) (sort (remdups hits)))"

definition PromoteJobByIDIfUnblocked :: "(job_id \<Rightarrow> bool) \<Rightarrow> job_id \<Rightarrow> db \<Rightarrow> store_error + job \<times> db" where
  "PromoteJobByIDIfUnblocked locked i d =
     (case find_by job_ID i (db_jobs d) of
        None \<Rightarrow> Inl ErrNoRows
      | Some j \<Rightarrow>
          if job_Status j = JobStatusCreated \<and> \<not> locked i \<and>
             \<not> (\<exists>p \<in> set (db_jobs d). job_NextID p = Some i \<and> job_Status p \<noteq> JobStatusSuccess)
          then Inr (j\<lparr>job_Status := JobStatusQueued\<rparr>,
            d\<lparr>db_jobs := update_where (\<lambda>k. job_ID k = i) (job_Status_update (\<lambda>_. JobStatusQueued)) (db_jobs d)\<rparr>)
          else Inl ErrNoRows)"

text \<open>
  \<^verbatim>\<open>(stats->>'resume_count')::int\<close>: absent or \<^verbatim>\<open>null\<close> is \<^verbatim>\<open>NULL\<close>; a number is cast with a range check;
  any other value fails the cast.
\<close>

definition sql_resume_count :: "json \<Rightarrow> store_error + int" where
  "sql_resume_count stats =
     (case json_field ''resume_count'' stats of
        None \<Rightarrow> Inr 0
      | Some JNull \<Rightarrow> Inr 0
      | Some (JInt n) \<Rightarrow> if - (2 ^ 31) \<le> n \<and> n < 2 ^ 31 then Inr n else Inl ErrIntegerRange
      | Some _ \<Rightarrow> Inl ErrInvalidCast)"

definition unclaim_job :: "bool \<Rightarrow> job \<Rightarrow> job" where
  "unclaim_job keep_node j = j\<lparr>job_Status := JobStatusQueued,
     job_NodeID := (if keep_node then job_NodeID j else None), job_StartedAt := None\<rparr>"

definition UnclaimJob_query :: "job_id \<Rightarrow> node_id \<Rightarrow> db \<Rightarrow> store_error + db" where
  "UnclaimJob_query i nodeID d =
     (case find_by job_ID i (db_jobs d) of
        None \<Rightarrow> Inr d
      | Some j \<Rightarrow>
          if nodeID \<noteq> [] \<and> find_by node_ID nodeID (db_nodes d) \<noteq> None \<and>
             job_NodeID j = Some nodeID \<and> job_Status j = JobStatusRunning
          then res_bind (case find_by run_ID (job_RunID j) (db_runs d) of
                    None \<Rightarrow> Inr 0
                  | Some r \<Rightarrow> sql_resume_count (run_Stats r)) (\<lambda>n.
                 Inr (d\<lparr>db_jobs := update_where (\<lambda>k. job_ID k = i) (unclaim_job (n > 0)) (db_jobs d)\<rparr>))
          else Inr d)"

definition completion_duration :: "timestamp \<Rightarrow> job \<Rightarrow> int" where
  "completion_duration now j = (case job_StartedAt j of None \<Rightarrow> 0 | Some s \<Rightarrow> pg_interval_ms (now - s))"

definition complete_job :: "timestamp \<Rightarrow> job_status \<Rightarrow> int option \<Rightarrow> string \<Rightarrow> json option \<Rightarrow> job \<Rightarrow> job" where
  "complete_job now status exitCode repoShaOut meta j = j\<lparr>
     job_Status := status,
     job_ExitCode := exitCode,
     job_RepoShaOut := (if repoShaOut = [] then job_RepoShaOut j else repoShaOut),
     job_RepoShaOut8 := (if repoShaOut = [] then job_RepoShaOut8 j else take 8 repoShaOut),
     job_FinishedAt := Some now,
     job_DurationMs := completion_duration now j,
     job_Meta := (case meta of None \<Rightarrow> job_Meta j | Some m \<Rightarrow> m)\<rparr>"

definition receive_sha :: "string \<Rightarrow> job \<Rightarrow> job" where
  "receive_sha sha j = j\<lparr>
     job_RepoShaIn := (if sha = [] then job_RepoShaIn j else sha),
     job_RepoShaIn8 := (if sha = [] then job_RepoShaIn8 j else take 8 sha)\<rparr>"

text \<open>
  The two completion statements differ in \<^verbatim>\<open>meta\<close> only. The row of the successor receives the
  output SHA of the completed row in the same statement.
\<close>

definition complete_rows ::
  "timestamp \<Rightarrow> job_status \<Rightarrow> int option \<Rightarrow> string \<Rightarrow> json option \<Rightarrow> job_id \<Rightarrow> db \<Rightarrow> store_error + db" where
  "complete_rows now status exitCode repoShaOut meta i d =
     (case find_by job_ID i (db_jobs d) of
        None \<Rightarrow> Inr d
      | Some j \<Rightarrow>
          let j' = complete_job now status exitCode repoShaOut meta j in
          if job_DurationMs j' < 0 then Inl (ErrCheck ''jobs_duration_ms_check'')
          else Inr (d\<lparr>db_jobs :=
            update_where (\<lambda>k. Some (job_ID k) = job_NextID j') (receive_sha (job_RepoShaOut j'))
              (update_where (\<lambda>k. job_ID k = i) (complete_job now status exitCode repoShaOut meta) (db_jobs d))\<rparr>))"

definition UpdateJobCompletion ::
  "timestamp \<Rightarrow> job_status \<Rightarrow> int option \<Rightarrow> string \<Rightarrow> job_id \<Rightarrow> db \<Rightarrow> store_error + db" where
  "UpdateJobCompletion now status exitCode repoShaOut i d =
     complete_rows now status exitCode repoShaOut None i d"

definition UpdateJobCompletionWithMeta ::
  "timestamp \<Rightarrow> job_status \<Rightarrow> int option \<Rightarrow> string \<Rightarrow> raw_json \<Rightarrow> job_id \<Rightarrow> db \<Rightarrow> store_error + db" where
  "UpdateJobCompletionWithMeta now status exitCode repoShaOut meta i d =
     res_bind (validateJSONB meta) (\<lambda>_.
     res_bind (jsonb_required ''jobs.meta'' meta) (\<lambda>m.
       complete_rows now status exitCode repoShaOut (Some m) i d))"

definition set_job_status ::
  "timestamp \<Rightarrow> job_status \<Rightarrow> timestamp option \<Rightarrow> timestamp option \<Rightarrow> int \<Rightarrow> job \<Rightarrow> job" where
  "set_job_status now status startedAt finishedAt durationMs j = j\<lparr>
     job_Status := status,
     job_StartedAt := (if status = JobStatusRunning
       then (case job_StartedAt j of None \<Rightarrow> Some now | Some s \<Rightarrow> Some s) else startedAt),
     job_FinishedAt := finishedAt,
     job_DurationMs := durationMs\<rparr>"

definition UpdateJobStatus ::
  "timestamp \<Rightarrow> job_id \<Rightarrow> job_status \<Rightarrow> timestamp option \<Rightarrow> timestamp option \<Rightarrow> int \<Rightarrow> db \<Rightarrow> store_error + db" where
  "UpdateJobStatus now i status startedAt finishedAt durationMs d =
     (if find_by job_ID i (db_jobs d) \<noteq> None \<and> durationMs < 0 then Inl (ErrCheck ''jobs_duration_ms_check'')
      else Inr (d\<lparr>db_jobs := update_where (\<lambda>k. job_ID k = i)
             (set_job_status now status startedAt finishedAt durationMs) (db_jobs d)\<rparr>))"

definition UpsertJobMetric :: "job_metric \<Rightarrow> db \<Rightarrow> store_error + db" where
  "UpsertJobMetric m d =
     (if jm_CpuConsumedNs m < 0 \<or> jm_DiskConsumedBytes m < 0 \<or> jm_MemConsumedBytes m < 0
        then Inl (ErrCheck ''job_metrics'')
      else if find_by node_ID (jm_NodeID m) (db_nodes d) = None then Inl (ErrForeignKey ''job_metrics.node_id'')
      else if find_by job_ID (jm_JobID m) (db_jobs d) = None then Inl (ErrForeignKey ''job_metrics.job_id'')
      else if find_by jm_JobID (jm_JobID m) (db_job_metrics d) = None
        then Inr (d\<lparr>db_job_metrics := db_job_metrics d @ [m]\<rparr>)
      else Inr (d\<lparr>db_job_metrics := update_where (\<lambda>k. jm_JobID k = jm_JobID m) (\<lambda>_. m) (db_job_metrics d)\<rparr>))"

section \<open>Run queries\<close>

definition GetRun :: "run_id \<Rightarrow> db \<Rightarrow> store_error + run" where
  "GetRun i d = get_row run_ID i (db_runs d)"

definition ListRunsByWave :: "wave_id \<Rightarrow> db \<Rightarrow> run list" where
  "ListRunsByWave w d =
     sort_key (\<lambda>r. (run_CreatedAt r, run_ID r)) (filter (\<lambda>r. run_WaveID r = w) (db_runs d))"

definition is_active_run :: "run \<Rightarrow> bool" where
  "is_active_run r \<longleftrightarrow> run_Status r \<in> {RunStatusQueued, RunStatusRunning}"

definition set_run_status :: "timestamp \<Rightarrow> run_status \<Rightarrow> run \<Rightarrow> run" where
  "set_run_status now status r = r\<lparr>
     run_Status := status,
     run_StartedAt := (if status = RunStatusRunning \<and> run_StartedAt r = None then Some now else run_StartedAt r),
     run_FinishedAt := (if status \<in> {RunStatusSuccess, RunStatusFail, RunStatusCancelled}
       then Some (coalesce (run_FinishedAt r) now) else run_FinishedAt r)\<rparr>"

definition UpdateRunStatus :: "timestamp \<Rightarrow> run_id \<Rightarrow> run_status \<Rightarrow> db \<Rightarrow> db" where
  "UpdateRunStatus now i status d =
     d\<lparr>db_runs := update_where (\<lambda>r. run_ID r = i) (set_run_status now status) (db_runs d)\<rparr>"

definition UpdateRunError :: "run_id \<Rightarrow> string option \<Rightarrow> db \<Rightarrow> db" where
  "UpdateRunError i lastError d =
     d\<lparr>db_runs := update_where (\<lambda>r. run_ID r = i) (run_LastError_update (\<lambda>_. lastError)) (db_runs d)\<rparr>"

definition CancelActiveRunsByWave :: "timestamp \<Rightarrow> wave_id \<Rightarrow> db \<Rightarrow> nat \<times> db" where
  "CancelActiveRunsByWave now w d =
     (let hit = (\<lambda>r. run_WaveID r = w \<and> is_active_run r) in
      (length (filter hit (db_runs d)),
       d\<lparr>db_runs := update_where hit (\<lambda>r. r\<lparr>run_Status := RunStatusCancelled,
           run_FinishedAt := Some (coalesce (run_FinishedAt r) now)\<rparr>) (db_runs d)\<rparr>))"

text \<open>The rows are listed in the order of the enumeration; SQL fixes none.\<close>

definition CountRunsByWaveStatus :: "wave_id \<Rightarrow> db \<Rightarrow> store_error + CountRunsByWaveStatusRow list" where
  "CountRunsByWaveStatus w d =
     (let ss = map run_Status (filter (\<lambda>r. run_WaveID r = w) (db_runs d));
          groups = filter (\<lambda>s. s \<in> set ss) run_statuses
      in if \<exists>s \<in> set groups. int (count_list ss s) \<ge> 2 ^ 31 then Inl ErrIntegerRange
         else Inr (map (\<lambda>s. \<lparr>row_Status = s, row_Count = word_of_nat (count_list ss s)\<rparr>) groups))"

definition HasRunningJobForRunNode :: "run_id \<Rightarrow> node_id \<Rightarrow> db \<Rightarrow> bool" where
  "HasRunningJobForRunNode r n d \<longleftrightarrow>
     (\<exists>j \<in> set (db_jobs d). job_RunID j = r \<and> job_NodeID j = Some n \<and> job_Status j = JobStatusRunning)"

section \<open>Wave queries\<close>

record CreateWaveParams =
  cw_ID :: wave_id
  cw_MigID :: string
  cw_SpecID :: string
  cw_CreatedBy :: "string option"

definition new_wave :: "timestamp \<Rightarrow> CreateWaveParams \<Rightarrow> wave" where
  "new_wave now arg = \<lparr>wave_ID = cw_ID arg, wave_MigID = cw_MigID arg, wave_SpecID = cw_SpecID arg,
     wave_CreatedBy = cw_CreatedBy arg, wave_Status = WaveStatusStarted, wave_CreatedAt = now,
     wave_StartedAt = Some now, wave_FinishedAt = None, wave_Stats = JObj []\<rparr>"

definition CreateWave :: "timestamp \<Rightarrow> CreateWaveParams \<Rightarrow> db \<Rightarrow> store_error + wave \<times> db" where
  "CreateWave now arg d =
     (if find_by wave_ID (cw_ID arg) (db_waves d) \<noteq> None then Inl (ErrUniqueViolation ''waves_pkey'')
      else if cw_MigID arg \<notin> set (db_migs d) then Inl (ErrForeignKey ''waves.mig_id'')
      else if cw_SpecID arg \<notin> set (db_specs d) then Inl (ErrForeignKey ''waves.spec_id'')
      else Inr (new_wave now arg, d\<lparr>db_waves := db_waves d @ [new_wave now arg]\<rparr>))"

definition GetWave :: "wave_id \<Rightarrow> db \<Rightarrow> store_error + wave" where
  "GetWave i d = get_row wave_ID i (db_waves d)"

definition set_wave_status :: "timestamp \<Rightarrow> wave_status \<Rightarrow> wave \<Rightarrow> wave" where
  "set_wave_status now status w = w\<lparr>
     wave_Status := status,
     wave_FinishedAt := (if status \<in> {WaveStatusCancelled, WaveStatusFinished}
       then Some (coalesce (wave_FinishedAt w) now) else None)\<rparr>"

definition UpdateWaveStatus :: "timestamp \<Rightarrow> wave_id \<Rightarrow> wave_status \<Rightarrow> db \<Rightarrow> db" where
  "UpdateWaveStatus now i status d =
     d\<lparr>db_waves := update_where (\<lambda>w. wave_ID w = i) (set_wave_status now status) (db_waves d)\<rparr>"

end
