(* ===== verification/Store_Tx.thy ===== *)
theory Store_Tx
  imports Store_Model
begin

text \<open>
  The transactions of \<^verbatim>\<open>internal/store/store.go\<close>, \<^verbatim>\<open>run_repo_guard.go\<close> and \<^verbatim>\<open>resume_run.go\<close>: wave
  creation, cancellation, restart, in-place resume, claim, unclaim and the completion fence.

  A transaction commits its whole effect or none: \<open>Inl\<close> is a rollback. Row locks only order
  transactions and change no row. Generated job ids are the argument \<open>newJobID\<close>; that they are
  fresh is not assumed, a clash is the primary key violation of \<^verbatim>\<open>INSERT\<close>.
\<close>

section \<open>Plans\<close>

record JobPlan =
  plan_Name :: string
  plan_JobType :: job_type
  plan_JobImage :: string
  plan_Meta :: raw_json

record RunPlan =
  rp_ID :: run_id
  rp_RepoID :: repo_id
  rp_RepoBaseRef :: string
  rp_SourceCommitSha :: string
  rp_RepoSha0 :: string
  rp_Stats :: raw_json
  rp_Jobs :: "JobPlan list"

record RestartRunParams =
  rr_FromFailed :: bool
  rr_ExpectedResumeCount :: int
  rr_RunID :: run_id
  rr_ExpectedAttempt :: int
  rr_Stats :: raw_json
  rr_Jobs :: "JobPlan list"

section \<open>Creating runs\<close>

definition planned_job :: "(nat \<Rightarrow> job_id) \<Rightarrow> run \<Rightarrow> JobPlan list \<Rightarrow> nat \<Rightarrow> CreateJobParams" where
  "planned_job newJobID r jobs i = \<lparr>
     cj_ID = newJobID i, cj_RunID = run_ID r, cj_RepoID = run_RepoID r,
     cj_RepoBaseRef = run_RepoBaseRef r, cj_Attempt = run_Attempt r,
     cj_Status = (if i = 0 then JobStatusQueued else JobStatusCreated),
     cj_JobType = plan_JobType (jobs ! i), cj_JobImage = plan_JobImage (jobs ! i),
     cj_NextID = (if i + 1 < length jobs then Some (newJobID (i + 1)) else None),
     cj_Name = plan_Name (jobs ! i), cj_Meta = plan_Meta (jobs ! i),
     cj_RepoShaIn = (if i = 0 then run_RepoSha0 r else [])\<rparr>"

text \<open>The jobs are inserted tail first, because \<^verbatim>\<open>next_id\<close> references a row of the same table.\<close>

definition createPlannedJobs :: "(nat \<Rightarrow> job_id) \<Rightarrow> run \<Rightarrow> JobPlan list \<Rightarrow> db \<Rightarrow> store_error + job list \<times> db" where
  "createPlannedJobs newJobID r jobs d =
     (if jobs = [] then Inl ErrJobsRequired
      else res_bind (res_iter (\<lambda>p _. validateJSONB (plan_Meta p)) jobs ()) (\<lambda>_.
        res_iter (\<lambda>i (materialized, d).
            res_bind (CreateJob_query (planned_job newJobID r jobs i) d) (\<lambda>(created, d').
              Inr (created # materialized, d')))
          (rev [0..<length jobs]) ([], d)))"

definition new_run :: "timestamp \<Rightarrow> CreateWaveParams \<Rightarrow> RunPlan \<Rightarrow> json \<Rightarrow> run" where
  "new_run now wv arg stats = \<lparr>
     run_ID = rp_ID arg, run_WaveID = cw_ID wv, run_MigID = cw_MigID wv, run_SpecID = cw_SpecID wv,
     run_RepoID = rp_RepoID arg, run_RepoBaseRef = rp_RepoBaseRef arg,
     run_SourceCommitSha = rp_SourceCommitSha arg, run_RepoSha0 = rp_RepoSha0 arg,
     run_CreatedBy = cw_CreatedBy wv, run_Status = RunStatusRunning, run_Attempt = 1,
     run_LastError = None, run_CreatedAt = now, run_StartedAt = Some now, run_FinishedAt = None,
     run_Stats = stats\<rparr>"

text \<open>\<^verbatim>\<open>COALESCE(stats, '{}')\<close>.\<close>

fun jsonb_or_empty :: "raw_json \<Rightarrow> store_error + json" where
  "jsonb_or_empty RawEmpty = Inr (JObj [])"
| "jsonb_or_empty RawInvalid = Inl ErrInvalidJSON"
| "jsonb_or_empty (RawJson v) = Inr v"

definition insertRun :: "timestamp \<Rightarrow> CreateWaveParams \<Rightarrow> RunPlan \<Rightarrow> db \<Rightarrow> store_error + run \<times> db" where
  "insertRun now wv arg d =
     res_bind (validateJSONB (rp_Stats arg)) (\<lambda>_.
     res_bind (jsonb_or_empty (rp_Stats arg)) (\<lambda>stats.
       if find_by run_ID (rp_ID arg) (db_runs d) \<noteq> None then Inl (ErrUniqueViolation ''runs_pkey'')
       else if find_by wave_ID (cw_ID wv) (db_waves d) = None then Inl (ErrForeignKey ''runs.wave_id'')
       else if cw_MigID wv \<notin> set (db_migs d) then Inl (ErrForeignKey ''runs.mig_id'')
       else if cw_SpecID wv \<notin> set (db_specs d) then Inl (ErrForeignKey ''runs.spec_id'')
       else if find_by repo_ID (rp_RepoID arg) (db_repos d) = None then Inl (ErrForeignKey ''runs.repo_id'')
       else if (cw_MigID wv, rp_RepoID arg) \<notin> set (db_mig_repos d)
         then Inl (ErrForeignKey ''runs_mig_repo_membership_fkey'')
       else Inr (new_run now wv arg stats, d\<lparr>db_runs := db_runs d @ [new_run now wv arg stats]\<rparr>)))"

definition requireRepoWithoutActiveRun :: "repo_id \<Rightarrow> db \<Rightarrow> store_error + unit" where
  "requireRepoWithoutActiveRun repoID d =
     (case find_by repo_ID repoID (db_repos d) of
        None \<Rightarrow> Inr ()
      | Some rp \<Rightarrow>
          (case sort_key (\<lambda>r. (run_CreatedAt r, run_ID r))
                  (filter (\<lambda>r. run_RepoID r = repoID \<and> is_active_run r) (db_runs d)) of
             [] \<Rightarrow> Inr ()
           | r # _ \<Rightarrow> Inl (ActiveRepoRunError repoID (repo_Url rp) (run_ID r))))"

text \<open>\<open>newJobID k\<close> generates the job ids of the \<open>k\<close>-th run plan.\<close>

definition materializeRun ::
  "timestamp \<Rightarrow> (nat \<Rightarrow> nat \<Rightarrow> job_id) \<Rightarrow> CreateWaveParams \<Rightarrow> nat \<times> RunPlan \<Rightarrow>
   (run \<times> job list) list \<times> db \<Rightarrow> store_error + (run \<times> job list) list \<times> db" where
  "materializeRun now newJobID wv = (\<lambda>(k, plan) (materialized, d).
     res_bind (requireRepoWithoutActiveRun (rp_RepoID plan) d) (\<lambda>_.
     res_bind (insertRun now wv plan d) (\<lambda>(r, d1).
     res_bind (createPlannedJobs (newJobID k) r (rp_Jobs plan) d1) (\<lambda>(jobs, d2).
       Inr (materialized @ [(r, jobs)], d2)))))"

definition CreateWaveWithRuns ::
  "timestamp \<Rightarrow> (nat \<Rightarrow> nat \<Rightarrow> job_id) \<Rightarrow> CreateWaveParams \<Rightarrow> RunPlan list \<Rightarrow> db \<Rightarrow>
   store_error + (wave \<times> (run \<times> job list) list) \<times> db" where
  "CreateWaveWithRuns now newJobID wv plans d =
     (if plans = [] then Inl ErrRunsRequired
      else res_bind (CreateWave now wv d) (\<lambda>(w, d1).
        res_bind (res_iter (materializeRun now newJobID wv) (enumerate 0 plans) ([], d1)) (\<lambda>(ms, d2).
          Inr ((w, ms), d2))))"

section \<open>Cancelling\<close>

definition CancelRun :: "timestamp \<Rightarrow> run_id \<Rightarrow> db \<Rightarrow> store_error + db" where
  "CancelRun now runID d =
     res_bind (GetRun runID d) (\<lambda>r.
       let d1 = (if run_Status r \<noteq> RunStatusSuccess \<and> run_Status r \<noteq> RunStatusFail \<and> run_Status r \<noteq> RunStatusCancelled
                 then UpdateRunStatus now runID RunStatusCancelled d else d)
       in Inr (snd (CancelActiveJobsByRun now runID d1)))"

definition CancelWave :: "timestamp \<Rightarrow> wave_id \<Rightarrow> db \<Rightarrow> store_error + db" where
  "CancelWave now waveID d =
     res_bind (GetWave waveID d) (\<lambda>w.
       let d1 = (if wave_Status w \<noteq> WaveStatusFinished \<and> wave_Status w \<noteq> WaveStatusCancelled
                 then UpdateWaveStatus now waveID WaveStatusCancelled d else d);
           d2 = snd (CancelActiveRunsByWave now waveID d1)
       in Inr (fold (\<lambda>r d. snd (CancelActiveJobsByRun now (run_ID r) d)) (ListRunsByWave waveID d2) d2))"

section \<open>Resuming a failed chain in place\<close>

definition chain_owner :: "node_id \<Rightarrow> job \<Rightarrow> node_id option" where
  "chain_owner owner job =
     (case job_NodeID job of
        None \<Rightarrow> Some owner
      | Some n \<Rightarrow> if owner \<noteq> [] \<and> owner \<noteq> n then None else Some n)"

fun scanChain :: "job list \<Rightarrow> node_id \<Rightarrow> job list option \<Rightarrow> store_error + job list option" where
  "scanChain [] owner failed = Inr failed"
| "scanChain (job # rest) owner failed =
     (case chain_owner owner job of
        None \<Rightarrow> Inl ErrRunResumeInvalid
      | Some owner' \<Rightarrow>
          (case failed of
             None \<Rightarrow>
               if job_Status job = JobStatusSuccess then scanChain rest owner' None
               else if (job_Status job \<noteq> JobStatusFail \<and> job_Status job \<noteq> JobStatusError) \<or>
                    job_NodeID job = None \<or> job_NodeID job = Some [] \<or>
                    \<not> IsCanonicalFullCommitSHA (job_RepoShaIn job)
                 then Inl ErrRunResumeInvalid
               else scanChain rest owner' (Some (job # rest))
           | Some suffix \<Rightarrow>
               if job_Status job \<noteq> JobStatusCancelled \<or> job_StartedAt job \<noteq> None \<or> job_NodeID job \<noteq> None
                 then Inl ErrRunResumeInvalid
               else scanChain rest owner' (Some suffix)))"

definition failedJobSuffix :: "job list \<Rightarrow> store_error + job list" where
  "failedJobSuffix jobs =
     (let chain = Order job_ID job_NextID jobs in
      if chain = [] \<or> length chain \<noteq> length jobs then Inl ErrRunResumeInvalid
      else if \<not> is_chain job_ID job_NextID chain then Inl ErrRunResumeInvalid
      else res_bind (scanChain chain [] None) (\<lambda>failed.
        case failed of None \<Rightarrow> Inl ErrRunResumeInvalid | Some suffix \<Rightarrow> Inr suffix))"

definition reset_job :: "bool \<Rightarrow> json \<Rightarrow> job \<Rightarrow> job" where
  "reset_job isFirst meta j = j\<lparr>
     job_Status := (if isFirst then JobStatusQueued else JobStatusCreated),
     job_ExitCode := None, job_StartedAt := None, job_FinishedAt := None, job_DurationMs := 0,
     job_RepoShaOut := [], job_RepoShaOut8 := [], job_Meta := meta,
     job_RepoShaIn := (if isFirst then job_RepoShaIn j else []),
     job_RepoShaIn8 := (if isFirst then job_RepoShaIn8 j else [])\<rparr>"

definition resumeJob :: "JobPlan list \<Rightarrow> nat \<times> job \<Rightarrow> db \<Rightarrow> store_error + db" where
  "resumeJob plans = (\<lambda>(i, job) d.
     case map_of (rev (map (\<lambda>p. (plan_Name p, p)) plans)) (job_Name job) of
       None \<Rightarrow> Inl ErrRunResumeInvalid
     | Some plan \<Rightarrow>
         if plan_JobType plan \<noteq> job_JobType job then Inl ErrRunResumeInvalid
         else res_bind (jsonb_required ''jobs.meta'' (plan_Meta plan)) (\<lambda>meta.
           Inr (d\<lparr>
             db_jobs := update_where (\<lambda>k. job_ID k = job_ID job) (reset_job (i = 0) meta) (db_jobs d),
             db_logs := filter (\<lambda>l. log_JobID l \<noteq> Some (job_ID job)) (db_logs d),
             db_sboms := filter (\<lambda>b. sbom_JobID b \<noteq> job_ID job) (db_sboms d),
             db_job_metrics := filter (\<lambda>m. jm_JobID m \<noteq> job_ID job) (db_job_metrics d)\<rparr>)))"

text \<open>\<open>nowText\<close> is the JSON text of \<^verbatim>\<open>now()\<close> in \<^verbatim>\<open>jsonb_build_object\<close>.\<close>

definition resume_run :: "string \<Rightarrow> int \<Rightarrow> json \<Rightarrow> run \<Rightarrow> run" where
  "resume_run nowText resumeCount stats r = r\<lparr>
     run_Status := RunStatusRunning, run_FinishedAt := None, run_LastError := None,
     run_Stats := json_concat (json_concat (run_Stats r) stats)
       (JObj [(''resume_count'', JInt resumeCount), (''last_resumed_at'', JStr nowText)])\<rparr>"

definition resumeFailedJobs :: "string \<Rightarrow> run \<Rightarrow> RestartRunParams \<Rightarrow> db \<Rightarrow> store_error + db" where
  "resumeFailedJobs nowText r arg d =
     (if (run_Status r \<noteq> RunStatusFail \<and> run_Status r \<noteq> RunStatusCancelled) \<or>
         ResumeCount (run_Stats r) \<noteq> rr_ExpectedResumeCount arg
      then Inl ErrRunResumeInvalid
      else res_bind (failedJobSuffix (ListJobsByRunAttempt (run_ID r) (run_Attempt r) d)) (\<lambda>suffix.
        res_bind (res_iter (resumeJob (rr_Jobs arg)) (enumerate 0 suffix) d) (\<lambda>d1.
        res_bind (jsonb_or_empty (rr_Stats arg)) (\<lambda>stats.
          if rr_ExpectedResumeCount arg + 1 \<ge> 2 ^ 31 \<or> rr_ExpectedResumeCount arg + 1 < - (2 ^ 31)
          then Inl ErrIntegerRange
          else Inr (d1\<lparr>db_runs := update_where (\<lambda>k. run_ID k = run_ID r)
            (resume_run nowText (rr_ExpectedResumeCount arg + 1) stats) (db_runs d1)\<rparr>)))))"

section \<open>Restarting\<close>

definition increment_attempt :: "timestamp \<Rightarrow> json \<Rightarrow> run \<Rightarrow> run" where
  "increment_attempt now stats r = r\<lparr>run_Attempt := run_Attempt r + 1, run_Status := RunStatusRunning,
     run_LastError := None, run_StartedAt := Some now, run_FinishedAt := None, run_Stats := stats\<rparr>"

definition incrementRunAttempt :: "timestamp \<Rightarrow> run_id \<Rightarrow> raw_json \<Rightarrow> db \<Rightarrow> store_error + db" where
  "incrementRunAttempt now runID stats d =
     res_bind (jsonb_or_empty stats) (\<lambda>v.
       if \<exists>r \<in> set (db_runs d). run_ID r = runID \<and> run_Attempt r + 1 \<ge> 2 ^ 31 then Inl ErrIntegerRange
       else Inr (d\<lparr>db_runs := update_where (\<lambda>r. run_ID r = runID) (increment_attempt now v) (db_runs d)\<rparr>))"

definition RestartRun ::
  "timestamp \<Rightarrow> string \<Rightarrow> (nat \<Rightarrow> job_id) \<Rightarrow> RestartRunParams \<Rightarrow> db \<Rightarrow> store_error + run \<times> db" where
  "RestartRun now nowText newJobID arg d =
     res_bind (validateJSONB (rr_Stats arg)) (\<lambda>_.
     res_bind (GetRun (rr_RunID arg) d) (\<lambda>r.
       if run_Attempt r \<noteq> rr_ExpectedAttempt arg \<or>
          (run_Status r \<noteq> RunStatusSuccess \<and> run_Status r \<noteq> RunStatusFail \<and> run_Status r \<noteq> RunStatusCancelled)
       then Inl ErrRunRestartActive
       else res_bind (GetWave (run_WaveID r) d) (\<lambda>w.
         if wave_Status w = WaveStatusCancelled then Inl ErrRunRestartWaveCancelled
         else res_bind (requireRepoWithoutActiveRun (run_RepoID r) d) (\<lambda>_.
           res_bind (if rr_FromFailed arg then resumeFailedJobs nowText r arg d
                     else incrementRunAttempt now (rr_RunID arg) (rr_Stats arg)
                       (snd (CancelActiveJobsByRunAttempt now (rr_RunID arg) (run_Attempt r) d))) (\<lambda>d1.
           let d2 = (if wave_Status w = WaveStatusFinished
                     then UpdateWaveStatus now (wave_ID w) WaveStatusStarted d1 else d1)
           in res_bind (GetRun (rr_RunID arg) d2) (\<lambda>updated.
             if rr_FromFailed arg then Inr (updated, d2)
             else res_bind (createPlannedJobs newJobID updated (rr_Jobs arg) d2) (\<lambda>(_, d3).
               Inr (updated, d3))))))))"

section \<open>Claiming and the completion fence\<close>

definition ClaimJob :: "timestamp \<Rightarrow> (job_id \<Rightarrow> bool) \<Rightarrow> node_id \<Rightarrow> db \<Rightarrow> store_error + job \<times> db" where
  "ClaimJob now locked nodeID d =
     (if IsEmpty nodeID then Inl ErrEmptyNodeID else ClaimJob_query now locked nodeID d)"

definition UnclaimJob :: "job_id \<Rightarrow> node_id \<Rightarrow> db \<Rightarrow> store_error + db" where
  "UnclaimJob jobID nodeID d =
     (if IsEmpty jobID then Inl ErrUnclaimJobID
      else if IsEmpty nodeID then Inl ErrUnclaimNodeID
      else UnclaimJob_query jobID nodeID d)"

text \<open>
  \<^verbatim>\<open>WithJobExecution\<close> runs the callback only for the current execution of the job's run. The
  argument \<open>lift\<close> is how the store's own errors appear among the callback's errors.
\<close>

definition WithJobExecution ::
  "(store_error \<Rightarrow> 'e) \<Rightarrow> job_id \<Rightarrow> int \<Rightarrow> (job \<Rightarrow> db \<Rightarrow> 'e + 'a \<times> db) \<Rightarrow> db \<Rightarrow> 'e + 'a \<times> db" where
  "WithJobExecution lift jobID resumeCount complete d =
     (case GetJob jobID d of
        Inl e \<Rightarrow> Inl (lift e)
      | Inr job \<Rightarrow>
          (case GetRun (job_RunID job) d of
             Inl e \<Rightarrow> Inl (lift e)
           | Inr r \<Rightarrow>
               if ResumeCount (run_Stats r) \<noteq> resumeCount \<or> job_Attempt job \<noteq> run_Attempt r
               then Inl (lift ErrJobExecutionStale)
               else complete job d))"

end
