(* ===== verification/Chain_Invariant.thy ===== *)
theory Chain_Invariant
  imports Store_Tx
begin

text \<open>
  What every job chain of a run attempt satisfies, and that the row updates of the store keep it.
  A chain is the list of the jobs of one attempt in chain order. Its statuses have the shape

    \<^item> a prefix of succeeded jobs, then
    \<^item> nothing, or one queued or running job followed by created jobs only, or one failed, errored
      or cancelled job followed by cancelled jobs only.

  So at most one job of an attempt can run, and only after all its predecessors succeeded. The
  chain also carries the commit: a job behind a succeeded job starts from the commit that job
  reported. All jobs of a chain that have a node have the same node.
\<close>

section \<open>Status shape\<close>

fun chain_shape :: "job_status list \<Rightarrow> bool" where
  "chain_shape [] \<longleftrightarrow> True"
| "chain_shape (JobStatusSuccess # ss) \<longleftrightarrow> chain_shape ss"
| "chain_shape (JobStatusQueued # ss) \<longleftrightarrow> (\<forall>t \<in> set ss. t = JobStatusCreated)"
| "chain_shape (JobStatusRunning # ss) \<longleftrightarrow> (\<forall>t \<in> set ss. t = JobStatusCreated)"
| "chain_shape (JobStatusCreated # ss) \<longleftrightarrow> False"
| "chain_shape (JobStatusFail # ss) \<longleftrightarrow> (\<forall>t \<in> set ss. t = JobStatusCancelled)"
| "chain_shape (JobStatusError # ss) \<longleftrightarrow> (\<forall>t \<in> set ss. t = JobStatusCancelled)"
| "chain_shape (JobStatusCancelled # ss) \<longleftrightarrow> (\<forall>t \<in> set ss. t = JobStatusCancelled)"

definition active_status :: "job_status \<Rightarrow> bool" where
  "active_status s \<longleftrightarrow> s \<in> {JobStatusCreated, JobStatusQueued, JobStatusRunning}"

definition ready_status :: "job_status \<Rightarrow> bool" where
  "ready_status s \<longleftrightarrow> s \<in> {JobStatusQueued, JobStatusRunning}"

lemmas status_sets = active_status_def ready_status_def is_active_job_def

lemma active_statusE:
  assumes "\<not> active_status s"
  obtains "s = JobStatusSuccess" | "s = JobStatusFail" | "s = JobStatusError" | "s = JobStatusCancelled"
  using assms by (cases s) (auto simp: active_status_def)

lemma is_active_job_status: "is_active_job j \<longleftrightarrow> active_status (job_Status j)"
  by (simp add: status_sets)

lemma chain_shape_prefix:
  "\<forall>s \<in> set pre. s = JobStatusSuccess \<Longrightarrow> chain_shape (pre @ ss) \<longleftrightarrow> chain_shape ss"
  by (induction pre) auto

lemma chain_shape_ready:
  "chain_shape (pre @ s # post) \<Longrightarrow> ready_status s \<Longrightarrow>
   (\<forall>t \<in> set pre. t = JobStatusSuccess) \<and> (\<forall>t \<in> set post. t = JobStatusCreated)"
proof (induction pre)
  case Nil
  then show ?case by (cases s) (auto simp: status_sets)
next
  case (Cons t pre)
  then show ?case by (cases t) (auto simp: status_sets)
qed

lemma chain_shape_ready_iff:
  "ready_status s \<Longrightarrow> chain_shape (pre @ s # post) \<longleftrightarrow>
   (\<forall>t \<in> set pre. t = JobStatusSuccess) \<and> (\<forall>t \<in> set post. t = JobStatusCreated)"
  using chain_shape_ready chain_shape_prefix [of pre "s # post"] by (cases s) (auto simp: status_sets)

text \<open>Some job is active exactly when one is queued or running.\<close>

lemma chain_shape_has_ready:
  "chain_shape ss \<Longrightarrow> s \<in> set ss \<Longrightarrow> active_status s \<Longrightarrow> \<exists>t \<in> set ss. ready_status t"
proof (induction ss)
  case (Cons t ss)
  then show ?case by (cases t) (auto simp: status_sets)
qed simp

text \<open>A chain with no active job: everything after the failure point is cancelled.\<close>

lemma chain_shape_cancelled: "\<forall>t \<in> set ss. t = JobStatusCancelled \<Longrightarrow> chain_shape ss"
  by (cases ss) auto

lemma chain_shape_done:
  assumes "\<forall>t \<in> set pre. t = JobStatusSuccess" "\<not> active_status s" "\<forall>t \<in> set post. t = JobStatusCancelled"
  shows "chain_shape (pre @ s # post)"
  using assms(2) by (rule active_statusE) (use assms in \<open>simp_all add: chain_shape_prefix chain_shape_cancelled\<close>)

text \<open>Cancelling every active job keeps the shape.\<close>

definition cancel_status :: "job_status \<Rightarrow> job_status" where
  "cancel_status s = (if active_status s then JobStatusCancelled else s)"

lemma chain_shape_cancel: "chain_shape ss \<Longrightarrow> chain_shape (map cancel_status ss)"
proof (induction ss)
  case (Cons s ss)
  then show ?case by (cases s) (auto simp: cancel_status_def status_sets)
qed simp

section \<open>Commit links\<close>

fun sha_links :: "job list \<Rightarrow> bool" where
  "sha_links (x # y # xs) \<longleftrightarrow>
     (job_Status x = JobStatusSuccess \<longrightarrow>
        IsCanonicalFullCommitSHA (job_RepoShaOut x) \<and> job_RepoShaIn y = job_RepoShaOut x) \<and>
     sha_links (y # xs)"
| "sha_links _ \<longleftrightarrow> True"

lemma sha_links_append: "sha_links (pre @ x # post) \<longleftrightarrow> sha_links (pre @ [x]) \<and> sha_links (x # post)"
proof (induction pre)
  case (Cons y pre)
  then show ?case by (cases pre) auto
qed simp

lemma sha_links_last: "job_RepoShaIn x' = job_RepoShaIn x \<Longrightarrow> sha_links (pre @ [x']) \<longleftrightarrow> sha_links (pre @ [x])"
proof (induction pre)
  case (Cons y pre)
  then show ?case by (cases pre) auto
qed simp

lemma sha_links_unsuccessful:
  "(\<And>k. k \<in> set xs \<Longrightarrow> job_Status k \<noteq> JobStatusSuccess) \<Longrightarrow> sha_links xs"
  by (induction xs rule: sha_links.induct) auto

lemma sha_links_map:
  assumes "\<And>k. k \<in> set c \<Longrightarrow> job_RepoShaIn (f k) = job_RepoShaIn k \<and> job_RepoShaOut (f k) = job_RepoShaOut k \<and>
      (job_Status (f k) = JobStatusSuccess \<longrightarrow> job_Status k = JobStatusSuccess)"
    and "sha_links c"
  shows "sha_links (map f c)"
  using assms by (induction c rule: sha_links.induct) auto

section \<open>The chain invariant\<close>

definition job_ok :: "job \<Rightarrow> bool" where
  "job_ok j \<longleftrightarrow>
     (job_Status j = JobStatusCreated \<longrightarrow> job_NodeID j = None) \<and>
     (job_Status j \<in> {JobStatusCreated, JobStatusQueued} \<longrightarrow> job_StartedAt j = None) \<and>
     (job_Status j = JobStatusRunning \<longrightarrow> job_StartedAt j \<noteq> None \<and> job_NodeID j \<noteq> None) \<and>
     job_NodeID j \<noteq> Some [] \<and> job_DurationMs j \<ge> 0"

definition one_node :: "job set \<Rightarrow> bool" where
  "one_node J \<longleftrightarrow> (\<forall>n m. Some n \<in> job_NodeID ` J \<longrightarrow> Some m \<in> job_NodeID ` J \<longrightarrow> n = m)"

definition chain_ok :: "string \<Rightarrow> job list \<Rightarrow> bool" where
  "chain_ok sha0 c \<longleftrightarrow>
     is_chain job_ID job_NextID c \<and> distinct (map job_ID c) \<and> chain_shape (map job_Status c) \<and>
     sha_links c \<and> (c \<noteq> [] \<longrightarrow> job_RepoShaIn (hd c) = sha0) \<and> one_node (set c) \<and> (\<forall>j \<in> set c. job_ok j)"

text \<open>An update that leaves the identity of a job alone.\<close>

definition keeps_key :: "(job \<Rightarrow> job) \<Rightarrow> bool" where
  "keeps_key f \<longleftrightarrow> (\<forall>j. job_ID (f j) = job_ID j \<and> job_NextID (f j) = job_NextID j \<and>
     job_RunID (f j) = job_RunID j \<and> job_Attempt (f j) = job_Attempt j \<and> job_RepoID (f j) = job_RepoID j)"

lemma keeps_keyD:
  assumes "keeps_key f"
  shows "job_ID (f j) = job_ID j" "job_NextID (f j) = job_NextID j" "job_RunID (f j) = job_RunID j"
    "job_Attempt (f j) = job_Attempt j" "job_RepoID (f j) = job_RepoID j"
  using assms by (auto simp: keeps_key_def)

lemma keeps_key_if [intro]: "keeps_key f \<Longrightarrow> keeps_key g \<Longrightarrow> keeps_key (\<lambda>j. if P j then f j else g j)"
  by (simp add: keeps_key_def)

lemma keeps_key_comp [intro]: "keeps_key f \<Longrightarrow> keeps_key g \<Longrightarrow> keeps_key (\<lambda>j. f (g j))"
  by (simp add: keeps_key_def)

lemma keeps_key_rows [simp, intro]:
  "keeps_key (\<lambda>j. j)" "keeps_key (cancel_active_job now)" "keeps_key (start_job now n)"
  "keeps_key (unclaim_job b)" "keeps_key (complete_job now st ec sha m)" "keeps_key (receive_sha sha)"
  "keeps_key (set_job_status now st sa fa dm)" "keeps_key (reset_job b meta)"
  "keeps_key (job_Status_update (\<lambda>_. st))"
  by (simp_all add: keeps_key_def cancel_active_job_def start_job_def unclaim_job_def complete_job_def
      receive_sha_def set_job_status_def reset_job_def)

lemma is_chain_cong:
  "map idOf c = map idOf c' \<Longrightarrow> map nextOf c = map nextOf c' \<Longrightarrow>
   is_chain idOf nextOf c \<longleftrightarrow> is_chain idOf nextOf c'"
proof (induction idOf nextOf c arbitrary: c' rule: is_chain.induct)
  case (3 idOf nextOf x y xs)
  then obtain x' y' xs' where "c' = x' # y' # xs'" by (metis map_eq_Cons_conv)
  with "3.prems" "3.IH" [of "y' # xs'"] show ?case by simp
qed auto

lemma chain_ok_cong:
  assumes "chain_ok sha0 c" "map job_ID c' = map job_ID c" "map job_NextID c' = map job_NextID c"
    and "chain_shape (map job_Status c')" "sha_links c'" "one_node (set c')"
    and "c' \<noteq> [] \<Longrightarrow> job_RepoShaIn (hd c') = job_RepoShaIn (hd c)"
    and "\<And>j. j \<in> set c' \<Longrightarrow> job_ok j"
  shows "chain_ok sha0 c'"
proof -
  have "is_chain job_ID job_NextID c' \<longleftrightarrow> is_chain job_ID job_NextID c"
    using assms(2,3) by (rule is_chain_cong)
  moreover have "c' = [] \<longleftrightarrow> c = []" using assms(2) by (metis map_is_Nil_conv)
  ultimately show ?thesis using assms unfolding chain_ok_def by auto
qed

lemma one_node_subset: "one_node J \<Longrightarrow> job_NodeID ` K \<subseteq> insert None (job_NodeID ` J) \<Longrightarrow> one_node K"
  unfolding one_node_def by blast

lemma one_node_const: "job_NodeID ` K \<subseteq> {None, Some n} \<Longrightarrow> one_node K"
  unfolding one_node_def by blast

lemma one_node_cong: "map job_NodeID c' = map job_NodeID c \<Longrightarrow> one_node (set c) \<Longrightarrow> one_node (set c')"
  unfolding one_node_def by (metis list.set_map)

lemma chain_ok_one_node: "chain_ok sha0 c \<Longrightarrow> one_node (set c)"
  by (simp add: chain_ok_def)

lemma chain_ok_mapI:
  assumes "chain_ok sha0 c" "keeps_key f"
    and "chain_shape (map (\<lambda>j. job_Status (f j)) c)" "sha_links (map f c)" "one_node (f ` set c)"
    and "c \<noteq> [] \<Longrightarrow> job_RepoShaIn (f (hd c)) = job_RepoShaIn (hd c)"
    and "\<And>j. j \<in> set c \<Longrightarrow> job_ok (f j)"
  shows "chain_ok sha0 (map f c)"
  by (rule chain_ok_cong [OF assms(1)]) (use assms(3-) in \<open>auto simp: keeps_keyD [OF assms(2)] comp_def hd_map\<close>)

section \<open>Updates of one row\<close>

definition at_id :: "job_id \<Rightarrow> (job \<Rightarrow> job) \<Rightarrow> job \<Rightarrow> job" where
  "at_id i f k = (if job_ID k = i then f k else k)"

lemma update_where_at_id: "update_where (\<lambda>k. job_ID k = i) f t = map (at_id i f) t"
  by (simp add: update_where_def at_id_def)

lemma keeps_key_at_id [intro]: "keeps_key f \<Longrightarrow> keeps_key (at_id i f)"
  by (simp add: keeps_key_def at_id_def)

lemma map_at_id:
  assumes "distinct (map job_ID (pre @ j # post))"
  shows "map (at_id (job_ID j) f) (pre @ j # post) = pre @ f j # post"
proof -
  have "map (at_id (job_ID j) f) xs = xs" if "job_ID j \<notin> job_ID ` set xs" for xs
    using that by (intro map_idI) (auto simp: at_id_def image_iff)
  with assms show ?thesis by (auto simp: at_id_def)
qed

lemma chain_ok_distinct: "chain_ok sha0 c \<Longrightarrow> distinct (map job_ID c)"
  by (simp add: chain_ok_def)

lemma chain_ok_ready:
  assumes "chain_ok sha0 (pre @ j # post)" "ready_status (job_Status j)"
  shows "\<forall>k \<in> set pre. job_Status k = JobStatusSuccess" "\<forall>k \<in> set post. job_Status k = JobStatusCreated"
proof -
  have "chain_shape (map job_Status pre @ job_Status j # map job_Status post)"
    using assms(1) by (simp add: chain_ok_def)
  from chain_shape_ready [OF this assms(2)]
  show "\<forall>k \<in> set pre. job_Status k = JobStatusSuccess" "\<forall>k \<in> set post. job_Status k = JobStatusCreated"
    by simp_all
qed

text \<open>An update of the ready job that leaves it ready, as claim and unclaim do.\<close>

lemma chain_ok_ready_step:
  assumes ok: "chain_ok sha0 (pre @ j # post)" and st: "ready_status (job_Status j)" "ready_status (job_Status j')"
    and same: "job_ID j' = job_ID j" "job_NextID j' = job_NextID j" "job_RepoShaIn j' = job_RepoShaIn j"
    and node: "one_node (set (pre @ j' # post))" and j': "job_ok j'"
  shows "chain_ok sha0 (pre @ j' # post)"
proof (rule chain_ok_cong [OF ok])
  note parts = chain_ok_ready [OF ok st(1)]
  show "chain_shape (map job_Status (pre @ j' # post))"
    using parts st(2) by (simp add: chain_shape_ready_iff)
  have "sha_links (pre @ [j])" using ok sha_links_append unfolding chain_ok_def by blast
  then have "sha_links (pre @ [j'])" by (simp add: sha_links_last [OF same(3)])
  moreover have "sha_links (j' # post)" using parts(2) st(2)
    by (intro sha_links_unsuccessful) (auto simp: status_sets)
  ultimately show "sha_links (pre @ j' # post)" using sha_links_append by blast
  show "job_RepoShaIn (hd (pre @ j' # post)) = job_RepoShaIn (hd (pre @ j # post))"
    using same(3) by (cases pre) simp_all
  show "job_ok k" if "k \<in> set (pre @ j' # post)" for k
    using that ok j' by (auto simp: chain_ok_def)
qed (use same node in simp_all)

lemma chain_ok_claim:
  assumes ok: "chain_ok sha0 (pre @ j # post)" and "job_Status j = JobStatusQueued" "n \<noteq> []"
    and owner: "\<forall>k \<in> set (pre @ j # post). job_NodeID k = None \<or> job_NodeID k = Some n"
  shows "chain_ok sha0 (pre @ start_job now n j # post)"
proof (rule chain_ok_ready_step [OF ok])
  show "one_node (set (pre @ start_job now n j # post))"
  proof (rule one_node_const [of _ n], rule image_subsetI)
    fix k assume "k \<in> set (pre @ start_job now n j # post)"
    then show "job_NodeID k \<in> {None, Some n}" using owner by (cases "k = start_job now n j") (auto simp: start_job_def)
  qed
  show "job_ok (start_job now n j)"
    using ok assms(3) by (auto simp: chain_ok_def job_ok_def start_job_def)
qed (use assms(2) in \<open>auto simp: status_sets start_job_def\<close>)

lemma chain_ok_unclaim:
  assumes ok: "chain_ok sha0 (pre @ j # post)" and "job_Status j = JobStatusRunning"
  shows "chain_ok sha0 (pre @ unclaim_job b j # post)"
proof (rule chain_ok_ready_step [OF ok])
  show "one_node (set (pre @ unclaim_job b j # post))"
    by (rule one_node_subset [of "set (pre @ j # post)"]) (use ok in \<open>auto simp: chain_ok_def unclaim_job_def\<close>)
  show "job_ok (unclaim_job b j)"
    using ok by (auto simp: chain_ok_def job_ok_def unclaim_job_def)
qed (use assms(2) in \<open>auto simp: status_sets unclaim_job_def\<close>)

section \<open>Cancelling a chain\<close>

definition cancel_if_active :: "timestamp \<Rightarrow> job \<Rightarrow> job" where
  "cancel_if_active now j = (if is_active_job j then cancel_active_job now j else j)"

lemma pg_interval_ms_nonneg: "us \<ge> 0 \<Longrightarrow> pg_interval_ms us \<ge> 0"
  by (simp add: pg_interval_ms_def)

lemma keeps_key_cancel_if_active [simp, intro]: "keeps_key (cancel_if_active now)"
  by (simp add: keeps_key_def cancel_if_active_def cancel_active_job_def)

lemma cancel_if_active_fields [simp]:
  "job_Status (cancel_if_active now j) = cancel_status (job_Status j)"
  "job_NodeID (cancel_if_active now j) = job_NodeID j"
  "job_RepoShaIn (cancel_if_active now j) = job_RepoShaIn j"
  "job_RepoShaOut (cancel_if_active now j) = job_RepoShaOut j"
  by (simp_all add: cancel_if_active_def cancel_active_job_def cancel_status_def is_active_job_status)

lemma cancel_if_active_inactive [simp]: "\<not> is_active_job (cancel_if_active now j)"
  by (simp add: is_active_job_status cancel_status_def) (simp add: active_status_def)

lemma job_ok_cancel: "job_ok j \<Longrightarrow> job_ok (cancel_if_active now j)"
  by (auto simp: job_ok_def cancel_if_active_def cancel_active_job_def pg_interval_ms_nonneg split: option.splits)

lemma chain_ok_cancel:
  assumes "chain_ok sha0 c"
  shows "chain_ok sha0 (map (cancel_if_active now) c)"
proof (rule chain_ok_mapI [OF assms])
  show "chain_shape (map (\<lambda>j. job_Status (cancel_if_active now j)) c)"
    using chain_shape_cancel [of "map job_Status c"] assms by (simp add: chain_ok_def comp_def)
  show "sha_links (map (cancel_if_active now) c)"
    using assms by (intro sha_links_map) (auto simp: chain_ok_def cancel_status_def split: if_splits)
  show "one_node (cancel_if_active now ` set c)"
    using one_node_cong [of "map (cancel_if_active now) c" c] chain_ok_one_node [OF assms] by simp
qed (use assms in \<open>auto simp: chain_ok_def intro: job_ok_cancel\<close>)

section \<open>Finishing the ready job\<close>

lemma chain_ok_fail:
  assumes ok: "chain_ok sha0 (pre @ j # post)" and st: "ready_status (job_Status j)"
    and j': "\<not> active_status (job_Status j')" "job_Status j' \<noteq> JobStatusSuccess" "job_ok j'"
      "job_ID j' = job_ID j" "job_NextID j' = job_NextID j" "job_RepoShaIn j' = job_RepoShaIn j" "job_NodeID j' = job_NodeID j"
    and post': "map job_ID post' = map job_ID post" "map job_NextID post' = map job_NextID post"
      "map job_NodeID post' = map job_NodeID post" "\<And>k. k \<in> set post' \<Longrightarrow> job_Status k = JobStatusCancelled \<and> job_ok k"
  shows "chain_ok sha0 (pre @ j' # post')"
proof (rule chain_ok_cong [OF ok])
  note parts = chain_ok_ready [OF ok st]
  show "chain_shape (map job_Status (pre @ j' # post'))"
    using parts(1) j'(1) post'(4) chain_shape_done [of "map job_Status pre" "job_Status j'" "map job_Status post'"] by simp
  have "sha_links (pre @ [j])" using ok sha_links_append unfolding chain_ok_def by blast
  then have "sha_links (pre @ [j'])" by (simp add: sha_links_last [OF j'(6)])
  moreover have "sha_links (j' # post')" using post'(4) j'(2)
    by (intro sha_links_unsuccessful) auto
  ultimately show "sha_links (pre @ j' # post')" using sha_links_append by blast
  show "one_node (set (pre @ j' # post'))"
    by (rule one_node_cong [OF _ chain_ok_one_node [OF ok]]) (simp add: j'(7) post'(3))
  show "job_RepoShaIn (hd (pre @ j' # post')) = job_RepoShaIn (hd (pre @ j # post))"
    using j'(6) by (cases pre) simp_all
  show "job_ok k" if "k \<in> set (pre @ j' # post')" for k
    using that ok j'(3) post'(4) by (auto simp: chain_ok_def)
qed (use j' post' in simp_all)

text \<open>Success of the last job, and success with promotion of the successor.\<close>

lemma chain_ok_succeed_last:
  assumes ok: "chain_ok sha0 (pre @ [j])" and st: "ready_status (job_Status j)"
    and j': "job_Status j' = JobStatusSuccess" "job_ok j'" "job_ID j' = job_ID j" "job_NextID j' = job_NextID j"
      "job_RepoShaIn j' = job_RepoShaIn j" "job_NodeID j' = job_NodeID j"
  shows "chain_ok sha0 (pre @ [j'])"
proof (rule chain_ok_cong [OF ok])
  note parts = chain_ok_ready [OF ok st]
  show "chain_shape (map job_Status (pre @ [j']))"
    using parts(1) j'(1) chain_shape_prefix [of "map job_Status pre" "[JobStatusSuccess]"] by simp
  show "sha_links (pre @ [j'])" using ok by (simp add: chain_ok_def sha_links_last [OF j'(5)])
  show "one_node (set (pre @ [j']))"
    by (rule one_node_cong [OF _ chain_ok_one_node [OF ok]]) (simp add: j'(6))
  show "job_RepoShaIn (hd (pre @ [j'])) = job_RepoShaIn (hd (pre @ [j]))"
    using j'(5) by (cases pre) simp_all
  show "job_ok k" if "k \<in> set (pre @ [j'])" for k using that ok j'(2) by (auto simp: chain_ok_def)
qed (use j' in simp_all)

lemma chain_ok_advance:
  assumes ok: "chain_ok sha0 (pre @ j # y # ys)" and st: "ready_status (job_Status j)"
    and j': "job_Status j' = JobStatusSuccess" "job_ok j'" "job_ID j' = job_ID j" "job_NextID j' = job_NextID j"
      "job_RepoShaIn j' = job_RepoShaIn j" "job_NodeID j' = job_NodeID j"
    and y': "job_Status y' = JobStatusQueued" "job_ok y'" "job_ID y' = job_ID y" "job_NextID y' = job_NextID y"
      "job_NodeID y' = job_NodeID y" "job_RepoShaIn y' = job_RepoShaOut j'" "IsCanonicalFullCommitSHA (job_RepoShaOut j')"
  shows "chain_ok sha0 (pre @ j' # y' # ys)"
proof (rule chain_ok_cong [OF ok])
  note parts = chain_ok_ready [OF ok st]
  show "chain_shape (map job_Status (pre @ j' # y' # ys))"
    using parts j'(1) y'(1) chain_shape_prefix [of "map job_Status pre" "JobStatusSuccess # JobStatusQueued # map job_Status ys"]
    by simp
  have "sha_links (pre @ [j])" using ok sha_links_append unfolding chain_ok_def by blast
  then have "sha_links (pre @ [j'])" by (simp add: sha_links_last [OF j'(5)])
  moreover have "sha_links (y' # ys)" using y'(1) parts(2) by (intro sha_links_unsuccessful) auto
  then have "sha_links (j' # y' # ys)" using y'(6,7) by simp
  ultimately show "sha_links (pre @ j' # y' # ys)" using sha_links_append by blast
  show "one_node (set (pre @ j' # y' # ys))"
    by (rule one_node_cong [OF _ chain_ok_one_node [OF ok]]) (simp add: j'(6) y'(5))
  show "job_RepoShaIn (hd (pre @ j' # y' # ys)) = job_RepoShaIn (hd (pre @ j # y # ys))"
    using j'(5) by (cases pre) simp_all
  show "job_ok k" if "k \<in> set (pre @ j' # y' # ys)" for k using that ok j'(2) y'(2) by (auto simp: chain_ok_def)
qed (use j' y' in simp_all)

section \<open>Resuming a failed suffix\<close>

lemma chain_ok_resume:
  assumes ok: "chain_ok sha0 (pre @ j # post)" and pre: "\<forall>k \<in> set pre. job_Status k = JobStatusSuccess"
    and post: "\<forall>k \<in> set post. job_NodeID k = None"
    and j': "job_Status j' = JobStatusQueued" "job_ok j'" "job_ID j' = job_ID j" "job_NextID j' = job_NextID j"
      "job_RepoShaIn j' = job_RepoShaIn j" "job_NodeID j' = job_NodeID j"
    and post': "map job_ID post' = map job_ID post" "map job_NextID post' = map job_NextID post"
      "map job_NodeID post' = map job_NodeID post" "\<And>k. k \<in> set post' \<Longrightarrow> job_Status k = JobStatusCreated \<and> job_ok k"
  shows "chain_ok sha0 (pre @ j' # post')"
proof (rule chain_ok_cong [OF ok])
  show "chain_shape (map job_Status (pre @ j' # post'))"
    using pre j'(1) post'(4) by (simp add: chain_shape_ready_iff status_sets)
  have "sha_links (pre @ [j])" using ok sha_links_append unfolding chain_ok_def by blast
  then have "sha_links (pre @ [j'])" by (simp add: sha_links_last [OF j'(5)])
  moreover have "sha_links (j' # post')" using post'(4) j'(1)
    by (intro sha_links_unsuccessful) auto
  ultimately show "sha_links (pre @ j' # post')" using sha_links_append by blast
  show "one_node (set (pre @ j' # post'))"
    by (rule one_node_cong [OF _ chain_ok_one_node [OF ok]]) (simp add: j'(6) post'(3))
  show "job_RepoShaIn (hd (pre @ j' # post')) = job_RepoShaIn (hd (pre @ j # post))"
    using j'(5) by (cases pre) simp_all
  show "job_ok k" if "k \<in> set (pre @ j' # post')" for k
    using that ok j'(2) post'(4) by (auto simp: chain_ok_def)
qed (use j' post' in simp_all)

end
