(* ===== verification/Store_Invariant.thy ===== *)
theory Store_Invariant
  imports Chain_Invariant
begin

text \<open>
  The invariant of the control-plane tables. \<open>run_ok\<close> relates a run to its jobs: every attempt is
  one well-formed chain, only the current attempt can have active jobs, and the run is active
  exactly when it has one. \<open>db_inv\<close> adds the keys and references, that a repository has at most
  one active run, and that an active run is in a started wave.

  \<open>db_inv_run_update\<close> is the frame rule: an operation on one run keeps \<open>db_inv\<close> when it keeps
  \<open>run_ok\<close> of that run.
\<close>

section \<open>Runs and their jobs\<close>

definition run_jobs :: "run_id \<Rightarrow> job list \<Rightarrow> job list" where
  "run_jobs i js = filter (\<lambda>j. job_RunID j = i) js"

definition attempt_of :: "int \<Rightarrow> job list \<Rightarrow> job list" where
  "attempt_of a js = filter (\<lambda>j. job_Attempt j = a) js"

definition run_ok :: "job list \<Rightarrow> run \<Rightarrow> bool" where
  "run_ok js r \<longleftrightarrow>
     1 \<le> run_Attempt r \<and> run_Status r \<noteq> RunStatusQueued \<and>
     (\<forall>a. \<exists>c. mset c = mset (attempt_of a js) \<and> chain_ok (run_RepoSha0 r) c) \<and>
     (\<forall>j \<in> set js. 1 \<le> job_Attempt j \<and> job_Attempt j \<le> run_Attempt r \<and> job_RepoID j = run_RepoID r \<and>
        (is_active_job j \<longrightarrow> job_Attempt j = run_Attempt r \<and> is_active_run r)) \<and>
     attempt_of (run_Attempt r) js \<noteq> [] \<and>
     (is_active_run r \<longrightarrow> (\<exists>j \<in> set (attempt_of (run_Attempt r) js). is_active_job j))"

lemma set_run_jobs [simp]: "j \<in> set (run_jobs i js) \<longleftrightarrow> j \<in> set js \<and> job_RunID j = i"
  by (auto simp: run_jobs_def)

lemma set_attempt_of [simp]: "j \<in> set (attempt_of a js) \<longleftrightarrow> j \<in> set js \<and> job_Attempt j = a"
  by (auto simp: attempt_of_def)

lemma run_jobs_map: "keeps_key f \<Longrightarrow> run_jobs i (map f js) = map f (run_jobs i js)"
  by (simp add: run_jobs_def filter_map comp_def keeps_keyD)

lemma attempt_of_map: "keeps_key f \<Longrightarrow> attempt_of a (map f js) = map f (attempt_of a js)"
  by (simp add: attempt_of_def filter_map comp_def keeps_keyD)

lemma run_ok_chain:
  assumes "run_ok js r"
  obtains c where "mset c = mset (attempt_of a js)" "chain_ok (run_RepoSha0 r) c"
  using assms unfolding run_ok_def by metis

lemma run_ok_update:
  assumes ok: "run_ok js r" and f: "keeps_key f"
    and r': "run_Attempt r' = run_Attempt r" "run_RepoSha0 r' = run_RepoSha0 r" "run_RepoID r' = run_RepoID r"
      "run_Status r' \<noteq> RunStatusQueued"
    and chains: "\<And>a c. mset c = mset (attempt_of a js) \<Longrightarrow> chain_ok (run_RepoSha0 r) c \<Longrightarrow> chain_ok (run_RepoSha0 r) (map f c)"
    and active: "\<And>j. j \<in> set js \<Longrightarrow> is_active_job (f j) \<Longrightarrow> job_Attempt j = run_Attempt r \<and> is_active_run r'"
    and live: "is_active_run r' \<Longrightarrow> \<exists>j \<in> set (attempt_of (run_Attempt r) js). is_active_job (f j)"
  shows "run_ok (map f js) r'"
  unfolding run_ok_def
proof (intro conjI allI ballI impI)
  note key = keeps_keyD [OF f]
  show "\<exists>c. mset c = mset (attempt_of a (map f js)) \<and> chain_ok (run_RepoSha0 r') c" for a
  proof -
    obtain c where "mset c = mset (attempt_of a js)" "chain_ok (run_RepoSha0 r) c" using ok by (rule run_ok_chain)
    with chains r'(2) have "mset (map f c) = mset (attempt_of a (map f js)) \<and> chain_ok (run_RepoSha0 r') (map f c)"
      by (simp add: attempt_of_map [OF f])
    then show ?thesis by blast
  qed
  show "\<exists>j \<in> set (attempt_of (run_Attempt r') (map f js)). is_active_job j" if "is_active_run r'"
    using live [OF that] by (auto simp: attempt_of_map [OF f] r' key)
  show "attempt_of (run_Attempt r') (map f js) \<noteq> []"
    using ok by (simp add: attempt_of_map [OF f] r' run_ok_def)
qed (use ok r' active in \<open>auto simp: run_ok_def keeps_keyD [OF f]\<close>)

text \<open>Updates that only touch the attempt \<open>a0\<close>.\<close>

lemma chains_at_attempt:
  assumes "\<And>j. j \<in> set js \<Longrightarrow> job_Attempt j \<noteq> a0 \<Longrightarrow> f j = j"
    and "\<And>c. mset c = mset (attempt_of a0 js) \<Longrightarrow> chain_ok sha0 c \<Longrightarrow> chain_ok sha0 (map f c)"
    and "mset c = mset (attempt_of a js)" "chain_ok sha0 c"
  shows "chain_ok sha0 (map f c)"
proof (cases "a = a0")
  case False
  have "f k = k" if "k \<in> set c" for k
  proof -
    have "k \<in> set (attempt_of a js)" using that assms(3) by (metis mset_eq_setD)
    then show ?thesis using assms(1) False by simp
  qed
  then have "map f c = c" by (simp add: map_idI)
  then show ?thesis using assms(4) by simp
qed (use assms in blast)

section \<open>The tables\<close>

definition keys_ok :: "db \<Rightarrow> bool" where
  "keys_ok d \<longleftrightarrow>
     distinct (map job_ID (db_jobs d)) \<and> distinct (map run_ID (db_runs d)) \<and>
     distinct (map wave_ID (db_waves d)) \<and> distinct (map node_ID (db_nodes d)) \<and>
     (\<forall>j \<in> set (db_jobs d). \<not> IsEmpty (job_ID j))"

definition refs_ok :: "db \<Rightarrow> bool" where
  "refs_ok d \<longleftrightarrow>
     (\<forall>j \<in> set (db_jobs d). job_RunID j \<in> run_ID ` set (db_runs d)) \<and>
     (\<forall>j \<in> set (db_jobs d). \<forall>n. job_NodeID j = Some n \<longrightarrow> n \<in> node_ID ` set (db_nodes d)) \<and>
     (\<forall>r \<in> set (db_runs d). run_WaveID r \<in> wave_ID ` set (db_waves d) \<and> run_RepoID r \<in> repo_ID ` set (db_repos d))"

definition active_runs_ok :: "db \<Rightarrow> bool" where
  "active_runs_ok d \<longleftrightarrow>
     (\<forall>r \<in> set (db_runs d). is_active_run r \<longrightarrow>
        (\<forall>s \<in> set (db_runs d). is_active_run s \<longrightarrow> run_RepoID s = run_RepoID r \<longrightarrow> run_ID s = run_ID r) \<and>
        (\<forall>w \<in> set (db_waves d). wave_ID w = run_WaveID r \<longrightarrow> wave_Status w = WaveStatusStarted))"

definition db_inv :: "db \<Rightarrow> bool" where
  "db_inv d \<longleftrightarrow> keys_ok d \<and> refs_ok d \<and> active_runs_ok d \<and>
     (\<forall>r \<in> set (db_runs d). run_ok (run_jobs (run_ID r) (db_jobs d)) r)"

lemma db_inv_active:
  assumes "db_inv d" "r \<in> set (db_runs d)" "is_active_run r"
  shows "s \<in> set (db_runs d) \<Longrightarrow> is_active_run s \<Longrightarrow> run_RepoID s = run_RepoID r \<Longrightarrow> run_ID s = run_ID r"
    and "w \<in> set (db_waves d) \<Longrightarrow> wave_ID w = run_WaveID r \<Longrightarrow> wave_Status w = WaveStatusStarted"
  using assms unfolding db_inv_def active_runs_ok_def by blast+

lemma db_inv_run_ok: "db_inv d \<Longrightarrow> r \<in> set (db_runs d) \<Longrightarrow> run_ok (run_jobs (run_ID r) (db_jobs d)) r"
  by (simp add: db_inv_def)

lemma db_inv_keys:
  assumes "db_inv d"
  shows "distinct (map job_ID (db_jobs d))" "distinct (map run_ID (db_runs d))"
    "distinct (map wave_ID (db_waves d))" "distinct (map node_ID (db_nodes d))"
    "j \<in> set (db_jobs d) \<Longrightarrow> \<not> IsEmpty (job_ID j)"
  using assms by (auto simp: db_inv_def keys_ok_def)

definition set_run :: "run \<Rightarrow> run list \<Rightarrow> run list" where
  "set_run r' rs = map (\<lambda>s. if run_ID s = run_ID r' then r' else s) rs"

lemma map_run_ID_set_run: "map run_ID (set_run r' rs) = map run_ID rs"
  by (simp add: set_run_def)

lemma set_run_id:
  assumes "distinct (map run_ID rs)" "r \<in> set rs"
  shows "set_run r rs = rs"
  unfolding set_run_def using assms distinct_key_eq [OF assms(1)] by (intro map_idI) auto

lemma update_where_run:
  assumes "distinct (map run_ID rs)" "r \<in> set rs" "run_ID (f r) = run_ID r"
  shows "update_where (\<lambda>s. run_ID s = run_ID r) f rs = set_run (f r) rs"
  unfolding set_run_def update_where_def
proof (rule map_cong [OF refl])
  fix s assume "s \<in> set rs"
  then have "run_ID s = run_ID r \<Longrightarrow> s = r" using assms(1,2) by (intro distinct_key_eq [of run_ID rs])
  then show "(if run_ID s = run_ID r then f s else s) = (if run_ID s = run_ID (f r) then f r else s)"
    using assms(3) by auto
qed

lemma in_set_run: "s \<in> set (set_run r' rs) \<longleftrightarrow> (s = r' \<and> run_ID r' \<in> run_ID ` set rs) \<or> (s \<in> set rs \<and> run_ID s \<noteq> run_ID r')"
  by (induction rs) (auto simp: set_run_def)

lemma db_inv_run_update:
  assumes inv: "db_inv d" and r: "r \<in> set (db_runs d)" and f: "keeps_key f"
    and frame: "\<And>j. j \<in> set (db_jobs d) \<Longrightarrow> job_RunID j \<noteq> run_ID r \<Longrightarrow> f j = j"
    and r': "run_ID r' = run_ID r" "run_WaveID r' = run_WaveID r" "run_RepoID r' = run_RepoID r"
    and ok: "run_ok (map f (run_jobs (run_ID r) (db_jobs d))) r'"
    and nodes: "\<And>j n. j \<in> set (db_jobs d) \<Longrightarrow> job_NodeID (f j) = Some n \<Longrightarrow> n \<in> node_ID ` set (db_nodes d)"
    and act: "is_active_run r' \<Longrightarrow>
      (\<forall>s \<in> set (db_runs d). is_active_run s \<longrightarrow> run_RepoID s = run_RepoID r \<longrightarrow> run_ID s = run_ID r) \<and>
      (\<forall>w \<in> set (db_waves d). wave_ID w = run_WaveID r \<longrightarrow> wave_Status w = WaveStatusStarted)"
    and d': "db_jobs d' = map f (db_jobs d)" "db_runs d' = set_run r' (db_runs d)" "db_waves d' = db_waves d"
      "db_nodes d' = db_nodes d" "db_repos d' = db_repos d"
  shows "db_inv d'"
proof -
  note key = keeps_keyD [OF f]
  have ids: "run_ID ` set (db_runs d') = run_ID ` set (db_runs d)"
    using map_run_ID_set_run d'(2) by (metis list.set_map)
  have "keys_ok d'"
    using inv unfolding db_inv_def keys_ok_def d'
    by (auto simp: map_run_ID_set_run comp_def key)
  moreover have "refs_ok d'"
    unfolding refs_ok_def
  proof (intro conjI ballI allI impI)
    fix j assume "j \<in> set (db_jobs d')"
    then obtain k where k: "k \<in> set (db_jobs d)" "j = f k" by (auto simp: d')
    then have "job_RunID k \<in> run_ID ` set (db_runs d)" using inv by (simp add: db_inv_def refs_ok_def)
    then show "job_RunID j \<in> run_ID ` set (db_runs d')" by (simp add: ids key k(2))
    show "n \<in> node_ID ` set (db_nodes d')" if "job_NodeID j = Some n" for n
      using nodes k that by (simp add: d')
  next
    fix s assume "s \<in> set (db_runs d')"
    then obtain t where "t \<in> set (db_runs d)" "run_WaveID s = run_WaveID t" "run_RepoID s = run_RepoID t"
      using r r' by (auto simp: d' in_set_run)
    then show "run_WaveID s \<in> wave_ID ` set (db_waves d')" "run_RepoID s \<in> repo_ID ` set (db_repos d')"
      using inv by (auto simp: d' db_inv_def refs_ok_def)
  qed
  moreover have "active_runs_ok d'"
    unfolding active_runs_ok_def
  proof (intro ballI impI conjI)
    fix s assume s: "s \<in> set (db_runs d')" "is_active_run s"
    note old = db_inv_active [OF inv]
    show "run_ID t = run_ID s" if t: "t \<in> set (db_runs d')" "is_active_run t" "run_RepoID t = run_RepoID s" for t
    proof (cases "s = r' \<or> t = r'")
      case True
      then have a: "is_active_run r'" using s t by auto
      consider "s = r'" "t = r'" | "s = r'" "t \<in> set (db_runs d)" | "t = r'" "s \<in> set (db_runs d)"
        using True s(1) t(1) unfolding d' in_set_run by blast
      then show ?thesis
      proof cases
        case 2
        with act [OF a] t r' show ?thesis by metis
      next
        case 3
        with act [OF a] s t r' show ?thesis by metis
      qed simp
    next
      case False
      then have "s \<in> set (db_runs d)" "t \<in> set (db_runs d)" using s t unfolding d' in_set_run by blast+
      with old(1) s t show ?thesis by blast
    qed
    show "wave_Status w = WaveStatusStarted" if w: "w \<in> set (db_waves d')" "wave_ID w = run_WaveID s" for w
    proof (cases "s = r'")
      case True
      with s act w r' show ?thesis unfolding d' by metis
    next
      case False
      then have "s \<in> set (db_runs d)" using s unfolding d' in_set_run by blast
      with old(2) s w show ?thesis unfolding d' by blast
    qed
  qed
  moreover have "run_ok (run_jobs (run_ID s) (db_jobs d')) s" if s: "s \<in> set (db_runs d')" for s
  proof (cases "run_ID s = run_ID r")
    case True
    then have "s = r'" using s r' by (auto simp: d' in_set_run)
    then show ?thesis using ok r' by (simp add: d' run_jobs_map [OF f])
  next
    case False
    then have "s \<in> set (db_runs d)" using s r' by (auto simp: d' in_set_run)
    moreover have "map f (run_jobs (run_ID s) (db_jobs d)) = run_jobs (run_ID s) (db_jobs d)"
      using False frame by (intro map_idI) auto
    ultimately show ?thesis using inv by (simp add: d' run_jobs_map [OF f] db_inv_run_ok)
  qed
  ultimately show ?thesis by (simp add: db_inv_def)
qed

text \<open>The rule for operations on many runs and waves at once that activate none of them.\<close>

lemma db_inv_update:
  assumes inv: "db_inv d" and f: "keeps_key f"
    and g: "\<And>r. run_ID (g r) = run_ID r \<and> run_WaveID (g r) = run_WaveID r \<and> run_RepoID (g r) = run_RepoID r"
    and h: "\<And>w. wave_ID (h w) = wave_ID w"
    and ok: "\<And>r. r \<in> set (db_runs d) \<Longrightarrow> run_ok (map f (run_jobs (run_ID r) (db_jobs d))) (g r)"
    and nodes: "\<And>j. job_NodeID (f j) = job_NodeID j"
    and act: "\<And>r. r \<in> set (db_runs d) \<Longrightarrow> is_active_run (g r) \<Longrightarrow> is_active_run r"
    and waves: "\<And>r w. r \<in> set (db_runs d) \<Longrightarrow> is_active_run (g r) \<Longrightarrow> w \<in> set (db_waves d) \<Longrightarrow>
      wave_ID w = run_WaveID r \<Longrightarrow> wave_Status w = WaveStatusStarted \<Longrightarrow> wave_Status (h w) = WaveStatusStarted"
    and d': "db_jobs d' = map f (db_jobs d)" "db_runs d' = map g (db_runs d)" "db_waves d' = map h (db_waves d)"
      "db_nodes d' = db_nodes d" "db_repos d' = db_repos d"
  shows "db_inv d'"
proof -
  note key = keeps_keyD [OF f]
  have "keys_ok d'"
    using inv unfolding db_inv_def keys_ok_def d' by (auto simp: comp_def key g h)
  moreover have "refs_ok d'"
    using inv unfolding db_inv_def refs_ok_def d' by (auto simp: key g h nodes image_image)
  moreover have "active_runs_ok d'"
    unfolding active_runs_ok_def
  proof (intro ballI impI conjI)
    fix s assume "s \<in> set (db_runs d')" "is_active_run s"
    then obtain r where r: "r \<in> set (db_runs d)" "s = g r" "is_active_run (g r)" by (auto simp: d')
    note old = db_inv_active [OF inv r(1) act [OF r(1,3)]]
    show "run_ID t = run_ID s" if t: "t \<in> set (db_runs d')" "is_active_run t" "run_RepoID t = run_RepoID s" for t
    proof -
      obtain u where u: "u \<in> set (db_runs d)" "t = g u" "is_active_run (g u)" using t by (auto simp: d')
      then have "run_ID u = run_ID r" using old(1) [OF u(1) act [OF u(1,3)]] t(3) r(2) g by metis
      then show ?thesis using u(2) r(2) g by metis
    qed
    show "wave_Status w = WaveStatusStarted" if w: "w \<in> set (db_waves d')" "wave_ID w = run_WaveID s" for w
    proof -
      obtain v where v: "v \<in> set (db_waves d)" "w = h v" using w by (auto simp: d')
      then have "wave_ID v = run_WaveID r" using w(2) r(2) g h by metis
      then show ?thesis using waves [OF r(1,3) v(1)] old(2) v by blast
    qed
  qed
  moreover have "run_ok (run_jobs (run_ID s) (db_jobs d')) s" if "s \<in> set (db_runs d')" for s
    using that ok by (auto simp: d' run_jobs_map [OF f] g)
  ultimately show ?thesis by (simp add: db_inv_def)
qed

section \<open>Focusing on one job\<close>

lemma chain_unique:
  assumes "chain_ok sha0 c" "chain_ok sha0' c'" "mset c = mset c'" "\<forall>j \<in> set c. \<not> IsEmpty (job_ID j)"
  shows "c = c'"
proof -
  have "set c = set c'" using assms(3) by (rule mset_eq_setD)
  then have "Order job_ID job_NextID c = c'" using assms by (intro Order_chain) (auto simp: chain_ok_def)
  moreover have "Order job_ID job_NextID c = c" using assms by (intro Order_chain) (auto simp: chain_ok_def)
  ultimately show ?thesis by simp
qed

text \<open>\<open>job_focus d j r pre post\<close>: job \<open>j\<close> belongs to run \<open>r\<close> and its chain is \<open>pre @ j # post\<close>.\<close>

definition job_focus :: "db \<Rightarrow> job \<Rightarrow> run \<Rightarrow> job list \<Rightarrow> job list \<Rightarrow> bool" where
  "job_focus d j r pre post \<longleftrightarrow>
     j \<in> set (db_jobs d) \<and> r \<in> set (db_runs d) \<and> job_RunID j = run_ID r \<and>
     mset (pre @ j # post) = mset (attempt_of (job_Attempt j) (run_jobs (run_ID r) (db_jobs d))) \<and>
     chain_ok (run_RepoSha0 r) (pre @ j # post)"

lemma current_job:
  assumes "db_inv d" "r \<in> set (db_runs d)"
  obtains j where "j \<in> set (db_jobs d)" "job_RunID j = run_ID r" "job_Attempt j = run_Attempt r"
proof -
  let ?js = "attempt_of (run_Attempt r) (run_jobs (run_ID r) (db_jobs d))"
  have "?js \<noteq> []" using db_inv_run_ok [OF assms] by (simp add: run_ok_def)
  then have "hd ?js \<in> set ?js" by (rule hd_in_set)
  then show thesis by (intro that [of "hd ?js"]) simp_all
qed

lemma db_inv_job_run:
  assumes "db_inv d" "j \<in> set (db_jobs d)"
  obtains r where "r \<in> set (db_runs d)" "run_ID r = job_RunID j"
proof -
  have "job_RunID j \<in> run_ID ` set (db_runs d)" using assms by (simp add: db_inv_def refs_ok_def)
  then show thesis using that by (metis imageE)
qed

lemma job_focusE:
  assumes inv: "db_inv d" and j: "j \<in> set (db_jobs d)"
  obtains r pre post where "job_focus d j r pre post"
proof -
  obtain r where r: "r \<in> set (db_runs d)" "run_ID r = job_RunID j" using assms by (rule db_inv_job_run)
  obtain c where c: "mset c = mset (attempt_of (job_Attempt j) (run_jobs (run_ID r) (db_jobs d)))"
      "chain_ok (run_RepoSha0 r) c"
    using db_inv_run_ok [OF inv r(1)] by (rule run_ok_chain)
  have "j \<in> set (attempt_of (job_Attempt j) (run_jobs (run_ID r) (db_jobs d)))" using j r by simp
  then have "j \<in> set c" using c(1) by (metis mset_eq_setD)
  then obtain pre post where "c = pre @ j # post" by (meson split_list)
  with c j r show thesis by (intro that [of r pre post]) (simp add: job_focus_def)
qed

lemma job_focusD:
  assumes "job_focus d j r pre post"
  shows "j \<in> set (db_jobs d)" "r \<in> set (db_runs d)" "job_RunID j = run_ID r" "chain_ok (run_RepoSha0 r) (pre @ j # post)"
    and "k \<in> set (pre @ j # post) \<longleftrightarrow> k \<in> set (db_jobs d) \<and> job_RunID k = run_ID r \<and> job_Attempt k = job_Attempt j"
proof -
  have "set (pre @ j # post) = set (attempt_of (job_Attempt j) (run_jobs (run_ID r) (db_jobs d)))"
    using assms unfolding job_focus_def by (metis mset_eq_setD)
  then show "k \<in> set (pre @ j # post) \<longleftrightarrow> k \<in> set (db_jobs d) \<and> job_RunID k = run_ID r \<and> job_Attempt k = job_Attempt j"
    by (simp only: set_attempt_of set_run_jobs) blast
qed (use assms in \<open>auto simp: job_focus_def\<close>)

text \<open>The order the code computes from the rows of the attempt is the chain.\<close>

lemma job_focus_Order:
  assumes inv: "db_inv d" and foc: "job_focus d j r pre post"
  shows "Order job_ID job_NextID (ListJobsByRunAttempt (run_ID r) (job_Attempt j) d) = pre @ j # post"
proof (rule order_chain.ord_chain)
  show "\<forall>k \<in> set (pre @ j # post). \<not> IsEmpty (job_ID k)"
    using inv job_focusD(5) [OF foc] by (auto simp: db_inv_keys(5))
  show "mset (ListJobsByRunAttempt (run_ID r) (job_Attempt j) d) = mset (pre @ j # post)"
    using foc by (simp add: job_focus_def ListJobsByRunAttempt_def attempt_of_def run_jobs_def conj_commute)
qed (use job_focusD(4) [OF foc] in \<open>auto simp: chain_ok_def\<close>)

lemma active_job_run:
  assumes inv: "db_inv d" and foc: "job_focus d j r pre post" and act: "is_active_job j"
  shows "job_Attempt j = run_Attempt r" "is_active_run r"
  using db_inv_run_ok [OF inv job_focusD(2) [OF foc]] job_focusD(1,3) [OF foc] act by (auto simp: run_ok_def)

lemma db_inv_job_update:
  assumes inv: "db_inv d" and foc: "job_focus d j r pre post" and act: "is_active_job j" and f: "keeps_key f"
    and frame: "\<And>k. k \<in> set (db_jobs d) \<Longrightarrow> k \<notin> set (pre @ j # post) \<Longrightarrow> f k = k"
    and chain: "chain_ok (run_RepoSha0 r) (map f (pre @ j # post))"
    and r': "run_ID r' = run_ID r" "run_WaveID r' = run_WaveID r" "run_RepoID r' = run_RepoID r"
      "run_Attempt r' = run_Attempt r" "run_RepoSha0 r' = run_RepoSha0 r" "run_Status r' \<noteq> RunStatusQueued"
    and live: "is_active_run r' \<longleftrightarrow> (\<exists>k \<in> set (pre @ j # post). is_active_job (f k))"
    and nodes: "\<And>k n. k \<in> set (pre @ j # post) \<Longrightarrow> job_NodeID (f k) = Some n \<Longrightarrow> n \<in> node_ID ` set (db_nodes d)"
    and d': "db_jobs d' = map f (db_jobs d)" "db_runs d' = set_run r' (db_runs d)" "db_waves d' = db_waves d"
      "db_nodes d' = db_nodes d" "db_repos d' = db_repos d"
  shows "db_inv d'"
proof (rule db_inv_run_update [OF inv job_focusD(2) [OF foc] f _ r'(1-3) _ _ _ d'])
  let ?js = "run_jobs (run_ID r) (db_jobs d)"
  note mem = job_focusD(5) [OF foc] and cur = active_job_run [OF inv foc act]
  have ok: "run_ok ?js r" using inv job_focusD(2) [OF foc] by (rule db_inv_run_ok)
  show "f k = k" if "k \<in> set (db_jobs d)" "job_RunID k \<noteq> run_ID r" for k
    using frame mem that by blast
  show "n \<in> node_ID ` set (db_nodes d)" if "k \<in> set (db_jobs d)" "job_NodeID (f k) = Some n" for k n
  proof (cases "k \<in> set (pre @ j # post)")
    case False
    then have "job_NodeID k = Some n" using frame that by simp
    then show ?thesis using inv that(1) by (auto simp: db_inv_def refs_ok_def)
  qed (use nodes that in blast)
  show "run_ok (map f ?js) r'"
  proof (rule run_ok_update [OF ok f r'(4,5,3,6)])
    fix a c assume c: "mset c = mset (attempt_of a ?js)" "chain_ok (run_RepoSha0 r) c"
    show "chain_ok (run_RepoSha0 r) (map f c)"
    proof (rule chains_at_attempt [OF _ _ c])
      show "f k = k" if "k \<in> set ?js" "job_Attempt k \<noteq> job_Attempt j" for k
        using frame mem that by (metis set_run_jobs)
      fix c' assume c': "mset c' = mset (attempt_of (job_Attempt j) ?js)" "chain_ok (run_RepoSha0 r) c'"
      have "c' = pre @ j # post"
      proof (rule chain_unique [OF c'(2) job_focusD(4) [OF foc]])
        show "mset c' = mset (pre @ j # post)" using foc c'(1) by (simp add: job_focus_def)
        then show "\<forall>k \<in> set c'. \<not> IsEmpty (job_ID k)"
          using mem inv by (metis db_inv_keys(5) mset_eq_setD)
      qed
      then show "chain_ok (run_RepoSha0 r) (map f c')" using chain by simp
    qed
  next
    fix k assume k: "k \<in> set ?js" "is_active_job (f k)"
    show "job_Attempt k = run_Attempt r \<and> is_active_run r'"
    proof (cases "k \<in> set (pre @ j # post)")
      case True
      then have "is_active_run r'" using k(2) live by blast
      moreover have "job_Attempt k = job_Attempt j" using True mem by blast
      ultimately show ?thesis using cur(1) by simp
    next
      case False
      then have "is_active_job k" using k frame by simp
      then have "job_Attempt k = run_Attempt r" using k ok by (auto simp: run_ok_def)
      then have "k \<in> set (pre @ j # post)" using k(1) cur(1) unfolding mem by simp
      with False show ?thesis by contradiction
    qed
  next
    assume "is_active_run r'"
    then obtain k where k: "k \<in> set (pre @ j # post)" "is_active_job (f k)" using live by blast
    then have "k \<in> set (attempt_of (run_Attempt r) ?js)" using cur(1) unfolding mem by simp
    with k(2) show "\<exists>k \<in> set (attempt_of (run_Attempt r) ?js). is_active_job (f k)" by blast
  qed
  show "(\<forall>s \<in> set (db_runs d). is_active_run s \<longrightarrow> run_RepoID s = run_RepoID r \<longrightarrow> run_ID s = run_ID r) \<and>
      (\<forall>w \<in> set (db_waves d). wave_ID w = run_WaveID r \<longrightarrow> wave_Status w = WaveStatusStarted)"
    using db_inv_active [OF inv job_focusD(2) [OF foc] cur(2)] by blast
qed

end
