(* ===== verification/Store_Safety.thy ===== *)
theory Store_Safety
  imports Store_Invariant
begin

text \<open>
  Every transaction of the store keeps \<open>db_inv\<close>: claim, unclaim, cancellation of runs and waves,
  wave creation, restart and in-place resume.
\<close>

section \<open>Claim and unclaim\<close>

lemma ClaimJob_Inr:
  assumes "ClaimJob now locked nodeID d = Inr (j', d')"
  obtains n j where "\<not> IsEmpty nodeID" "find_by node_ID nodeID (db_nodes d) = Some n" "node_ID n = nodeID"
    "j \<in> set (db_jobs d)" "claimable d n j" "\<not> locked (job_ID j)" "j' = start_job now nodeID j"
    "d' = d\<lparr>db_jobs := map (at_id (job_ID j) (start_job now nodeID)) (db_jobs d)\<rparr>"
    "\<And>k. k \<in> set (db_jobs d) \<Longrightarrow> claimable d n k \<Longrightarrow> \<not> locked (job_ID k) \<Longrightarrow>
       (job_RunID j, job_Attempt j, job_ID j) \<le> (job_RunID k, job_Attempt k, job_ID k)"
proof -
  let ?key = "\<lambda>j. (job_RunID j, job_Attempt j, job_ID j)"
  from assms have ne: "\<not> IsEmpty nodeID" and q: "ClaimJob_query now locked nodeID d = Inr (j', d')"
    by (auto simp: ClaimJob_def split: if_splits)
  from q obtain n where n: "find_by node_ID nodeID (db_nodes d) = Some n"
    by (auto simp: ClaimJob_query_def split: option.splits)
  let ?hits = "filter (\<lambda>j. claimable d n j \<and> \<not> locked (job_ID j)) (db_jobs d)"
  from q n obtain j rest where srt: "sort_key ?key ?hits = j # rest"
    and res: "j' = start_job now nodeID j"
      "d' = d\<lparr>db_jobs := update_where (\<lambda>k. job_ID k = job_ID j) (start_job now nodeID) (db_jobs d)\<rparr>"
    by (auto simp: ClaimJob_query_def split: list.splits)
  have hits: "set (j # rest) = set ?hits" using arg_cong [OF srt, of set] by simp
  have "sorted (map ?key (j # rest))" using sorted_sort_key [of ?key ?hits] unfolding srt .
  then have first: "?key j \<le> ?key k" if "k \<in> set (j # rest)" for k using that by auto
  have j: "j \<in> set ?hits" unfolding hits [symmetric] by simp
  show thesis
  proof (rule that [OF ne n])
    show "?key j \<le> ?key k" if "k \<in> set (db_jobs d)" "claimable d n k" "\<not> locked (job_ID k)" for k
      by (rule first) (use that in \<open>simp only: hits set_filter mem_Collect_eq simp_thms\<close>)
  qed (use find_by_SomeD [OF n] j res in \<open>simp_all add: update_where_at_id\<close>)
qed

lemma claimable_run:
  assumes "claimable d n j"
  obtains r w where "find_by run_ID (job_RunID j) (db_runs d) = Some r" "run_Status r = RunStatusRunning"
    "find_by wave_ID (run_WaveID r) (db_waves d) = Some w" "wave_Status w = WaveStatusStarted"
  using assms by (auto simp: claimable_def split: option.splits)

lemma at_id_frame:
  assumes "distinct (map job_ID js)" "j \<in> set js" "k \<in> set js" "k \<noteq> j"
  shows "at_id (job_ID j) f k = k"
  using assms distinct_key_eq [of job_ID js k j] by (auto simp: at_id_def)

lemma at_id_self [simp]: "at_id (job_ID j) f j = f j"
  by (simp add: at_id_def)

lemma job_focus_distinct: "job_focus d j r pre post \<Longrightarrow> distinct (map job_ID (pre @ j # post))"
  using job_focusD(4) chain_ok_distinct by blast

lemma ClaimJob_inv:
  assumes inv: "db_inv d" and cl: "ClaimJob now locked nodeID d = Inr (j', d')"
  shows "db_inv d'"
proof -
  obtain n j where n: "\<not> IsEmpty nodeID" "find_by node_ID nodeID (db_nodes d) = Some n" "node_ID n = nodeID"
    and j: "j \<in> set (db_jobs d)" "claimable d n j"
    and d': "d' = d\<lparr>db_jobs := map (at_id (job_ID j) (start_job now nodeID)) (db_jobs d)\<rparr>"
    using cl by (rule ClaimJob_Inr)
  obtain r pre post where foc: "job_focus d j r pre post" using inv j(1) by (rule job_focusE)
  have q: "job_Status j = JobStatusQueued" and ne: "nodeID \<noteq> []" and
    owner: "\<forall>k \<in> set (db_jobs d). job_RunID k = job_RunID j \<longrightarrow> job_Attempt k = job_Attempt j \<longrightarrow>
        job_NodeID k = None \<or> job_NodeID k = Some nodeID"
    using j(2) n(3) unfolding claimable_def by auto
  have own: "\<forall>k \<in> set (pre @ j # post). job_NodeID k = None \<or> job_NodeID k = Some nodeID"
    using owner job_focusD(3,5) [OF foc] by metis
  have act: "is_active_job j" using q by (simp add: is_active_job_def)
  have mapped: "map (at_id (job_ID j) (start_job now nodeID)) (pre @ j # post) = pre @ start_job now nodeID j # post"
    by (rule map_at_id [OF job_focus_distinct [OF foc]])
  show ?thesis
  proof (rule db_inv_job_update [OF inv foc act, where r' = r])
    show "at_id (job_ID j) (start_job now nodeID) k = k" if "k \<in> set (db_jobs d)" "k \<notin> set (pre @ j # post)" for k
      using that j(1) by (intro at_id_frame [OF db_inv_keys(1) [OF inv]]) auto
    show "chain_ok (run_RepoSha0 r) (map (at_id (job_ID j) (start_job now nodeID)) (pre @ j # post))"
      unfolding mapped using job_focusD(4) [OF foc] q ne own by (rule chain_ok_claim)
    have "is_active_job (at_id (job_ID j) (start_job now nodeID) j)" by (simp add: start_job_def is_active_job_def)
    then show "is_active_run r \<longleftrightarrow> (\<exists>k \<in> set (pre @ j # post). is_active_job (at_id (job_ID j) (start_job now nodeID) k))"
      using active_job_run [OF inv foc act] by auto
    show "m \<in> node_ID ` set (db_nodes d)"
      if "k \<in> set (pre @ j # post)" "job_NodeID (at_id (job_ID j) (start_job now nodeID) k) = Some m" for k m
    proof -
      have "job_NodeID k = None \<or> job_NodeID k = Some nodeID" using own that(1) by blast
      then have "m = nodeID" using that(2) by (auto simp: at_id_def start_job_def split: if_splits)
      then show ?thesis using find_by_SomeD [OF n(2)] by auto
    qed
    show "db_runs d' = set_run r (db_runs d)"
      using set_run_id [OF db_inv_keys(2) [OF inv] job_focusD(2) [OF foc]] by (simp add: d')
    show "run_Status r \<noteq> RunStatusQueued"
      using db_inv_run_ok [OF inv job_focusD(2) [OF foc]] by (simp add: run_ok_def)
  qed (auto simp: d')
qed

lemma UnclaimJob_Inr:
  assumes "UnclaimJob i nodeID d = Inr d'"
  obtains "d' = d"
  | j b where "find_by job_ID i (db_jobs d) = Some j" "job_NodeID j = Some nodeID" "job_Status j = JobStatusRunning"
    "d' = d\<lparr>db_jobs := map (at_id i (unclaim_job b)) (db_jobs d)\<rparr>"
  using assms by (auto simp: UnclaimJob_def UnclaimJob_query_def res_bind_Inr_iff update_where_at_id split: if_splits option.splits)

lemma UnclaimJob_inv:
  assumes inv: "db_inv d" and un: "UnclaimJob i nodeID d = Inr d'"
  shows "db_inv d'"
  using un
proof (cases rule: UnclaimJob_Inr)
  case (2 j b)
  then have i: "job_ID j = i" and j: "j \<in> set (db_jobs d)" by (auto dest: find_by_SomeD)
  obtain r pre post where foc: "job_focus d j r pre post" using inv j by (rule job_focusE)
  have act: "is_active_job j" using 2 by (simp add: is_active_job_def)
  have mapped: "map (at_id (job_ID j) (unclaim_job b)) (pre @ j # post) = pre @ unclaim_job b j # post"
    by (rule map_at_id [OF job_focus_distinct [OF foc]])
  show ?thesis
  proof (rule db_inv_job_update [OF inv foc act, where r' = r and f = "at_id (job_ID j) (unclaim_job b)"])
    show "at_id (job_ID j) (unclaim_job b) k = k" if "k \<in> set (db_jobs d)" "k \<notin> set (pre @ j # post)" for k
      using that j by (intro at_id_frame [OF db_inv_keys(1) [OF inv]]) auto
    show "chain_ok (run_RepoSha0 r) (map (at_id (job_ID j) (unclaim_job b)) (pre @ j # post))"
      unfolding mapped using job_focusD(4) [OF foc] 2(3) by (rule chain_ok_unclaim)
    have "is_active_job (at_id (job_ID j) (unclaim_job b) j)" by (simp add: unclaim_job_def is_active_job_def)
    then show "is_active_run r \<longleftrightarrow> (\<exists>k \<in> set (pre @ j # post). is_active_job (at_id (job_ID j) (unclaim_job b) k))"
      using active_job_run [OF inv foc act] by auto
    show "m \<in> node_ID ` set (db_nodes d)"
      if "k \<in> set (pre @ j # post)" "job_NodeID (at_id (job_ID j) (unclaim_job b) k) = Some m" for k m
    proof -
      have "job_NodeID k = Some m" using that by (auto simp: at_id_def unclaim_job_def split: if_splits)
      then show ?thesis using that(1) inv job_focusD(5) [OF foc] by (auto simp: db_inv_def refs_ok_def)
    qed
    show "db_runs d' = set_run r (db_runs d)"
      using set_run_id [OF db_inv_keys(2) [OF inv] job_focusD(2) [OF foc]] by (simp add: 2)
    show "run_Status r \<noteq> RunStatusQueued"
      using db_inv_run_ok [OF inv job_focusD(2) [OF foc]] by (simp add: run_ok_def)
  qed (auto simp: 2 i)
qed (use inv in simp)

section \<open>Cancellation\<close>

lemma run_ok_cancel:
  assumes ok: "run_ok js r" and r': "run_Attempt r' = run_Attempt r" "run_RepoSha0 r' = run_RepoSha0 r"
      "run_RepoID r' = run_RepoID r" "\<not> is_active_run r'"
  shows "run_ok (map (cancel_if_active now) js) r'"
  by (rule run_ok_update [OF ok]) (use r' chain_ok_cancel in \<open>auto simp: is_active_run_def\<close>)

lemma inactive_run_jobs:
  assumes "run_ok js r" "\<not> is_active_run r"
  shows "map (cancel_if_active now) js = js"
  using assms by (intro map_idI) (auto simp: run_ok_def cancel_if_active_def)

definition cancel_jobs_of :: "timestamp \<Rightarrow> run_id set \<Rightarrow> job \<Rightarrow> job" where
  "cancel_jobs_of now R j = (if job_RunID j \<in> R then cancel_if_active now j else j)"

lemma keeps_key_cancel_jobs_of [simp, intro]: "keeps_key (cancel_jobs_of now R)"
  unfolding cancel_jobs_of_def by (intro keeps_key_if) auto

lemma CancelActiveJobsByRun_map:
  "snd (CancelActiveJobsByRun now i d) = d\<lparr>db_jobs := map (cancel_jobs_of now {i}) (db_jobs d)\<rparr>"
  by (simp add: CancelActiveJobsByRun_def update_where_def cancel_jobs_of_def cancel_if_active_def)

lemma cancel_jobs_of_run_jobs:
  "map (cancel_jobs_of now R) (run_jobs i js) =
   (if i \<in> R then map (cancel_if_active now) (run_jobs i js) else run_jobs i js)"
  by (auto simp: cancel_jobs_of_def intro: map_idI)

lemma cancel_jobs_of_twice:
  "cancel_jobs_of now R (cancel_jobs_of now S j) = cancel_jobs_of now (S \<union> R) j"
proof -
  have "job_RunID (cancel_if_active now j) = job_RunID j" by (rule keeps_keyD) simp
  moreover have "cancel_if_active now (cancel_if_active now j) = cancel_if_active now j"
    by (simp add: cancel_if_active_def [of now "cancel_if_active now j"])
  ultimately show ?thesis by (simp add: cancel_jobs_of_def)
qed

lemma fold_CancelActiveJobsByRun:
  "fold (\<lambda>r d. snd (CancelActiveJobsByRun now (run_ID r) d)) rs d =
   d\<lparr>db_jobs := map (cancel_jobs_of now (run_ID ` set rs)) (db_jobs d)\<rparr>"
proof (induction rs arbitrary: d)
  case Nil
  then show ?case by (simp add: cancel_jobs_of_def)
next
  case (Cons r rs)
  then show ?case by (simp add: CancelActiveJobsByRun_map comp_def cancel_jobs_of_twice)
qed

lemma GetRun_Inr: "GetRun i d = Inr r \<Longrightarrow> r \<in> set (db_runs d) \<and> run_ID r = i"
  by (auto simp: GetRun_def get_row_def split: option.splits dest: find_by_SomeD)

lemma GetWave_Inr: "GetWave i d = Inr w \<Longrightarrow> w \<in> set (db_waves d) \<and> wave_ID w = i"
  by (auto simp: GetWave_def get_row_def split: option.splits dest: find_by_SomeD)

lemma active_run_iff: "is_active_run r \<longleftrightarrow> \<not> IsTerminalRunStatus (run_Status r)"
  by (cases "run_Status r") (auto simp: is_active_run_def)

lemma CancelRun_tables:
  assumes "CancelRun now i d = Inr d'"
  obtains r where "r \<in> set (db_runs d)" "run_ID r = i" "db_jobs d' = map (cancel_jobs_of now {i}) (db_jobs d)"
    "db_runs d' = map (\<lambda>s. if run_ID s = i \<and> is_active_run r then set_run_status now RunStatusCancelled s else s) (db_runs d)"
    "db_waves d' = db_waves d" "db_nodes d' = db_nodes d" "db_repos d' = db_repos d"
proof -
  from assms obtain r where g: "GetRun i d = Inr r" by (auto simp: CancelRun_def res_bind_Inr_iff)
  have d': "d' = snd (CancelActiveJobsByRun now i (if is_active_run r then UpdateRunStatus now i RunStatusCancelled d else d))"
    using assms g by (cases "run_Status r") (auto simp: CancelRun_def is_active_run_def Let_def)
  show thesis
    by (rule that [of r]) (use GetRun_Inr [OF g] in \<open>auto simp: d' CancelActiveJobsByRun_map UpdateRunStatus_def update_where_def\<close>)
qed

lemma CancelRun_inv:
  assumes inv: "db_inv d" and c: "CancelRun now i d = Inr d'"
  shows "db_inv d'"
proof -
  obtain r where r: "r \<in> set (db_runs d)" "run_ID r = i" and t: "db_jobs d' = map (cancel_jobs_of now {i}) (db_jobs d)"
    "db_runs d' = map (\<lambda>s. if run_ID s = i \<and> is_active_run r then set_run_status now RunStatusCancelled s else s) (db_runs d)"
    "db_waves d' = db_waves d" "db_nodes d' = db_nodes d" "db_repos d' = db_repos d"
    using c by (rule CancelRun_tables)
  define g where "g = (\<lambda>s. if run_ID s = i \<and> is_active_run r then set_run_status now RunStatusCancelled s else s)"
  have d': "db_jobs d' = map (cancel_jobs_of now {i}) (db_jobs d)" "db_runs d' = map g (db_runs d)"
      "db_waves d' = map (\<lambda>w. w) (db_waves d)" "db_nodes d' = db_nodes d" "db_repos d' = db_repos d"
    using t by (simp_all add: g_def)
  have same: "s \<in> set (db_runs d) \<Longrightarrow> run_ID s = i \<Longrightarrow> s = r" for s
    using distinct_key_eq [OF db_inv_keys(2) [OF inv], of s r] r by simp
  show ?thesis
  proof (rule db_inv_update [OF inv keeps_key_cancel_jobs_of _ _ _ _ _ _ d'])
    fix s assume s: "s \<in> set (db_runs d)"
    have ok: "run_ok (run_jobs (run_ID s) (db_jobs d)) s" using inv s by (rule db_inv_run_ok)
    show "run_ok (map (cancel_jobs_of now {i}) (run_jobs (run_ID s) (db_jobs d))) (g s)"
    proof (cases "run_ID s = i")
      case True
      then have "\<not> is_active_run (g s)"
        using same [OF s] by (auto simp: g_def set_run_status_def is_active_run_def)
      with ok True show ?thesis
        by (simp add: cancel_jobs_of_run_jobs run_ok_cancel g_def set_run_status_def)
    qed (use ok in \<open>simp add: cancel_jobs_of_run_jobs g_def\<close>)
    show "is_active_run (g s) \<Longrightarrow> is_active_run s"
      by (auto simp: g_def set_run_status_def is_active_run_def split: if_splits)
  qed (auto simp: g_def set_run_status_def cancel_jobs_of_def)
qed

lemma CancelWave_tables:
  assumes "CancelWave now i d = Inr d'"
  obtains w where "w \<in> set (db_waves d)" "wave_ID w = i"
    "db_jobs d' = map (cancel_jobs_of now {run_ID r | r. r \<in> set (db_runs d) \<and> run_WaveID r = i}) (db_jobs d)"
    "db_runs d' = map (\<lambda>r. if run_WaveID r = i \<and> is_active_run r then r\<lparr>run_Status := RunStatusCancelled,
           run_FinishedAt := Some (coalesce (run_FinishedAt r) now)\<rparr> else r) (db_runs d)"
    "db_waves d' = map (\<lambda>v. if wave_ID v = i \<and> wave_Status w = WaveStatusStarted
       then set_wave_status now WaveStatusCancelled v else v) (db_waves d)"
    "db_nodes d' = db_nodes d" "db_repos d' = db_repos d"
proof -
  from assms obtain w where g: "GetWave i d = Inr w" by (auto simp: CancelWave_def res_bind_Inr_iff)
  define d1 where "d1 = (if wave_Status w \<noteq> WaveStatusFinished \<and> wave_Status w \<noteq> WaveStatusCancelled
                 then UpdateWaveStatus now i WaveStatusCancelled d else d)"
  define d2 where "d2 = snd (CancelActiveRunsByWave now i d1)"
  have d': "d' = d2\<lparr>db_jobs := map (cancel_jobs_of now (run_ID ` set (ListRunsByWave i d2))) (db_jobs d2)\<rparr>"
    using assms g by (simp add: CancelWave_def d1_def d2_def fold_CancelActiveJobsByRun Let_def)
  define g where "g = (\<lambda>r. if run_WaveID r = i \<and> is_active_run r then r\<lparr>run_Status := RunStatusCancelled,
           run_FinishedAt := Some (coalesce (run_FinishedAt r) now)\<rparr> else r)"
  have g_keys: "run_ID (g r) = run_ID r" "run_WaveID (g r) = run_WaveID r" for r by (simp_all add: g_def)
  have runs: "db_runs d2 = map g (db_runs d)"
    by (simp add: g_def d2_def d1_def CancelActiveRunsByWave_def UpdateWaveStatus_def update_where_def Let_def)
  have ids: "run_ID ` set (ListRunsByWave i d2) = {run_ID r | r. r \<in> set (db_runs d) \<and> run_WaveID r = i}"
  proof -
    have "set (ListRunsByWave i d2) = g ` {r \<in> set (db_runs d). run_WaveID r = i}"
      by (auto simp: ListRunsByWave_def runs g_keys)
    then show ?thesis by (simp add: image_image g_keys) (simp add: setcompr_eq_image)
  qed
  show thesis
  proof (rule that [of w])
    show "db_jobs d' = map (cancel_jobs_of now {run_ID r | r. r \<in> set (db_runs d) \<and> run_WaveID r = i}) (db_jobs d)"
      by (simp add: d' ids) (simp add: d2_def d1_def CancelActiveRunsByWave_def UpdateWaveStatus_def Let_def)
    show "db_waves d' = map (\<lambda>v. if wave_ID v = i \<and> wave_Status w = WaveStatusStarted
       then set_wave_status now WaveStatusCancelled v else v) (db_waves d)"
      by (cases "wave_Status w")
        (simp_all add: d' d2_def d1_def CancelActiveRunsByWave_def UpdateWaveStatus_def update_where_def Let_def)
  qed (use GetWave_Inr [OF g] in \<open>simp_all add: d' runs g_def\<close>,
      simp_all add: d2_def d1_def CancelActiveRunsByWave_def UpdateWaveStatus_def Let_def)
qed

lemma CancelWave_inv:
  assumes inv: "db_inv d" and c: "CancelWave now i d = Inr d'"
  shows "db_inv d'"
proof -
  obtain w where w: "w \<in> set (db_waves d)" "wave_ID w = i" and
    d': "db_jobs d' = map (cancel_jobs_of now {run_ID r | r. r \<in> set (db_runs d) \<and> run_WaveID r = i}) (db_jobs d)"
    "db_runs d' = map (\<lambda>r. if run_WaveID r = i \<and> is_active_run r then r\<lparr>run_Status := RunStatusCancelled,
           run_FinishedAt := Some (coalesce (run_FinishedAt r) now)\<rparr> else r) (db_runs d)"
    "db_waves d' = map (\<lambda>v. if wave_ID v = i \<and> wave_Status w = WaveStatusStarted
       then set_wave_status now WaveStatusCancelled v else v) (db_waves d)"
    "db_nodes d' = db_nodes d" "db_repos d' = db_repos d"
    using c by (rule CancelWave_tables)
  show ?thesis
  proof (rule db_inv_update [OF inv keeps_key_cancel_jobs_of _ _ _ _ _ _ d'])
    fix s assume s: "s \<in> set (db_runs d)"
    have ok: "run_ok (run_jobs (run_ID s) (db_jobs d)) s" using inv s by (rule db_inv_run_ok)
    have mem: "run_ID s \<in> {run_ID r | r. r \<in> set (db_runs d) \<and> run_WaveID r = i} \<longleftrightarrow> run_WaveID s = i"
      using s distinct_key_eq [OF db_inv_keys(2) [OF inv]] by blast
    show "run_ok (map (cancel_jobs_of now {run_ID r | r. r \<in> set (db_runs d) \<and> run_WaveID r = i}) (run_jobs (run_ID s) (db_jobs d)))
      (if run_WaveID s = i \<and> is_active_run s then s\<lparr>run_Status := RunStatusCancelled,
           run_FinishedAt := Some (coalesce (run_FinishedAt s) now)\<rparr> else s)"
    proof (cases "run_WaveID s = i")
      case True
      then show ?thesis using ok unfolding cancel_jobs_of_run_jobs mem
        by (auto simp: is_active_run_def intro!: run_ok_cancel)
    qed (use ok in \<open>simp only: cancel_jobs_of_run_jobs mem simp_thms if_False\<close>)
  qed (auto simp: set_wave_status_def cancel_jobs_of_def is_active_run_def split: if_splits)
qed

section \<open>New job chains\<close>

fun raw_value :: "raw_json \<Rightarrow> json" where
  "raw_value (RawJson v) = v"
| "raw_value _ = JNull"

definition new_planned :: "(nat \<Rightarrow> job_id) \<Rightarrow> run \<Rightarrow> JobPlan list \<Rightarrow> nat \<Rightarrow> job" where
  "new_planned newJobID r jobs i = new_job (planned_job newJobID r jobs i) (raw_value (plan_Meta (jobs ! i)))"

lemma jsonb_required_Inr: "jsonb_required col raw = Inr v \<longleftrightarrow> raw = RawJson v"
  by (cases raw) auto

lemma CreateJob_query_Inr:
  assumes "CreateJob_query arg d = Inr (j, d')"
  shows "j = new_job arg (raw_value (cj_Meta arg))" "d' = d\<lparr>db_jobs := db_jobs d @ [j]\<rparr>"
    "cj_ID arg \<notin> job_ID ` set (db_jobs d)" "cj_RunID arg \<in> run_ID ` set (db_runs d)"
    "cj_RepoID arg \<in> repo_ID ` set (db_repos d)"
  using assms by (auto simp: CreateJob_query_def res_bind_Inr_iff jsonb_required_Inr find_by_None_iff split: if_splits)

lemma new_planned_fields [simp]:
  "job_ID (new_planned newJobID r jobs i) = newJobID i"
  "job_RunID (new_planned newJobID r jobs i) = run_ID r"
  "job_RepoID (new_planned newJobID r jobs i) = run_RepoID r"
  "job_Attempt (new_planned newJobID r jobs i) = run_Attempt r"
  "job_Status (new_planned newJobID r jobs i) = (if i = 0 then JobStatusQueued else JobStatusCreated)"
  "job_NextID (new_planned newJobID r jobs i) = (if i + 1 < length jobs then Some (newJobID (i + 1)) else None)"
  "job_NodeID (new_planned newJobID r jobs i) = None"
  "job_RepoShaIn (new_planned newJobID r jobs i) = (if i = 0 then run_RepoSha0 r else [])"
  by (simp_all add: new_planned_def new_job_def planned_job_def)

lemma job_ok_planned: "job_ok (new_planned newJobID r jobs i)"
  by (simp add: job_ok_def) (simp add: new_planned_def new_job_def)

text \<open>The loop over the tail \<open>[k..<length jobs]\<close> of the plan.\<close>

lemma createPlanned_loop:
  assumes "k \<le> length jobs"
    and "res_iter (\<lambda>i (materialized, d). res_bind (CreateJob_query (planned_job newJobID r jobs i) d) (\<lambda>(created, d').
              Inr (created # materialized, d'))) (rev [k..<length jobs]) ([], d) = Inr (js, d')"
  shows "js = map (new_planned newJobID r jobs) [k..<length jobs] \<and> d' = d\<lparr>db_jobs := db_jobs d @ rev js\<rparr> \<and>
    distinct (map job_ID js) \<and> job_ID ` set js \<inter> job_ID ` set (db_jobs d) = {}"
  using assms
proof (induction k arbitrary: js d' rule: inc_induct)
  case base
  then show ?case by simp
next
  case (step k)
  let ?f = "\<lambda>i (materialized, d). res_bind (CreateJob_query (planned_job newJobID r jobs i) d) (\<lambda>(created, d').
              Inr (created # materialized, d'))"
  have upt: "[k..<length jobs] = k # [Suc k..<length jobs]" using step.hyps by (intro upt_conv_Cons) simp
  with step.prems obtain js1 d1 j where js1: "res_iter ?f (rev [Suc k..<length jobs]) ([], d) = Inr (js1, d1)"
    and j: "CreateJob_query (planned_job newJobID r jobs k) d1 = Inr (j, d')" and js: "js = j # js1"
    by (auto simp: res_iter_append res_bind_Inr_iff split: prod.splits)
  note c = CreateJob_query_Inr [OF j] and IH = step.IH [OF js1]
  have j_eq: "j = new_planned newJobID r jobs k" using c(1) by (simp add: new_planned_def planned_job_def)
  have "newJobID k \<notin> job_ID ` set (db_jobs d1)" using c(3) by (simp add: planned_job_def)
  moreover have "set (db_jobs d1) = set (db_jobs d) \<union> set js1" using IH by simp
  ultimately have fresh: "newJobID k \<notin> job_ID ` set (db_jobs d)" "newJobID k \<notin> job_ID ` set js1"
    by (simp_all only: image_Un Un_iff de_Morgan_disj not_False_eq_True)
  show ?case
  proof (intro conjI)
    show "js = map (new_planned newJobID r jobs) [k..<length jobs]" using IH by (simp add: js j_eq upt)
    show "d' = d\<lparr>db_jobs := db_jobs d @ rev js\<rparr>" using IH c(2) by (simp add: js)
    have "distinct (map job_ID js1)" "job_ID ` set js1 \<inter> job_ID ` set (db_jobs d) = {}" using IH by blast+
    then show "distinct (map job_ID js)" "job_ID ` set js \<inter> job_ID ` set (db_jobs d) = {}"
      using fresh by (simp_all add: js j_eq)
  qed
qed

lemma createPlannedJobs_Inr:
  assumes "createPlannedJobs newJobID r jobs d = Inr (js, d')"
  shows "jobs \<noteq> []" "js = map (new_planned newJobID r jobs) [0..<length jobs]" "d' = d\<lparr>db_jobs := db_jobs d @ rev js\<rparr>"
    "distinct (map job_ID js)" "job_ID ` set js \<inter> job_ID ` set (db_jobs d) = {}"
proof -
  from assms show "jobs \<noteq> []" by (auto simp: createPlannedJobs_def)
  from assms have "res_iter (\<lambda>i (materialized, d). res_bind (CreateJob_query (planned_job newJobID r jobs i) d) (\<lambda>(created, d').
              Inr (created # materialized, d'))) (rev [0..<length jobs]) ([], d) = Inr (js, d')"
    by (auto simp: createPlannedJobs_def res_bind_Inr_iff split: if_splits)
  from createPlanned_loop [OF le0 this]
  show "js = map (new_planned newJobID r jobs) [0..<length jobs]" "d' = d\<lparr>db_jobs := db_jobs d @ rev js\<rparr>"
    "distinct (map job_ID js)" "job_ID ` set js \<inter> job_ID ` set (db_jobs d) = {}" by blast+
qed

lemma is_chain_planned:
  "k \<le> length jobs \<Longrightarrow> is_chain job_ID job_NextID (map (new_planned newJobID r jobs) [k..<length jobs])"
proof (induction k rule: inc_induct)
  case (step k)
  then show ?case by (cases "Suc k < length jobs") (simp_all add: upt_conv_Cons)
qed simp

lemma chain_ok_planned:
  assumes "distinct (map job_ID (map (new_planned newJobID r jobs) [0..<length jobs]))" "jobs \<noteq> []"
  shows "chain_ok (run_RepoSha0 r) (map (new_planned newJobID r jobs) [0..<length jobs])"
proof -
  let ?c = "map (new_planned newJobID r jobs) [0..<length jobs]"
  have c: "?c = new_planned newJobID r jobs 0 # map (new_planned newJobID r jobs) [1..<length jobs]"
    using assms(2) by (simp add: upt_conv_Cons)
  have "chain_shape (map job_Status ?c)" unfolding c by auto
  moreover have "sha_links ?c" by (rule sha_links_unsuccessful) (auto split: if_splits)
  moreover have "job_RepoShaIn (hd ?c) = run_RepoSha0 r" unfolding c by simp
  moreover have "one_node (set ?c)" by (auto simp: one_node_def)
  ultimately show ?thesis
    using assms(1) is_chain_planned [of 0 jobs newJobID r] job_ok_planned unfolding chain_ok_def by auto
qed

section \<open>Creating a wave\<close>

text \<open>What an operation needs to know about a fresh chain for run \<open>r\<close>, inserted in any order.\<close>

lemma run_ok_new_attempt:
  assumes old: "\<And>a. a \<noteq> run_Attempt r \<Longrightarrow> \<exists>c. mset c = mset (attempt_of a js) \<and> chain_ok (run_RepoSha0 r) c"
    and cur: "attempt_of (run_Attempt r) js = []"
    and jobs: "\<forall>j \<in> set js. 1 \<le> job_Attempt j \<and> job_Attempt j \<le> run_Attempt r \<and> job_RepoID j = run_RepoID r \<and> \<not> is_active_job j"
    and r: "1 \<le> run_Attempt r" "run_Status r = RunStatusRunning"
    and ok: "chain_ok (run_RepoSha0 r) c" "mset new = mset c" "c \<noteq> []"
    and new: "\<forall>j \<in> set c. job_Attempt j = run_Attempt r \<and> job_RepoID j = run_RepoID r" "\<exists>j \<in> set c. is_active_job j"
  shows "run_ok (js @ new) r"
proof -
  have set_new: "set new = set c" using ok(2) by (rule mset_eq_setD)
  have new_cur: "attempt_of (run_Attempt r) new = new"
    using new set_new by (auto simp: attempt_of_def)
  have new_old: "attempt_of a new = []" if "a \<noteq> run_Attempt r" for a
    using new set_new that by (auto simp: attempt_of_def filter_empty_conv)
  have app: "attempt_of a (js @ new) = attempt_of a js @ attempt_of a new" for a by (simp add: attempt_of_def)
  have act: "is_active_run r" using r(2) by (simp add: is_active_run_def)
  show ?thesis
    unfolding run_ok_def
  proof (intro conjI allI)
    show "\<exists>c. mset c = mset (attempt_of a (js @ new)) \<and> chain_ok (run_RepoSha0 r) c" for a
    proof (cases "a = run_Attempt r")
      case True
      then have "mset c = mset (attempt_of a (js @ new))" using ok(2) by (simp add: app cur new_cur)
      then show ?thesis using ok(1) by blast
    qed (simp add: app new_old old)
    show "attempt_of (run_Attempt r) (js @ new) \<noteq> []" using ok(3) set_new by (auto simp: app new_cur)
    show "is_active_run r \<longrightarrow> (\<exists>j \<in> set (attempt_of (run_Attempt r) (js @ new)). is_active_job j)"
      using new(2) set_new by (simp add: app cur new_cur)
    show "\<forall>j \<in> set (js @ new). 1 \<le> job_Attempt j \<and> job_Attempt j \<le> run_Attempt r \<and> job_RepoID j = run_RepoID r \<and>
        (is_active_job j \<longrightarrow> job_Attempt j = run_Attempt r \<and> is_active_run r)"
      using jobs new(1) set_new act r(1) by auto
  qed (use r in auto)
qed

lemma run_ok_planned:
  assumes cp: "createPlannedJobs newJobID r jobs d = Inr (new, d')"
    and old: "\<And>a. a \<noteq> run_Attempt r \<Longrightarrow> \<exists>c. mset c = mset (attempt_of a js) \<and> chain_ok (run_RepoSha0 r) c"
    and cur: "attempt_of (run_Attempt r) js = []"
    and js: "\<forall>j \<in> set js. 1 \<le> job_Attempt j \<and> job_Attempt j \<le> run_Attempt r \<and> job_RepoID j = run_RepoID r \<and> \<not> is_active_job j"
    and r: "1 \<le> run_Attempt r" "run_Status r = RunStatusRunning"
  shows "run_ok (js @ rev new) r"
proof (rule run_ok_new_attempt [OF old cur js r])
  note c = createPlannedJobs_Inr [OF cp]
  show "chain_ok (run_RepoSha0 r) new" using c chain_ok_planned by blast
  have "new_planned newJobID r jobs 0 \<in> set new" using c(1,2) by simp
  moreover have "is_active_job (new_planned newJobID r jobs 0)" by (simp add: is_active_job_def)
  ultimately show "\<exists>j \<in> set new. is_active_job j" by blast
  show "new \<noteq> []" using c(1,2) by simp
  show "\<forall>j \<in> set new. job_Attempt j = run_Attempt r \<and> job_RepoID j = run_RepoID r" using c(2) by auto
qed simp_all

lemma insertRun_Inr:
  assumes "insertRun now wv plan d = Inr (r, d')"
  obtains stats where "r = new_run now wv plan stats" "d' = d\<lparr>db_runs := db_runs d @ [r]\<rparr>"
    "rp_ID plan \<notin> run_ID ` set (db_runs d)" "cw_ID wv \<in> wave_ID ` set (db_waves d)"
    "rp_RepoID plan \<in> repo_ID ` set (db_repos d)"
  using assms by (auto simp: insertRun_def res_bind_Inr_iff find_by_None_iff split: if_splits)

lemma requireRepo_Inr:
  assumes "requireRepoWithoutActiveRun repoID d = Inr ()" "repoID \<in> repo_ID ` set (db_repos d)" "r \<in> set (db_runs d)"
    "run_RepoID r = repoID"
  shows "\<not> is_active_run r"
proof
  assume act: "is_active_run r"
  let ?hits = "filter (\<lambda>r. run_RepoID r = repoID \<and> is_active_run r) (db_runs d)"
  have "find_by repo_ID repoID (db_repos d) \<noteq> None" using assms(2) by (simp only: find_by_None_iff not_not simp_thms)
  then have "sort_key (\<lambda>r. (run_CreatedAt r, run_ID r)) ?hits = []"
    using assms(1) by (auto simp: requireRepoWithoutActiveRun_def split: option.splits list.splits)
  from arg_cong [OF this, of set] have "set ?hits = {}" by simp
  then show False using assms(3,4) act by auto
qed

text \<open>Adding a new active run with its jobs.\<close>

lemma db_inv_add_run:
  assumes inv: "db_inv d" and fresh: "run_ID r \<notin> run_ID ` set (db_runs d)"
    and wv: "run_WaveID r \<in> wave_ID ` set (db_waves d)"
      "\<And>w. w \<in> set (db_waves d) \<Longrightarrow> wave_ID w = run_WaveID r \<Longrightarrow> wave_Status w = WaveStatusStarted"
    and repo: "run_RepoID r \<in> repo_ID ` set (db_repos d)"
      "\<And>s. s \<in> set (db_runs d) \<Longrightarrow> run_RepoID s = run_RepoID r \<Longrightarrow> \<not> is_active_run s"
    and new: "run_ok new r" "\<And>j. j \<in> set new \<Longrightarrow> job_RunID j = run_ID r \<and> job_NodeID j = None \<and> \<not> IsEmpty (job_ID j)"
      "distinct (map job_ID new)" "job_ID ` set new \<inter> job_ID ` set (db_jobs d) = {}"
    and d': "d' = d\<lparr>db_runs := db_runs d @ [r], db_jobs := db_jobs d @ new\<rparr>"
  shows "db_inv d'"
proof -
  have run_of: "job_RunID j \<in> run_ID ` set (db_runs d)" if "j \<in> set (db_jobs d)" for j
    using inv that by (simp add: db_inv_def refs_ok_def)
  have "keys_ok d'"
    using inv fresh new(2-4) unfolding db_inv_def keys_ok_def d' by auto
  moreover have "refs_ok d'"
    using inv wv(1) repo(1) new(2) unfolding db_inv_def refs_ok_def d' by auto
  moreover have "active_runs_ok d'"
    unfolding active_runs_ok_def
  proof (intro ballI impI conjI)
    fix s assume "s \<in> set (db_runs d')" "is_active_run s"
    then have s: "s = r \<or> s \<in> set (db_runs d)" "is_active_run s" by (auto simp: d')
    show "run_ID t = run_ID s" if "t \<in> set (db_runs d')" "is_active_run t" "run_RepoID t = run_RepoID s" for t
    proof -
      have "t = r \<or> t \<in> set (db_runs d)" using that(1) by (auto simp: d')
      then consider "t = r" "s = r" | "t = r" "s \<in> set (db_runs d)" | "t \<in> set (db_runs d)" "s = r"
        | "t \<in> set (db_runs d)" "s \<in> set (db_runs d)" using s(1) by blast
      then show ?thesis
      proof cases
        case 4
        then show ?thesis using db_inv_active(1) [OF inv _ s(2)] that by blast
      qed (use s(2) that repo(2) in auto)
    qed
    show "wave_Status w = WaveStatusStarted" if "w \<in> set (db_waves d')" "wave_ID w = run_WaveID s" for w
      using s that wv(2) db_inv_active(2) [OF inv] by (auto simp: d')
  qed
  moreover have "run_ok (run_jobs (run_ID s) (db_jobs d')) s" if "s \<in> set (db_runs d')" for s
  proof (cases "s = r")
    case True
    have "run_jobs (run_ID r) (db_jobs d) = []"
      unfolding run_jobs_def filter_empty_conv by (metis fresh run_of)
    moreover have "run_jobs (run_ID r) new = new" using new(2) by (simp add: run_jobs_def)
    ultimately show ?thesis using True new(1) by (simp add: d' run_jobs_def)
  next
    case False
    then have s: "s \<in> set (db_runs d)" using that by (simp add: d')
    then have "run_ID s \<noteq> run_ID r" using fresh by (metis imageI)
    then have "run_jobs (run_ID s) new = []" using new(2) by (auto simp: run_jobs_def filter_empty_conv)
    then show ?thesis using db_inv_run_ok [OF inv s] by (simp add: d' run_jobs_def)
  qed
  ultimately show ?thesis by (simp add: db_inv_def)
qed

definition wave_started :: "wave_id \<Rightarrow> db \<Rightarrow> bool" where
  "wave_started i d \<longleftrightarrow> i \<in> wave_ID ` set (db_waves d) \<and>
     (\<forall>w \<in> set (db_waves d). wave_ID w = i \<longrightarrow> wave_Status w = WaveStatusStarted)"

lemma CreateWave_inv:
  assumes inv: "db_inv d" and c: "CreateWave now wv d = Inr (w, d')"
  shows "db_inv d' \<and> wave_started (cw_ID wv) d'"
proof -
  from c have w: "w = new_wave now wv" and d': "d' = d\<lparr>db_waves := db_waves d @ [w]\<rparr>"
    and fresh: "cw_ID wv \<notin> wave_ID ` set (db_waves d)"
    by (auto simp: CreateWave_def find_by_None_iff split: if_splits)
  have id: "wave_ID w = cw_ID wv" "wave_Status w = WaveStatusStarted" by (simp_all add: w new_wave_def)
  have "keys_ok d'" using inv fresh id unfolding db_inv_def keys_ok_def d' by auto
  moreover have "refs_ok d'" using inv unfolding db_inv_def refs_ok_def d' by auto
  moreover have "active_runs_ok d'"
    unfolding active_runs_ok_def
  proof (intro ballI impI conjI)
    fix r assume "r \<in> set (db_runs d')" "is_active_run r"
    then have r: "r \<in> set (db_runs d)" "is_active_run r" by (simp_all add: d')
    show "run_ID s = run_ID r" if "s \<in> set (db_runs d')" "is_active_run s" "run_RepoID s = run_RepoID r" for s
      using db_inv_active(1) [OF inv r] that by (simp add: d')
    show "wave_Status v = WaveStatusStarted" if "v \<in> set (db_waves d')" "wave_ID v = run_WaveID r" for v
      using db_inv_active(2) [OF inv r] that id(2) unfolding d' by auto
  qed
  moreover have "\<forall>r \<in> set (db_runs d'). run_ok (run_jobs (run_ID r) (db_jobs d')) r"
    using inv by (simp add: db_inv_def d')
  ultimately have "db_inv d'" by (simp add: db_inv_def)
  moreover have "wave_started (cw_ID wv) d'" using id notin_imageD [OF fresh] by (auto simp: wave_started_def d')
  ultimately show ?thesis ..
qed

lemma materializeRun_inv:
  assumes P: "db_inv d" "wave_started (cw_ID wv) d" and ids: "\<forall>k i. \<not> IsEmpty (newJobID k i)"
    and m: "materializeRun now newJobID wv (k, plan) (ms, d) = Inr (ms', d')"
  shows "db_inv d' \<and> wave_started (cw_ID wv) d'"
proof -
  from m obtain r d1 js where
      guard: "requireRepoWithoutActiveRun (rp_RepoID plan) d = Inr ()" and ins: "insertRun now wv plan d = Inr (r, d1)"
      and cp: "createPlannedJobs (newJobID k) r (rp_Jobs plan) d1 = Inr (js, d')"
    by (auto simp: materializeRun_def res_bind_Inr_iff split: prod.splits)
  obtain stats where r: "r = new_run now wv plan stats" and d1: "d1 = d\<lparr>db_runs := db_runs d @ [r]\<rparr>"
      and fresh: "rp_ID plan \<notin> run_ID ` set (db_runs d)" and repo: "rp_RepoID plan \<in> repo_ID ` set (db_repos d)"
    using ins by (rule insertRun_Inr)
  have rf: "run_ID r = rp_ID plan" "run_WaveID r = cw_ID wv" "run_RepoID r = rp_RepoID plan" "run_Attempt r = 1"
      "run_Status r = RunStatusRunning" by (simp_all add: r new_run_def)
  note c = createPlannedJobs_Inr [OF cp]
  have d': "d' = d\<lparr>db_runs := db_runs d @ [r], db_jobs := db_jobs d @ rev js\<rparr>" using c(3) by (simp add: d1)
  have "run_ok ([] @ rev js) r"
    by (rule run_ok_planned [OF cp]) (auto simp: rf attempt_of_def chain_ok_def one_node_def)
  moreover have "job_RunID j = run_ID r \<and> job_NodeID j = None \<and> \<not> IsEmpty (job_ID j)" if "j \<in> set (rev js)" for j
    using that ids unfolding c(2) by auto
  moreover have "distinct (map job_ID (rev js))" using c(4) by (simp add: rev_map [symmetric])
  moreover have "job_ID ` set (rev js) \<inter> job_ID ` set (db_jobs d) = {}" using c(5) by (simp add: d1)
  ultimately have "db_inv d'"
    using P(2) repo fresh requireRepo_Inr [OF guard repo]
    by (intro db_inv_add_run [OF P(1) _ _ _ _ _ _ _ _ _ d']) (auto simp: rf wave_started_def)
  moreover have "wave_started (cw_ID wv) d'" using P(2) by (simp add: d' wave_started_def)
  ultimately show ?thesis ..
qed

lemma CreateWaveWithRuns_inv:
  assumes inv: "db_inv d" and ids: "\<forall>k i. \<not> IsEmpty (newJobID k i)"
    and c: "CreateWaveWithRuns now newJobID wv plans d = Inr (res, d')"
  shows "db_inv d'"
proof -
  from c obtain w d1 ms where cw: "CreateWave now wv d = Inr (w, d1)"
      and it: "res_iter (materializeRun now newJobID wv) (enumerate 0 plans) ([], d1) = Inr (ms, d')"
    by (auto simp: CreateWaveWithRuns_def res_bind_Inr_iff split: if_splits)
  have "(\<lambda>(ms, d). db_inv d \<and> wave_started (cw_ID wv) d) (ms, d')"
  proof (rule res_iter_invariant [OF it])
    show "(\<lambda>(ms, d). db_inv d \<and> wave_started (cw_ID wv) d) ([], d1)" using CreateWave_inv [OF inv cw] by simp
    fix x s t
    assume a: "(\<lambda>(ms, d). db_inv d \<and> wave_started (cw_ID wv) d) s" "materializeRun now newJobID wv x s = Inr t"
    obtain k plan ms0 d0 ms1 d1 where xst: "x = (k, plan)" "s = (ms0, d0)" "t = (ms1, d1)"
      by (metis surj_pair)
    show "(\<lambda>(ms, d). db_inv d \<and> wave_started (cw_ID wv) d) t"
      using materializeRun_inv [of d0 wv newJobID now k plan ms0 ms1 d1, OF _ _ ids] a unfolding xst prod.case by blast
  qed
  then show ?thesis by simp
qed

end
