(* ===== verification/Restart_Safety.thy ===== *)
theory Restart_Safety
  imports Store_Safety
begin

text \<open>
  Restart and in-place resume keep \<open>db_inv\<close>. A full restart leaves every earlier attempt as it is
  and adds one chain for the next attempt. A resume resets the failed suffix of the current chain:
  its first job is queued again with the node and input commit it had, the jobs behind it are
  created again.
\<close>

section \<open>Reviving the wave\<close>

lemma revive_wave_inv:
  assumes "db_inv d"
  shows "db_inv (UpdateWaveStatus now i WaveStatusStarted d)"
proof (rule db_inv_update [OF assms, where f = "\<lambda>j. j" and g = "\<lambda>r. r"])
  show "db_waves (UpdateWaveStatus now i WaveStatusStarted d) =
      map (\<lambda>w. if wave_ID w = i then set_wave_status now WaveStatusStarted w else w) (db_waves d)"
    by (simp add: UpdateWaveStatus_def update_where_def)
qed (use db_inv_run_ok [OF assms] in \<open>auto simp: UpdateWaveStatus_def set_wave_status_def\<close>)

definition revive :: "timestamp \<Rightarrow> wave \<Rightarrow> db \<Rightarrow> db" where
  "revive now w d = (if wave_Status w = WaveStatusFinished then UpdateWaveStatus now (wave_ID w) WaveStatusStarted d else d)"

lemma revive_fields [simp]:
  "db_jobs (revive now w d) = db_jobs d" "db_runs (revive now w d) = db_runs d" "db_nodes (revive now w d) = db_nodes d"
  "db_repos (revive now w d) = db_repos d"
  by (simp_all add: revive_def UpdateWaveStatus_def)

lemma revive_inv: "db_inv d \<Longrightarrow> db_inv (revive now w d)"
  by (simp add: revive_def revive_wave_inv)

lemma revive_started:
  assumes inv: "db_inv d" and w: "w \<in> set (db_waves d)" "wave_Status w \<noteq> WaveStatusCancelled"
    and v: "v \<in> set (db_waves (revive now w d))" "wave_ID v = wave_ID w"
  shows "wave_Status v = WaveStatusStarted"
proof (cases "wave_Status w = WaveStatusFinished")
  case True
  then show ?thesis using v by (auto simp: revive_def UpdateWaveStatus_def update_where_def set_wave_status_def split: if_splits)
next
  case False
  then have "v = w" using v w(1) distinct_key_eq [OF db_inv_keys(3) [OF inv]] by (simp add: revive_def)
  then show ?thesis using w(2) False by (cases "wave_Status w") auto
qed

section \<open>A new attempt\<close>

lemma db_inv_new_attempt:
  assumes inv: "db_inv d" and r: "r \<in> set (db_runs d)"
    and r': "run_ID r' = run_ID r" "run_WaveID r' = run_WaveID r" "run_RepoID r' = run_RepoID r"
    and wv: "\<And>w. w \<in> set (db_waves d) \<Longrightarrow> wave_ID w = run_WaveID r \<Longrightarrow> wave_Status w = WaveStatusStarted"
    and repo: "\<And>s. s \<in> set (db_runs d) \<Longrightarrow> run_RepoID s = run_RepoID r \<Longrightarrow> \<not> is_active_run s"
    and new: "run_ok (run_jobs (run_ID r) (db_jobs d) @ new) r'"
      "\<And>j. j \<in> set new \<Longrightarrow> job_RunID j = run_ID r \<and> job_NodeID j = None \<and> \<not> IsEmpty (job_ID j)"
      "distinct (map job_ID new)" "job_ID ` set new \<inter> job_ID ` set (db_jobs d) = {}"
    and d': "db_jobs d' = db_jobs d @ new" "db_runs d' = set_run r' (db_runs d)" "db_waves d' = db_waves d"
      "db_nodes d' = db_nodes d" "db_repos d' = db_repos d"
  shows "db_inv d'"
proof -
  have ids: "run_ID ` set (db_runs d') = run_ID ` set (db_runs d)"
    using map_run_ID_set_run d'(2) by (metis list.set_map)
  have "keys_ok d'"
    using inv new(2-4) unfolding db_inv_def keys_ok_def d' map_run_ID_set_run by auto
  moreover have "refs_ok d'"
    unfolding refs_ok_def
  proof (intro conjI ballI allI impI)
    fix j assume j: "j \<in> set (db_jobs d')"
    then show "job_RunID j \<in> run_ID ` set (db_runs d')"
      using inv r new(2) unfolding ids by (auto simp: d' db_inv_def refs_ok_def)
    show "n \<in> node_ID ` set (db_nodes d')" if "job_NodeID j = Some n" for n
      using j that inv new(2) by (auto simp: d' db_inv_def refs_ok_def)
  next
    fix s assume "s \<in> set (db_runs d')"
    then obtain t where "t \<in> set (db_runs d)" "run_WaveID s = run_WaveID t" "run_RepoID s = run_RepoID t"
      using r r' by (auto simp: d' in_set_run)
    then show "run_WaveID s \<in> wave_ID ` set (db_waves d')" "run_RepoID s \<in> repo_ID ` set (db_repos d')"
      using inv by (auto simp: d' db_inv_def refs_ok_def)
  qed
  moreover have "active_runs_ok d'"
    unfolding active_runs_ok_def
  proof (intro ballI impI conjI)
    fix s assume "s \<in> set (db_runs d')" and s: "is_active_run s"
    then have s': "s = r' \<or> s \<in> set (db_runs d)" unfolding d' in_set_run by blast
    show "run_ID t = run_ID s" if "t \<in> set (db_runs d')" and t: "is_active_run t" "run_RepoID t = run_RepoID s" for t
    proof -
      have "t = r' \<or> t \<in> set (db_runs d)" using that(1) unfolding d' in_set_run by blast
      then consider "t = r'" "s = r'" | "t = r'" "s \<in> set (db_runs d)" | "t \<in> set (db_runs d)" "s = r'"
        | "t \<in> set (db_runs d)" "s \<in> set (db_runs d)" using s' by blast
      then show ?thesis
      proof cases
        case 4
        then show ?thesis using db_inv_active(1) [OF inv _ s] t by blast
      qed (use s t repo r' in auto)
    qed
    show "wave_Status w = WaveStatusStarted" if "w \<in> set (db_waves d')" "wave_ID w = run_WaveID s" for w
      using s' s that wv r' db_inv_active(2) [OF inv] unfolding d' by metis
  qed
  moreover have "run_ok (run_jobs (run_ID s) (db_jobs d')) s" if s: "s \<in> set (db_runs d')" for s
  proof (cases "run_ID s = run_ID r")
    case True
    then have "s = r'" using s r' by (auto simp: d' in_set_run)
    moreover have "run_jobs (run_ID r) new = new" using new(2) by (simp add: run_jobs_def)
    ultimately show ?thesis using new(1) r' by (simp add: d' run_jobs_def)
  next
    case False
    then have "s \<in> set (db_runs d)" using s r' by (auto simp: d' in_set_run)
    moreover have "run_jobs (run_ID s) new = []" using new(2) False by (auto simp: run_jobs_def filter_empty_conv)
    ultimately show ?thesis using db_inv_run_ok [OF inv] by (simp add: d' run_jobs_def)
  qed
  ultimately show ?thesis by (simp add: db_inv_def)
qed

text \<open>What the guards of \<^verbatim>\<open>RestartRun\<close> establish.\<close>

lemma RestartRun_Inr:
  assumes "RestartRun now nowText newJobID arg d = Inr (u, d')"
  obtains r w d1 where "r \<in> set (db_runs d)" "run_ID r = rr_RunID arg" "run_Attempt r = rr_ExpectedAttempt arg"
    "\<not> is_active_run r" "w \<in> set (db_waves d)" "wave_ID w = run_WaveID r" "wave_Status w \<noteq> WaveStatusCancelled"
    "requireRepoWithoutActiveRun (run_RepoID r) d = Inr ()"
    "(if rr_FromFailed arg then resumeFailedJobs nowText r arg d
      else incrementRunAttempt now (rr_RunID arg) (rr_Stats arg)
        (snd (CancelActiveJobsByRunAttempt now (rr_RunID arg) (run_Attempt r) d))) = Inr d1"
    "GetRun (rr_RunID arg) (revive now w d1) = Inr u"
    "if rr_FromFailed arg then d' = revive now w d1
     else \<exists>js. createPlannedJobs newJobID u (rr_Jobs arg) (revive now w d1) = Inr (js, d')"
proof -
  from assms obtain r where r: "GetRun (rr_RunID arg) d = Inr r"
    by (auto simp: RestartRun_def res_bind_Inr_iff)
  from assms r have ra: "run_Attempt r = rr_ExpectedAttempt arg" and
      st: "run_Status r = RunStatusSuccess \<or> run_Status r = RunStatusFail \<or> run_Status r = RunStatusCancelled"
    by (auto simp: RestartRun_def res_bind_Inr_iff split: if_splits)
  from assms r ra st obtain w where w: "GetWave (run_WaveID r) d = Inr w" and wc: "wave_Status w \<noteq> WaveStatusCancelled"
    by (auto simp: RestartRun_def res_bind_Inr_iff split: if_splits)
  show thesis
    using assms r ra st w wc GetRun_Inr [OF r] GetWave_Inr [OF w] unfolding RestartRun_def revive_def [symmetric]
    by (auto simp: res_bind_Inr_iff is_active_run_def Let_def split: if_splits prod.splits intro: that)
qed

lemma find_row:
  assumes "distinct (map key t)" "x \<in> set t" "find_by key (key x) t = Some y"
  shows "y = x"
  using assms find_by_in [OF assms(1,2)] by simp

lemma GetRun_set_run:
  assumes inv: "db_inv d" and r: "r \<in> set (db_runs d)" and r': "run_ID r' = run_ID r"
    and d1: "db_runs d1 = set_run r' (db_runs d)" and u: "GetRun (run_ID r) d1 = Inr u"
  shows "u = r'"
proof -
  have "distinct (map run_ID (db_runs d1))" using db_inv_keys(2) [OF inv] by (simp add: d1 map_run_ID_set_run)
  moreover have "r' \<in> set (db_runs d1)" using r r' by (auto simp: d1 in_set_run)
  ultimately show ?thesis using u r' find_row [of run_ID "db_runs d1" r' u]
    by (auto simp: GetRun_def get_row_def split: option.splits)
qed

lemma cancel_terminal_attempt:
  assumes inv: "db_inv d" and r: "r \<in> set (db_runs d)" "\<not> is_active_run r"
  shows "snd (CancelActiveJobsByRunAttempt now (run_ID r) a d) = d"
proof -
  have "\<not> (job_RunID j = run_ID r \<and> job_Attempt j = a \<and> is_active_job j)" if "j \<in> set (db_jobs d)" for j
    using db_inv_run_ok [OF inv r(1)] r(2) that by (auto simp: run_ok_def)
  then show ?thesis by (simp add: CancelActiveJobsByRunAttempt_def Let_def update_where_id)
qed

text \<open>A full restart: the run moves to its next attempt, the wave is revived, the jobs of the plan are added.\<close>

lemma RestartRun_full:
  assumes inv: "db_inv d" and full: "\<not> rr_FromFailed arg" and rs: "RestartRun now nowText newJobID arg d = Inr (u, d')"
  obtains r w v js where "r \<in> set (db_runs d)" "run_ID r = rr_RunID arg" "run_Attempt r = rr_ExpectedAttempt arg" "\<not> is_active_run r"
    "w \<in> set (db_waves d)" "wave_ID w = run_WaveID r" "wave_Status w \<noteq> WaveStatusCancelled"
    "requireRepoWithoutActiveRun (run_RepoID r) d = Inr ()" "u = increment_attempt now v r"
    "createPlannedJobs newJobID u (rr_Jobs arg) (revive now w (d\<lparr>db_runs := set_run u (db_runs d)\<rparr>)) = Inr (js, d')"
proof -
  obtain r w d1 where r: "r \<in> set (db_runs d)" "run_ID r = rr_RunID arg" "\<not> is_active_run r" "run_Attempt r = rr_ExpectedAttempt arg"
    and w: "w \<in> set (db_waves d)" "wave_ID w = run_WaveID r" "wave_Status w \<noteq> WaveStatusCancelled"
    and guard: "requireRepoWithoutActiveRun (run_RepoID r) d = Inr ()"
    and inc: "incrementRunAttempt now (rr_RunID arg) (rr_Stats arg)
        (snd (CancelActiveJobsByRunAttempt now (rr_RunID arg) (run_Attempt r) d)) = Inr d1"
    and u: "GetRun (rr_RunID arg) (revive now w d1) = Inr u"
    and "\<exists>js. createPlannedJobs newJobID u (rr_Jobs arg) (revive now w d1) = Inr (js, d')"
    using rs full by (elim RestartRun_Inr) auto
  then obtain js where cp: "createPlannedJobs newJobID u (rr_Jobs arg) (revive now w d1) = Inr (js, d')" by blast
  from inc obtain v where d1: "d1 = d\<lparr>db_runs := set_run (increment_attempt now v r) (db_runs d)\<rparr>"
    using cancel_terminal_attempt [OF inv r(1,3)] update_where_run [OF db_inv_keys(2) [OF inv] r(1)]
    by (auto simp: incrementRunAttempt_def res_bind_Inr_iff r(2) [symmetric] increment_attempt_def split: if_splits)
  have "u = increment_attempt now v r"
    by (rule GetRun_set_run [OF inv r(1), of _ "revive now w d1"]) (use u r(2) in \<open>simp_all add: d1 increment_attempt_def\<close>)
  then show thesis using that r w guard cp d1 by blast
qed

lemma RestartRun_full_inv:
  assumes inv: "db_inv d" and ids: "\<forall>i. \<not> IsEmpty (newJobID i)" and full: "\<not> rr_FromFailed arg"
    and rs: "RestartRun now nowText newJobID arg d = Inr (u, d')"
  shows "db_inv d'"
proof -
  obtain r w v js where r: "r \<in> set (db_runs d)" "run_ID r = rr_RunID arg" "\<not> is_active_run r"
    and w: "w \<in> set (db_waves d)" "wave_ID w = run_WaveID r" "wave_Status w \<noteq> WaveStatusCancelled"
    and guard: "requireRepoWithoutActiveRun (run_RepoID r) d = Inr ()" and u: "u = increment_attempt now v r"
    and cp: "createPlannedJobs newJobID u (rr_Jobs arg) (revive now w (d\<lparr>db_runs := set_run u (db_runs d)\<rparr>)) = Inr (js, d')"
    using inv full rs by (rule RestartRun_full)
  define r' where "r' = increment_attempt now v r"
  have rf: "run_ID r' = run_ID r" "run_WaveID r' = run_WaveID r" "run_RepoID r' = run_RepoID r"
      "run_Attempt r' = run_Attempt r + 1" "run_RepoSha0 r' = run_RepoSha0 r" "run_Status r' = RunStatusRunning"
    by (simp_all add: r'_def increment_attempt_def)
  have u': "u = r'" using u by (simp add: r'_def)
  note c = createPlannedJobs_Inr [OF cp]
  have ok: "run_ok (run_jobs (run_ID r) (db_jobs d)) r" using inv r(1) by (rule db_inv_run_ok)
  have new: "run_ok (run_jobs (run_ID r) (db_jobs d) @ rev js) r'"
  proof (rule run_ok_planned [OF cp [unfolded u']])
    show "\<exists>c. mset c = mset (attempt_of a (run_jobs (run_ID r) (db_jobs d))) \<and> chain_ok (run_RepoSha0 r') c" for a
      using run_ok_chain [OF ok] rf(5) by metis
    show "attempt_of (run_Attempt r') (run_jobs (run_ID r) (db_jobs d)) = []"
      using ok by (force simp: attempt_of_def filter_empty_conv rf run_ok_def)
  qed (use ok r(3) in \<open>auto simp: rf run_ok_def\<close>)
  have repo: "run_RepoID r \<in> repo_ID ` set (db_repos d)" using inv r(1) by (simp add: db_inv_def refs_ok_def)
  show ?thesis
  proof (rule db_inv_new_attempt [OF revive_inv [OF inv, of now w] _ rf(1-3) _ _ _ _ _ _, where new = "rev js"])
    show "wave_Status x = WaveStatusStarted" if "x \<in> set (db_waves (revive now w d))" "wave_ID x = run_WaveID r" for x
      using revive_started [OF inv w(1,3)] that w(2) by simp
    show "\<not> is_active_run s" if "s \<in> set (db_runs (revive now w d))" "run_RepoID s = run_RepoID r" for s
      using requireRepo_Inr [OF guard repo] that by simp
    show "job_RunID j = run_ID r \<and> job_NodeID j = None \<and> \<not> IsEmpty (job_ID j)" if "j \<in> set (rev js)" for j
      using that ids unfolding c(2) u' by (auto simp: rf)
    show "distinct (map job_ID (rev js))" using c(4) by (simp add: rev_map [symmetric])
    show "db_waves d' = db_waves (revive now w d)" by (simp add: c(3) revive_def UpdateWaveStatus_def)
  qed (use r(1) new c(5) in \<open>simp_all add: c(3) u'\<close>)
qed

section \<open>Sequences of single-row updates\<close>

definition apply_updates :: "(job_id \<times> (job \<Rightarrow> job)) list \<Rightarrow> job \<Rightarrow> job" where
  "apply_updates us k = (case map_of us (job_ID k) of None \<Rightarrow> k | Some g \<Rightarrow> g k)"

lemma apply_updates_Nil [simp]: "apply_updates [] k = k"
  by (simp add: apply_updates_def)

lemma apply_updates_at_id:
  assumes "i \<notin> fst ` set us" "keeps_key g"
  shows "apply_updates us (at_id i g k) = apply_updates ((i, g) # us) k"
proof -
  have "map_of us i = None" using assms(1) by (simp add: map_of_eq_None_iff)
  then show ?thesis by (simp add: apply_updates_def at_id_def keeps_keyD [OF assms(2)])
qed

lemma keeps_key_apply_updates:
  assumes "\<And>i g. (i, g) \<in> set us \<Longrightarrow> keeps_key g"
  shows "keeps_key (apply_updates us)"
proof -
  have "\<And>i g. map_of us i = Some g \<Longrightarrow> keeps_key g" using assms by (blast dest: map_of_SomeD)
  then show ?thesis unfolding keeps_key_def apply_updates_def by (auto split: option.splits dest: keeps_keyD)
qed

lemma fold_at_id:
  assumes "distinct (map fst us)" "\<And>i g. (i, g) \<in> set us \<Longrightarrow> keeps_key g"
  shows "fold (\<lambda>(i, g). map (at_id i g)) us t = map (apply_updates us) t"
  using assms
proof (induction us arbitrary: t)
  case (Cons u us)
  obtain i g where u: "u = (i, g)" by (cases u)
  have "i \<notin> fst ` set us" "keeps_key g" using Cons.prems by (auto simp: u)
  then have "map (apply_updates us) (map (at_id i g) t) = map (apply_updates (u # us)) t"
    by (simp add: u apply_updates_at_id)
  moreover have "fold (\<lambda>(i, g). map (at_id i g)) us (map (at_id i g) t) = map (apply_updates us) (map (at_id i g) t)"
    using Cons.prems by (intro Cons.IH) auto
  ultimately show ?case by (simp add: u)
qed (simp add: map_idI)

lemma apply_updates_frame: "job_ID k \<notin> fst ` set us \<Longrightarrow> apply_updates us k = k"
  by (simp add: apply_updates_def map_of_eq_None_iff [symmetric])

lemma map_apply_updates:
  assumes "distinct (map job_ID js)"
  shows "map (apply_updates (map (\<lambda>j. (job_ID j, G j)) js)) js = map (\<lambda>j. G j j) js"
proof (rule map_cong [OF refl])
  fix j assume "j \<in> set js"
  moreover have "distinct (map fst (map (\<lambda>j. (job_ID j, G j)) js))" using assms by (simp add: comp_def)
  ultimately have "map_of (map (\<lambda>j. (job_ID j, G j)) js) (job_ID j) = Some (G j)" by (intro map_of_is_SomeI) auto
  then show "apply_updates (map (\<lambda>j. (job_ID j, G j)) js) j = G j j" by (simp add: apply_updates_def)
qed

section \<open>Resuming\<close>

lemma scanChain_failed:
  "scanChain c owner (Some s) = Inr x \<Longrightarrow>
   x = Some s \<and> (\<forall>k \<in> set c. job_Status k = JobStatusCancelled \<and> job_StartedAt k = None \<and> job_NodeID k = None)"
  by (induction c arbitrary: owner) (auto split: option.splits if_splits)

lemma scanChain_suffix:
  assumes "scanChain c owner None = Inr (Some suffix)"
  obtains pre j post n where "c = pre @ j # post" "suffix = j # post" "\<forall>k \<in> set pre. job_Status k = JobStatusSuccess"
    "job_Status j = JobStatusFail \<or> job_Status j = JobStatusError" "job_NodeID j = Some n" "n \<noteq> []"
    "IsCanonicalFullCommitSHA (job_RepoShaIn j)"
    "\<forall>k \<in> set post. job_Status k = JobStatusCancelled \<and> job_StartedAt k = None \<and> job_NodeID k = None"
  using assms
proof (induction c arbitrary: owner thesis)
  case (Cons k c)
  from Cons.prems(2) obtain owner' where o: "chain_owner owner k = Some owner'"
    by (cases "chain_owner owner k") auto
  have next_step: "scanChain (k # c) owner None =
      (if job_Status k = JobStatusSuccess then scanChain c owner' None
       else if (job_Status k \<noteq> JobStatusFail \<and> job_Status k \<noteq> JobStatusError) \<or>
            job_NodeID k = None \<or> job_NodeID k = Some [] \<or> \<not> IsCanonicalFullCommitSHA (job_RepoShaIn k)
         then Inl ErrRunResumeInvalid
       else scanChain c owner' (Some (k # c)))"
    by (simp add: o)
  show ?case
  proof (cases "job_Status k = JobStatusSuccess")
    case True
    then have "scanChain c owner' None = Inr (Some suffix)" using Cons.prems(2) next_step by simp
    then show thesis
    proof (rule Cons.IH [rotated])
      fix pre j post n assume *: "c = pre @ j # post" "suffix = j # post" "\<forall>k \<in> set pre. job_Status k = JobStatusSuccess"
        "job_Status j = JobStatusFail \<or> job_Status j = JobStatusError" "job_NodeID j = Some n" "n \<noteq> []"
        "IsCanonicalFullCommitSHA (job_RepoShaIn j)"
        "\<forall>k \<in> set post. job_Status k = JobStatusCancelled \<and> job_StartedAt k = None \<and> job_NodeID k = None"
      show thesis by (rule Cons.prems(1) [of "k # pre" j post n]) (use * True in auto)
    qed
  next
    case False
    have step: "scanChain c owner' (Some (k # c)) = Inr (Some suffix)" and
        k: "job_Status k = JobStatusFail \<or> job_Status k = JobStatusError" "job_NodeID k \<noteq> None" "job_NodeID k \<noteq> Some []"
          "IsCanonicalFullCommitSHA (job_RepoShaIn k)"
      using Cons.prems(2) next_step False by (auto split: if_splits)
    obtain n where n: "job_NodeID k = Some n" "n \<noteq> []" using k(2,3) by auto
    show thesis
      by (rule Cons.prems(1) [of "[]" k c n]) (use scanChain_failed [OF step] k n in auto)
  qed
qed simp

definition resume_meta :: "JobPlan list \<Rightarrow> job \<Rightarrow> json" where
  "resume_meta plans job = raw_value (plan_Meta (the (map_of (rev (map (\<lambda>p. (plan_Name p, p)) plans)) (job_Name job))))"

lemma resumeJob_Inr:
  assumes "resumeJob plans (i, job) d = Inr d'"
  shows "db_jobs d' = map (at_id (job_ID job) (reset_job (i = 0) (resume_meta plans job))) (db_jobs d)"
    "db_runs d' = db_runs d" "db_waves d' = db_waves d" "db_nodes d' = db_nodes d" "db_repos d' = db_repos d"
  using assms by (auto simp: resumeJob_def res_bind_Inr_iff jsonb_required_Inr resume_meta_def update_where_at_id
      split: option.splits if_splits)

lemma resumeJobs_Inr:
  assumes "res_iter (resumeJob plans) (enumerate n suffix) d = Inr d'"
  shows "db_jobs d' = fold (\<lambda>(i, g). map (at_id i g))
      (map (\<lambda>(i, k). (job_ID k, reset_job (i = 0) (resume_meta plans k))) (enumerate n suffix)) (db_jobs d) \<and>
    db_runs d' = db_runs d \<and> db_waves d' = db_waves d \<and> db_nodes d' = db_nodes d \<and> db_repos d' = db_repos d"
  using assms
proof (induction suffix arbitrary: n d)
  case (Cons k suffix)
  then obtain d1 where d1: "resumeJob plans (n, k) d = Inr d1"
      and rest: "res_iter (resumeJob plans) (enumerate (Suc n) suffix) d1 = Inr d'"
    by (auto simp: res_bind_Inr_iff)
  show ?case using Cons.IH [OF rest] resumeJob_Inr [OF d1] by simp
qed simp

lemma enumerate_first:
  assumes "j \<notin> set post"
  shows "map (\<lambda>(i, k). F (i = (0::nat)) k) (enumerate 0 (j # post)) = map (\<lambda>k. F (k = j) k) (j # post)"
proof -
  have "map (\<lambda>(i, k). F (i = 0) k) (enumerate (Suc n) xs) = map (F False) xs" for n xs
    by (induction xs arbitrary: n) auto
  moreover have "map (F False) post = map (\<lambda>k. F (k = j) k) post"
  proof (rule map_cong [OF refl])
    fix k assume "k \<in> set post"
    then have "(k = j) = False" using assms by auto
    then show "F False k = F (k = j) k" by simp
  qed
  ultimately show ?thesis by simp
qed

lemma resumeFailedJobs_Inr:
  assumes inv: "db_inv d" and r: "r \<in> set (db_runs d)" and rs: "resumeFailedJobs nowText r arg d = Inr d1"
  obtains j pre post n stats where "job_focus d j r pre post" "job_Attempt j = run_Attempt r"
    "\<forall>k \<in> set pre. job_Status k = JobStatusSuccess" "job_Status j = JobStatusFail \<or> job_Status j = JobStatusError"
    "job_NodeID j = Some n" "n \<noteq> []" "IsCanonicalFullCommitSHA (job_RepoShaIn j)"
    "\<forall>k \<in> set post. job_Status k = JobStatusCancelled \<and> job_StartedAt k = None \<and> job_NodeID k = None"
    "db_jobs d1 = map (apply_updates (map (\<lambda>k. (job_ID k, reset_job (k = j) (resume_meta (rr_Jobs arg) k))) (j # post))) (db_jobs d)"
    "db_runs d1 = set_run (resume_run nowText (rr_ExpectedResumeCount arg + 1) stats r) (db_runs d)"
    "db_waves d1 = db_waves d" "db_nodes d1 = db_nodes d" "db_repos d1 = db_repos d"
    "ResumeCount (run_Stats r) = rr_ExpectedResumeCount arg" "run_Status r = RunStatusFail \<or> run_Status r = RunStatusCancelled"
proof -
  from rs obtain suffix d2 stats where
      suf: "failedJobSuffix (ListJobsByRunAttempt (run_ID r) (run_Attempt r) d) = Inr suffix"
      and d2: "res_iter (resumeJob (rr_Jobs arg)) (enumerate 0 suffix) d = Inr d2"
      and d1: "d1 = d2\<lparr>db_runs := update_where (\<lambda>k. run_ID k = run_ID r)
            (resume_run nowText (rr_ExpectedResumeCount arg + 1) stats) (db_runs d2)\<rparr>"
      and rc: "ResumeCount (run_Stats r) = rr_ExpectedResumeCount arg" "run_Status r = RunStatusFail \<or> run_Status r = RunStatusCancelled"
    by (auto simp: resumeFailedJobs_def res_bind_Inr_iff split: if_splits)
  let ?chain = "Order job_ID job_NextID (ListJobsByRunAttempt (run_ID r) (run_Attempt r) d)"
  have scan: "scanChain ?chain [] None = Inr (Some suffix)"
    using suf by (auto simp: failedJobSuffix_def res_bind_Inr_iff Let_def split: if_splits option.splits)
  obtain j0 where j0: "j0 \<in> set (db_jobs d)" "job_RunID j0 = run_ID r" "job_Attempt j0 = run_Attempt r"
    using inv r by (rule current_job)
  obtain r0 pre0 post0 where foc0: "job_focus d j0 r0 pre0 post0" using inv j0(1) by (rule job_focusE)
  have "r0 = r" using job_focusD(2,3) [OF foc0] j0(2) r distinct_key_eq [OF db_inv_keys(2) [OF inv]] by metis
  then have chain: "?chain = pre0 @ j0 # post0" using job_focus_Order [OF inv foc0] j0(3) by simp
  obtain pre j post n where c: "?chain = pre @ j # post" "suffix = j # post" "\<forall>k \<in> set pre. job_Status k = JobStatusSuccess"
    "job_Status j = JobStatusFail \<or> job_Status j = JobStatusError" "job_NodeID j = Some n" "n \<noteq> []"
    "IsCanonicalFullCommitSHA (job_RepoShaIn j)"
    "\<forall>k \<in> set post. job_Status k = JobStatusCancelled \<and> job_StartedAt k = None \<and> job_NodeID k = None"
    using scan by (rule scanChain_suffix)
  have "j \<in> set (pre0 @ j0 # post0)" using c(1) chain by simp
  then have j: "j \<in> set (db_jobs d)" "job_RunID j = run_ID r" "job_Attempt j = run_Attempt r"
    using job_focusD(5) [OF foc0] \<open>r0 = r\<close> j0(3) by auto
  have foc: "job_focus d j r pre post"
  proof -
    have eq: "pre0 @ j0 # post0 = pre @ j # post" using c(1) chain by simp
    show ?thesis using foc0 j(1,2) unfolding job_focus_def \<open>r0 = r\<close> eq j0(3) j(3) by blast
  qed
  have dist: "distinct (map job_ID (pre @ j # post))" using foc by (rule job_focus_distinct)
  then have notin: "j \<notin> set post" and ds: "distinct (map job_ID (j # post))" by auto
  have us: "map (\<lambda>(i, k). (job_ID k, reset_job (i = 0) (resume_meta (rr_Jobs arg) k))) (enumerate 0 (j # post)) =
      map (\<lambda>k. (job_ID k, reset_job (k = j) (resume_meta (rr_Jobs arg) k))) (j # post)"
    using enumerate_first [OF notin, of "\<lambda>b k. (job_ID k, reset_job b (resume_meta (rr_Jobs arg) k))"] .
  have jobs: "db_jobs d2 = map (apply_updates (map (\<lambda>k. (job_ID k, reset_job (k = j) (resume_meta (rr_Jobs arg) k))) (j # post))) (db_jobs d)"
    using resumeJobs_Inr [OF d2] unfolding c(2) us
    by (subst (asm) fold_at_id) (use ds in \<open>auto simp: comp_def\<close>)
  have "db_runs d1 = set_run (resume_run nowText (rr_ExpectedResumeCount arg + 1) stats r) (db_runs d)"
    using resumeJobs_Inr [OF d2] update_where_run [OF db_inv_keys(2) [OF inv] r]
    by (simp add: d1 resume_run_def)
  then show thesis
    using resumeJobs_Inr [OF d2] jobs by (intro that [OF foc j(3) c(3-8) _ _ _ _ _ rc]) (auto simp: d1)
qed

lemma reset_job_fields [simp]:
  "job_ID (reset_job b m k) = job_ID k" "job_NextID (reset_job b m k) = job_NextID k"
  "job_NodeID (reset_job b m k) = job_NodeID k"
  "job_Status (reset_job b m k) = (if b then JobStatusQueued else JobStatusCreated)"
  "job_RepoShaIn (reset_job True m k) = job_RepoShaIn k" "job_StartedAt (reset_job b m k) = None"
  "job_DurationMs (reset_job b m k) = 0"
  by (simp_all add: reset_job_def)

lemma reset_chain:
  assumes "chain_ok sha0 (pre @ j # post)"
  shows "map (apply_updates (map (\<lambda>k. (job_ID k, reset_job (k = j) (M k))) (j # post))) (pre @ j # post) =
    pre @ reset_job True (M j) j # map (\<lambda>k. reset_job False (M k) k) post"
proof -
  let ?us = "map (\<lambda>k. (job_ID k, reset_job (k = j) (M k))) (j # post)"
  have d: "distinct (map job_ID (pre @ j # post))" using assms by (rule chain_ok_distinct)
  then have ds: "distinct (map job_ID (j # post))" and notin: "j \<notin> set post" by auto
  have "map (apply_updates ?us) pre = pre"
    using d by (intro map_idI apply_updates_frame) (auto simp: image_image, metis disjoint_iff image_eqI)
  moreover have "map (apply_updates ?us) (j # post) = map (\<lambda>k. reset_job (k = j) (M k) k) (j # post)"
    by (rule map_apply_updates [OF ds])
  moreover have "map (\<lambda>k. reset_job (k = j) (M k) k) post = map (\<lambda>k. reset_job False (M k) k) post"
  proof (rule map_cong [OF refl])
    fix k assume "k \<in> set post"
    then have "(k = j) = False" using notin by auto
    then show "reset_job (k = j) (M k) k = reset_job False (M k) k" by simp
  qed
  ultimately show ?thesis by simp
qed

lemma chain_ok_reset:
  assumes ok: "chain_ok sha0 (pre @ j # post)" and pre: "\<forall>k \<in> set pre. job_Status k = JobStatusSuccess"
    and j: "job_NodeID j = Some n" "n \<noteq> []" and post: "\<forall>k \<in> set post. job_NodeID k = None"
  shows "chain_ok sha0 (map (apply_updates (map (\<lambda>k. (job_ID k, reset_job (k = j) (M k))) (j # post))) (pre @ j # post))"
  unfolding reset_chain [OF ok]
  by (rule chain_ok_resume [OF ok pre post]) (use j post in \<open>auto simp: job_ok_def\<close>)

text \<open>A resume: the failed job and the jobs behind it are reset, everything else stays.\<close>

definition resume_updates :: "JobPlan list \<Rightarrow> job \<Rightarrow> job list \<Rightarrow> job \<Rightarrow> job" where
  "resume_updates plans j post = apply_updates (map (\<lambda>k. (job_ID k, reset_job (k = j) (resume_meta plans k))) (j # post))"

lemma keeps_key_resume_updates [simp, intro]: "keeps_key (resume_updates plans j post)"
  unfolding resume_updates_def by (rule keeps_key_apply_updates) auto

lemma resume_updates_node: "job_NodeID (resume_updates plans j post k) = job_NodeID k"
  by (auto simp: resume_updates_def apply_updates_def split: option.splits dest!: map_of_SomeD)

lemma resume_updates_frame:
  assumes inv: "db_inv d" and foc: "job_focus d j r pre post" and k: "k \<in> set (db_jobs d)" "k \<notin> set (pre @ j # post)"
  shows "resume_updates plans j post k = k"
  unfolding resume_updates_def
proof (rule apply_updates_frame)
  have "job_ID k \<noteq> job_ID x" if "x \<in> set (j # post)" for x
  proof -
    have "x \<in> set (pre @ j # post)" using that by auto
    moreover from this have "x \<in> set (db_jobs d)" using job_focusD(5) [OF foc] by blast
    ultimately show ?thesis using distinct_key_eq [OF db_inv_keys(1) [OF inv]] k by metis
  qed
  then show "job_ID k \<notin> fst ` set (map (\<lambda>k. (job_ID k, reset_job (k = j) (resume_meta plans k))) (j # post))"
    by (simp only: set_map image_image fst_conv) blast
qed

lemma RestartRun_resume:
  assumes inv: "db_inv d" and resume: "rr_FromFailed arg" and rs: "RestartRun now nowText newJobID arg d = Inr (u, d')"
  obtains r w j pre post n stats where "r \<in> set (db_runs d)" "run_ID r = rr_RunID arg" "run_Attempt r = rr_ExpectedAttempt arg"
    "\<not> is_active_run r" "w \<in> set (db_waves d)" "wave_ID w = run_WaveID r" "wave_Status w \<noteq> WaveStatusCancelled"
    "requireRepoWithoutActiveRun (run_RepoID r) d = Inr ()"
    "job_focus d j r pre post" "job_Attempt j = run_Attempt r" "\<forall>k \<in> set pre. job_Status k = JobStatusSuccess"
    "job_Status j = JobStatusFail \<or> job_Status j = JobStatusError" "job_NodeID j = Some n" "n \<noteq> []"
    "\<forall>k \<in> set post. job_Status k = JobStatusCancelled \<and> job_StartedAt k = None \<and> job_NodeID k = None"
    "db_jobs d' = map (resume_updates (rr_Jobs arg) j post) (db_jobs d)"
    "db_runs d' = set_run (resume_run nowText (rr_ExpectedResumeCount arg + 1) stats r) (db_runs d)"
    "db_waves d' = db_waves (revive now w d)" "db_nodes d' = db_nodes d" "db_repos d' = db_repos d"
    "ResumeCount (run_Stats r) = rr_ExpectedResumeCount arg" "run_Status r = RunStatusFail \<or> run_Status r = RunStatusCancelled"
proof -
  obtain r w d1 where r: "r \<in> set (db_runs d)" "run_ID r = rr_RunID arg" "run_Attempt r = rr_ExpectedAttempt arg" "\<not> is_active_run r"
    and w: "w \<in> set (db_waves d)" "wave_ID w = run_WaveID r" "wave_Status w \<noteq> WaveStatusCancelled"
    and guard: "requireRepoWithoutActiveRun (run_RepoID r) d = Inr ()"
    and rf: "resumeFailedJobs nowText r arg d = Inr d1" and d': "d' = revive now w d1"
    using rs resume by (elim RestartRun_Inr) auto
  obtain j pre post n stats where foc: "job_focus d j r pre post" "job_Attempt j = run_Attempt r"
    and j: "\<forall>k \<in> set pre. job_Status k = JobStatusSuccess" "job_Status j = JobStatusFail \<or> job_Status j = JobStatusError"
      "job_NodeID j = Some n" "n \<noteq> []"
    and post: "\<forall>k \<in> set post. job_Status k = JobStatusCancelled \<and> job_StartedAt k = None \<and> job_NodeID k = None"
    and d1: "db_jobs d1 = map (apply_updates (map (\<lambda>k. (job_ID k, reset_job (k = j) (resume_meta (rr_Jobs arg) k))) (j # post))) (db_jobs d)"
      "db_runs d1 = set_run (resume_run nowText (rr_ExpectedResumeCount arg + 1) stats r) (db_runs d)"
      "db_waves d1 = db_waves d" "db_nodes d1 = db_nodes d" "db_repos d1 = db_repos d"
      "ResumeCount (run_Stats r) = rr_ExpectedResumeCount arg" "run_Status r = RunStatusFail \<or> run_Status r = RunStatusCancelled"
    using inv r(1) rf by (rule resumeFailedJobs_Inr)
  have "db_waves d' = db_waves (revive now w d)" using d1(3) by (simp add: d' revive_def UpdateWaveStatus_def)
  with r w guard foc j post d1 show thesis
    by (intro that [of r w j pre post n stats]) (simp_all add: d' resume_updates_def)
qed

lemma run_ok_resume:
  assumes inv: "db_inv d" and foc: "job_focus d j r pre post" "job_Attempt j = run_Attempt r" and ina: "\<not> is_active_run r"
    and r': "run_Attempt r' = run_Attempt r" "run_RepoSha0 r' = run_RepoSha0 r" "run_RepoID r' = run_RepoID r"
      "run_Status r' = RunStatusRunning"
    and chain: "chain_ok (run_RepoSha0 r) (map (resume_updates plans j post) (pre @ j # post))"
  shows "run_ok (map (resume_updates plans j post) (run_jobs (run_ID r) (db_jobs d))) r'"
proof (rule run_ok_update [OF _ keeps_key_resume_updates r'(1-3)])
  let ?js = "run_jobs (run_ID r) (db_jobs d)" and ?f = "resume_updates plans j post"
  note mem = job_focusD(5) [OF foc(1)] and frame = resume_updates_frame [OF inv foc(1), where plans = plans]
  show ok: "run_ok ?js r" using inv job_focusD(2) [OF foc(1)] by (rule db_inv_run_ok)
  have inactive: "\<not> is_active_job k" if "k \<in> set ?js" for k using ok ina that by (auto simp: run_ok_def)
  show "chain_ok (run_RepoSha0 r) (map ?f c)" if c: "mset c = mset (attempt_of a ?js)" "chain_ok (run_RepoSha0 r) c" for a c
  proof (rule chains_at_attempt [OF _ _ c])
    show "?f k = k" if "k \<in> set ?js" "job_Attempt k \<noteq> run_Attempt r" for k
      using that frame mem foc(2) by (metis set_run_jobs)
    fix c' assume c': "mset c' = mset (attempt_of (run_Attempt r) ?js)" "chain_ok (run_RepoSha0 r) c'"
    have "c' = pre @ j # post"
    proof (rule chain_unique [OF c'(2) job_focusD(4) [OF foc(1)]])
      show "mset c' = mset (pre @ j # post)" using foc c'(1) by (simp add: job_focus_def)
      then show "\<forall>k \<in> set c'. \<not> IsEmpty (job_ID k)" using mem inv by (metis db_inv_keys(5) mset_eq_setD)
    qed
    then show "chain_ok (run_RepoSha0 r) (map ?f c')" using chain by simp
  qed
  show "job_Attempt k = run_Attempt r \<and> is_active_run r'" if "k \<in> set ?js" "is_active_job (?f k)" for k
  proof -
    have "k \<in> set (pre @ j # post)" using that frame inactive by (metis set_run_jobs)
    then have "job_Attempt k = job_Attempt j" using mem by blast
    then show ?thesis using foc(2) r'(4) by (simp add: is_active_run_def)
  qed
  have "is_active_job (?f j)" by (simp add: resume_updates_def apply_updates_def is_active_job_def)
  then show "\<exists>k \<in> set (attempt_of (run_Attempt r) ?js). is_active_job (?f k)"
    using job_focusD(1,3) [OF foc(1)] foc(2) by auto
qed (use r' in simp_all)

lemma RestartRun_resume_inv:
  assumes inv: "db_inv d" and resume: "rr_FromFailed arg"
    and rs: "RestartRun now nowText newJobID arg d = Inr (u, d')"
  shows "db_inv d'"
proof -
  obtain r w j pre post n stats where r: "r \<in> set (db_runs d)" "\<not> is_active_run r"
    and w: "w \<in> set (db_waves d)" "wave_ID w = run_WaveID r" "wave_Status w \<noteq> WaveStatusCancelled"
    and guard: "requireRepoWithoutActiveRun (run_RepoID r) d = Inr ()"
    and foc: "job_focus d j r pre post" "job_Attempt j = run_Attempt r"
    and j: "\<forall>k \<in> set pre. job_Status k = JobStatusSuccess" "job_NodeID j = Some n" "n \<noteq> []"
    and post: "\<forall>k \<in> set post. job_Status k = JobStatusCancelled \<and> job_StartedAt k = None \<and> job_NodeID k = None"
    and d': "db_jobs d' = map (resume_updates (rr_Jobs arg) j post) (db_jobs d)"
      "db_runs d' = set_run (resume_run nowText (rr_ExpectedResumeCount arg + 1) stats r) (db_runs d)"
      "db_waves d' = db_waves (revive now w d)" "db_nodes d' = db_nodes d" "db_repos d' = db_repos d"
    using inv resume rs by (rule RestartRun_resume)
  let ?f = "resume_updates (rr_Jobs arg) j post"
  define r' where "r' = resume_run nowText (rr_ExpectedResumeCount arg + 1) stats r"
  have rk: "run_ID r' = run_ID r" "run_WaveID r' = run_WaveID r" "run_RepoID r' = run_RepoID r"
      "run_Attempt r' = run_Attempt r" "run_RepoSha0 r' = run_RepoSha0 r" "run_Status r' = RunStatusRunning"
    by (simp_all add: r'_def resume_run_def)
  have chain: "chain_ok (run_RepoSha0 r) (map ?f (pre @ j # post))"
    unfolding resume_updates_def using chain_ok_reset [OF job_focusD(4) [OF foc(1)] j] post by blast
  show ?thesis
  proof (rule db_inv_run_update [OF revive_inv [OF inv, of now w] _ keeps_key_resume_updates _ rk(1-3)])
    show "?f k = k" if "k \<in> set (db_jobs (revive now w d))" "job_RunID k \<noteq> run_ID r" for k
      using that resume_updates_frame [OF inv foc(1)] job_focusD(5) [OF foc(1)] unfolding revive_fields by blast
    show "run_ok (map ?f (run_jobs (run_ID r) (db_jobs (revive now w d)))) r'"
      using run_ok_resume [OF inv foc r(2) rk(4,5,3,6) chain] by simp
    show "(\<forall>s \<in> set (db_runs (revive now w d)). is_active_run s \<longrightarrow> run_RepoID s = run_RepoID r \<longrightarrow> run_ID s = run_ID r) \<and>
      (\<forall>x \<in> set (db_waves (revive now w d)). wave_ID x = run_WaveID r \<longrightarrow> wave_Status x = WaveStatusStarted)"
    proof (intro conjI ballI impI)
      have repo: "run_RepoID r \<in> repo_ID ` set (db_repos d)" using inv r(1) by (simp add: db_inv_def refs_ok_def)
      show "run_ID s = run_ID r" if "s \<in> set (db_runs (revive now w d))" "is_active_run s" "run_RepoID s = run_RepoID r" for s
        using requireRepo_Inr [OF guard repo] that by simp
      show "wave_Status x = WaveStatusStarted" if "x \<in> set (db_waves (revive now w d))" "wave_ID x = run_WaveID r" for x
        using revive_started [OF inv w(1,3)] that w(2) by simp
    qed
    show "m \<in> node_ID ` set (db_nodes (revive now w d))"
      if "k \<in> set (db_jobs (revive now w d))" "job_NodeID (?f k) = Some m" for k m
      using that inv resume_updates_node by (simp add: db_inv_def refs_ok_def)
  qed (use r(1) d' in \<open>simp_all add: r'_def\<close>)
qed

lemma RestartRun_inv:
  assumes "db_inv d" "\<forall>i. \<not> IsEmpty (newJobID i)" "RestartRun now nowText newJobID arg d = Inr (u, d')"
  shows "db_inv d'"
  using assms RestartRun_full_inv RestartRun_resume_inv by (cases "rr_FromFailed arg") blast+

end
