(* ===== verification/Recovery.thy ===== *)
theory Recovery
  imports Restart_Safety
begin

text \<open>
  \<^verbatim>\<open>internal/server/recovery\<close>: deriving \<^verbatim>\<open>runs.status\<close> from the jobs of an attempt
  (\<^verbatim>\<open>reconcile_repo_attempt.go\<close>), finishing the wave when all its runs are terminal
  (\<^verbatim>\<open>reconcile.go\<close>) and the periodic recovery of jobs on stale nodes
  (\<^verbatim>\<open>stale_job_recovery_task.go\<close>). Log lines, counters for the log and the event stream are left out.

  The lemmas show that an attempt is finalised exactly when it has jobs and all are terminal, which
  status a well-formed chain gets, that a wave is finished exactly when all its runs are
  terminal, and that reconciliation and recovery keep \<open>db_inv\<close>.
\<close>

section \<open>Evaluating an attempt\<close>

text \<open>\<^verbatim>\<open>NextID *int64\<close> decoded from the \<^verbatim>\<open>meta\<close> document.\<close>

definition nextIDFromMeta :: "json \<Rightarrow> int option" where
  "nextIDFromMeta meta =
     (case json_field ''next_id'' meta of
        Some (JInt n) \<Rightarrow> if - (2 ^ 63) \<le> n \<and> n < 2 ^ 63 then Some n else None
      | _ \<Rightarrow> None)"

text \<open>The zero \<^verbatim>\<open>RunStatus\<close> of an evaluation that updates nothing is \<open>None\<close>.\<close>

record RunAttemptReconcileEval =
  ShouldUpdate :: bool
  eval_Status :: "run_status option"
  LastJob :: "job option"

datatype recovery_error = RecoveryStore store_error | UnexpectedLastJobStatus job_status job_id

definition terminal_job_status :: "job_status \<Rightarrow> bool" where
  "terminal_job_status s \<longleftrightarrow> s \<in> {JobStatusSuccess, JobStatusFail, JobStatusError, JobStatusCancelled}"

text \<open>The three candidates of the loop; \<open>None\<close> is its early return at a job that is not terminal.\<close>

definition better_job :: "job \<Rightarrow> job option \<Rightarrow> job option" where
  "better_job j best = (case best of None \<Rightarrow> Some j | Some b \<Rightarrow> if job_ID j > job_ID b then Some j else Some b)"

definition better_meta :: "job \<Rightarrow> (int \<times> job) option \<Rightarrow> (int \<times> job) option" where
  "better_meta j best =
     (case nextIDFromMeta (job_Meta j) of
        None \<Rightarrow> best
      | Some n \<Rightarrow> (case best of
            None \<Rightarrow> Some (n, j)
          | Some (m, b) \<Rightarrow> if n > m \<or> (n = m \<and> job_ID j > job_ID b) then Some (n, j) else Some (m, b)))"

definition is_tail :: "job \<Rightarrow> bool" where
  "is_tail j \<longleftrightarrow> (case job_NextID j of None \<Rightarrow> True | Some n \<Rightarrow> IsEmpty n)"

fun scanAttempt ::
  "job list \<Rightarrow> (int \<times> job) option \<Rightarrow> job option \<Rightarrow> job option \<Rightarrow> ((int \<times> job) option \<times> job option \<times> job option) option"
where
  "scanAttempt [] byNextIDMeta bestTail bestFallback = Some (byNextIDMeta, bestTail, bestFallback)"
| "scanAttempt (job # jobs) byNextIDMeta bestTail bestFallback =
     (if \<not> terminal_job_status (job_Status job) then None
      else scanAttempt jobs (better_meta job byNextIDMeta)
        (if is_tail job then better_job job bestTail else bestTail) (better_job job bestFallback))"

definition no_update :: RunAttemptReconcileEval where
  "no_update = \<lparr>ShouldUpdate = False, eval_Status = None, LastJob = None\<rparr>"

definition EvaluateRunAttemptTerminalStatus :: "job list \<Rightarrow> recovery_error + RunAttemptReconcileEval" where
  "EvaluateRunAttemptTerminalStatus jobs =
     (case scanAttempt jobs None None None of
        None \<Rightarrow> Inr no_update
      | Some (byNextIDMeta, bestTail, bestFallback) \<Rightarrow>
          (case bestFallback of
             None \<Rightarrow> Inr no_update
           | Some fallback \<Rightarrow>
               let lastJob = (case byNextIDMeta of
                     Some (_, j) \<Rightarrow> j
                   | None \<Rightarrow> (case bestTail of Some j \<Rightarrow> j | None \<Rightarrow> fallback));
                   finish = (\<lambda>s. Inr \<lparr>ShouldUpdate = True, eval_Status = Some s, LastJob = Some lastJob\<rparr>)
               in case job_Status lastJob of
                    JobStatusSuccess \<Rightarrow> finish RunStatusSuccess
                  | JobStatusFail \<Rightarrow> finish RunStatusFail
                  | JobStatusError \<Rightarrow> finish RunStatusFail
                  | JobStatusCancelled \<Rightarrow> finish RunStatusCancelled
                  | s \<Rightarrow> Inl (UnexpectedLastJobStatus s (job_ID lastJob))))"

section \<open>Reconciliation\<close>

definition MaybeUpdateRunStatus :: "timestamp \<Rightarrow> run_id \<Rightarrow> int \<Rightarrow> db \<Rightarrow> recovery_error + bool \<times> db" where
  "MaybeUpdateRunStatus now runID attempt d =
     res_bind (EvaluateRunAttemptTerminalStatus (ListJobsByRunAttempt runID attempt d)) (\<lambda>eval.
       case eval_Status eval of
         Some s \<Rightarrow> if ShouldUpdate eval then Inr (True, UpdateRunStatus now runID s d) else Inr (False, d)
       | None \<Rightarrow> Inr (False, d))"

text \<open>
  The function reads the wave and the counts, reads the wave again and then writes. It is no
  transaction, so others may commit in between: \<open>d\<close> is the database at the first two reads and \<open>d'\<close>
  at the second read of the wave. \<open>MaybeCompleteRunIfAllReposTerminal\<close> is the run without interference.
\<close>

definition MaybeCompleteRun_reads :: "run \<Rightarrow> db \<Rightarrow> db \<Rightarrow> store_error + bool" where
  "MaybeCompleteRun_reads r d d' =
     res_bind (GetWave (run_WaveID r) d) (\<lambda>w.
       if IsTerminalWaveStatus (wave_Status w) then Inr False
       else res_bind (CountRunsByWaveStatus (run_WaveID r) d) (\<lambda>counts.
         if \<not> ShouldFinish (EvaluateWaveCompletionFromRunCounts counts) then Inr False
         else res_bind (GetWave (run_WaveID r) d') (\<lambda>currentWave.
           Inr (\<not> IsTerminalWaveStatus (wave_Status currentWave)))))"

definition MaybeCompleteRunIfAllReposTerminal :: "timestamp \<Rightarrow> run \<Rightarrow> db \<Rightarrow> store_error + bool \<times> db" where
  "MaybeCompleteRunIfAllReposTerminal now r d =
     res_bind (MaybeCompleteRun_reads r d d) (\<lambda>complete.
       if complete then Inr (True, UpdateWaveStatus now (run_WaveID r) WaveStatusFinished d) else Inr (False, d))"

section \<open>Recovery of stale jobs\<close>

text \<open>
  One row of the recovery loop. A failing call ends the row with the changes made so far. The second
  component collects the runs whose wave the cycle finished (\<^verbatim>\<open>finalizedRuns\<close>).
\<close>

definition recoverRow :: "timestamp \<Rightarrow> run_id \<times> int \<times> nat \<Rightarrow> run_id list \<times> db \<Rightarrow> run_id list \<times> db" where
  "recoverRow now = (\<lambda>(runID, attempt, _) (finalized, d).
     let d1 = snd (CancelActiveJobsByRunAttempt now runID attempt d) in
     case MaybeUpdateRunStatus now runID attempt d1 of
       Inl _ \<Rightarrow> (finalized, d1)
     | Inr (runUpdated, d2) \<Rightarrow>
         if \<not> runUpdated \<or> runID \<in> set finalized then (finalized, d2)
         else (case GetRun runID d2 of
             Inl _ \<Rightarrow> (finalized, d2)
           | Inr r \<Rightarrow> (case MaybeCompleteRunIfAllReposTerminal now r d2 of
                 Inl _ \<Rightarrow> (finalized, d2)
               | Inr (done', d3) \<Rightarrow> (if done' then runID # finalized else finalized, d3))))"

text \<open>\<open>goNow\<close> is the clock of the server process, \<open>now\<close> that of the database.\<close>

definition StaleJobRecoveryTask_Run :: "timestamp \<Rightarrow> timestamp \<Rightarrow> int \<Rightarrow> db \<Rightarrow> run_id list \<times> db" where
  "StaleJobRecoveryTask_Run now goNow nodeStaleAfter d =
     fold (recoverRow now) (ListStaleRunningJobs (goNow - nodeStaleAfter) d) ([], d)"

definition defaultStaleJobRecoveryInterval :: int where
  "defaultStaleJobRecoveryInterval = 30000000"

definition defaultNodeStaleAfter :: int where
  "defaultNodeStaleAfter = 60000000"

text \<open>The two durations of a task, in microseconds, with the defaults of \<^verbatim>\<open>NewStaleJobRecoveryTask\<close>.\<close>

definition NewStaleJobRecoveryTask :: "int \<Rightarrow> int \<Rightarrow> int \<times> int" where
  "NewStaleJobRecoveryTask interval nodeStaleAfter =
     (if interval \<le> 0 then defaultStaleJobRecoveryInterval else interval,
      if nodeStaleAfter \<le> 0 then defaultNodeStaleAfter else nodeStaleAfter)"

section \<open>When an attempt is finalised\<close>

lemma terminal_iff_inactive: "terminal_job_status s \<longleftrightarrow> \<not> active_status s"
  by (cases s) (auto simp: terminal_job_status_def active_status_def)

lemma scanAttempt_None: "scanAttempt js m t f = None \<longleftrightarrow> (\<exists>j \<in> set js. \<not> terminal_job_status (job_Status j))"
  by (induction js arbitrary: m t f) auto

lemma better_job_cases:
  "(better_job j best = Some j \<or> better_job j best = best) \<and> better_job j best \<noteq> None"
  by (auto simp: better_job_def split: option.splits)

lemma better_meta_cases: "better_meta j best = best \<or> (\<exists>n. better_meta j best = Some (n, j))"
  by (auto simp: better_meta_def split: option.splits)

lemma better_meta_None: "better_meta j best = None \<longleftrightarrow> best = None \<and> nextIDFromMeta (job_Meta j) = None"
  by (auto simp: better_meta_def split: option.splits)

lemma scanAttempt_found:
  assumes "scanAttempt js m t f = Some (m', t', f')"
  shows "(t' = None \<longleftrightarrow> t = None \<and> (\<forall>j \<in> set js. \<not> is_tail j)) \<and>
    (m' = None \<longleftrightarrow> m = None \<and> (\<forall>j \<in> set js. nextIDFromMeta (job_Meta j) = None))"
  using assms
proof (induction js arbitrary: m t f)
  case (Cons x js)
  let ?t = "if is_tail x then better_job x t else t"
  from Cons.prems have rec: "scanAttempt js (better_meta x m) ?t (better_job x f) = Some (m', t', f')"
    by (auto split: if_splits)
  show ?case
    using Cons.IH [OF rec] better_job_cases [of x t] by (auto simp: better_meta_None)
qed auto

text \<open>Every candidate is one of the scanned jobs or was there before, and a scanned job leaves a fallback.\<close>

lemma scanAttempt_candidates:
  assumes "scanAttempt js m t f = Some (m', t', f')"
  shows "(f' = None \<longleftrightarrow> js = [] \<and> f = None) \<and> (\<forall>j. f' = Some j \<longrightarrow> f = Some j \<or> j \<in> set js) \<and>
    (\<forall>j. t' = Some j \<longrightarrow> t = Some j \<or> j \<in> set js \<and> is_tail j) \<and>
    (\<forall>n j. m' = Some (n, j) \<longrightarrow> m = Some (n, j) \<or> j \<in> set js)"
  using assms
proof (induction js arbitrary: m t f)
  case (Cons x js)
  let ?t = "if is_tail x then better_job x t else t"
  from Cons.prems have rec: "scanAttempt js (better_meta x m) ?t (better_job x f) = Some (m', t', f')"
    by (auto split: if_splits)
  show ?case
    using Cons.IH [OF rec] better_job_cases [of x f] better_job_cases [of x t] better_meta_cases [of x m]
    by (auto split: if_splits)
qed auto

text \<open>The run status a last job stands for.\<close>

fun run_status_of :: "job_status \<Rightarrow> run_status" where
  "run_status_of JobStatusSuccess = RunStatusSuccess"
| "run_status_of JobStatusFail = RunStatusFail"
| "run_status_of JobStatusError = RunStatusFail"
| "run_status_of _ = RunStatusCancelled"

lemma run_status_of_terminal [simp]: "IsTerminalRunStatus (run_status_of s)"
  by (cases s) simp_all

definition finish_eval :: "job \<Rightarrow> RunAttemptReconcileEval" where
  "finish_eval j = \<lparr>ShouldUpdate = True, eval_Status = Some (run_status_of (job_Status j)), LastJob = Some j\<rparr>"

lemma Evaluate_active:
  assumes "js = [] \<or> (\<exists>j \<in> set js. active_status (job_Status j))"
  shows "EvaluateRunAttemptTerminalStatus js = Inr no_update"
proof (cases "js = []")
  case False
  then have "scanAttempt js None None None = None"
    using assms by (simp add: scanAttempt_None terminal_iff_inactive)
  then show ?thesis by (simp add: EvaluateRunAttemptTerminalStatus_def)
qed (simp add: EvaluateRunAttemptTerminalStatus_def)

lemma Evaluate_terminal:
  assumes ne: "js \<noteq> []" and fin: "\<forall>j \<in> set js. \<not> active_status (job_Status j)"
  obtains m t f lastJob where "scanAttempt js None None None = Some (m, t, Some f)" "f \<in> set js"
    "lastJob = (case m of Some (_, j) \<Rightarrow> j | None \<Rightarrow> (case t of Some j \<Rightarrow> j | None \<Rightarrow> f))" "lastJob \<in> set js"
    "EvaluateRunAttemptTerminalStatus js = Inr (finish_eval lastJob)"
proof -
  have "scanAttempt js None None None \<noteq> None" using fin by (simp add: scanAttempt_None terminal_iff_inactive)
  then obtain m t f' where sc: "scanAttempt js None None None = Some (m, t, f')" by (metis option.exhaust prod_cases3)
  note cand = scanAttempt_candidates [OF sc]
  obtain f where f: "f' = Some f" using cand ne by (cases f') auto
  define l where "l = (case m of Some (_, j) \<Rightarrow> j | None \<Rightarrow> (case t of Some j \<Rightarrow> j | None \<Rightarrow> f))"
  have l: "l \<in> set js" and fi: "f \<in> set js"
    using cand f by (auto simp: l_def split: option.splits)
  then have st: "\<not> active_status (job_Status l)" using fin by blast
  have "EvaluateRunAttemptTerminalStatus js = Inr (finish_eval l)"
    using st by (cases "job_Status l")
      (auto simp: EvaluateRunAttemptTerminalStatus_def sc f l_def [symmetric] finish_eval_def active_status_def)
  with sc f fi l show thesis by (intro that [of m t f l]) (auto simp: l_def)
qed

section \<open>The status of a well-formed chain\<close>

lemma chain_tail_iff:
  assumes c: "chain_ok sha0 c" and ids: "\<forall>j \<in> set c. \<not> IsEmpty (job_ID j)" and j: "j \<in> set c"
  shows "is_tail j \<longleftrightarrow> j = last c"
proof -
  obtain pre post where s: "c = pre @ j # post" using j by (auto simp: in_set_conv_decomp)
  have n: "job_NextID j = (case post of [] \<Rightarrow> None | y # _ \<Rightarrow> Some (job_ID y))"
    using c s by (intro is_chain_at [of job_ID job_NextID pre]) (simp add: chain_ok_def)
  show ?thesis
  proof (cases post)
    case (Cons y ys)
    then have "last c \<noteq> j" using chain_ok_distinct [OF c] s by (auto simp: last_append)
    with Cons n ids s show ?thesis by (auto simp: is_tail_def)
  qed (use n s in \<open>simp add: is_tail_def\<close>)
qed

lemma Evaluate_chain:
  assumes c: "chain_ok sha0 c" and ids: "\<forall>j \<in> set c. \<not> IsEmpty (job_ID j)" and js: "mset js = mset c" "c \<noteq> []"
    and fin: "\<forall>j \<in> set c. \<not> active_status (job_Status j)"
    and meta: "\<forall>j \<in> set c. nextIDFromMeta (job_Meta j) = None"
  shows "EvaluateRunAttemptTerminalStatus js = Inr (finish_eval (last c))"
proof -
  have s: "set js = set c" using js(1) by (rule mset_eq_setD)
  obtain m t f l where sc: "scanAttempt js None None None = Some (m, t, Some f)"
      and l: "l = (case m of Some (_, j) \<Rightarrow> j | None \<Rightarrow> (case t of Some j \<Rightarrow> j | None \<Rightarrow> f))"
      and e: "EvaluateRunAttemptTerminalStatus js = Inr (finish_eval l)"
    by (rule Evaluate_terminal [of js]) (use js fin s in auto)
  have tail: "is_tail (last c)" using chain_tail_iff [OF c ids] js(2) by simp
  have "m = None" using scanAttempt_found [OF sc] meta s by auto
  moreover have "t \<noteq> None" using scanAttempt_found [OF sc] tail js(2) s by auto
  then obtain k where k: "t = Some k" by blast
  then have "k \<in> set c \<and> is_tail k" using scanAttempt_candidates [OF sc] s by simp
  then have "k = last c" using chain_tail_iff [OF c ids] by blast
  ultimately show ?thesis using e l k by simp
qed

text \<open>A chain without active jobs: the last job succeeded exactly when all did.\<close>

lemma chain_shape_last:
  assumes "chain_shape ss" "ss \<noteq> []"
  shows "last ss = JobStatusSuccess \<longleftrightarrow> (\<forall>s \<in> set ss. s = JobStatusSuccess)"
  using assms
proof (induction ss)
  case (Cons s ss)
  then show ?case by (cases s) (auto split: if_splits dest: bspec [OF _ last_in_set])
qed simp

lemma chain_shape_last_failed:
  assumes "chain_shape ss" "ss \<noteq> []" "last ss \<in> {JobStatusFail, JobStatusError}"
  shows "\<forall>s \<in> set (butlast ss). s = JobStatusSuccess"
  using assms
proof (induction ss)
  case (Cons s ss)
  then show ?case by (cases s) (auto split: if_splits dest: bspec [OF _ last_in_set])
qed simp

section \<open>Reconciliation and the invariant\<close>

lemma set_ListJobsByRunAttempt:
  "set (ListJobsByRunAttempt i a d) = {j \<in> set (db_jobs d). job_RunID j = i \<and> job_Attempt j = a}"
  by (auto simp: ListJobsByRunAttempt_def)

lemma MaybeUpdate_active:
  assumes "\<exists>j \<in> set (db_jobs d). job_RunID j = i \<and> job_Attempt j = a \<and> is_active_job j"
  shows "MaybeUpdateRunStatus now i a d = Inr (False, d)"
proof -
  have "EvaluateRunAttemptTerminalStatus (ListJobsByRunAttempt i a d) = Inr no_update"
    using assms by (intro Evaluate_active) (auto simp: set_ListJobsByRunAttempt is_active_job_status)
  then show ?thesis by (simp add: MaybeUpdateRunStatus_def no_update_def)
qed

lemma MaybeUpdate_terminal:
  assumes ne: "\<exists>j \<in> set (db_jobs d). job_RunID j = i \<and> job_Attempt j = a"
    and fin: "\<forall>j \<in> set (db_jobs d). job_RunID j = i \<and> job_Attempt j = a \<longrightarrow> \<not> is_active_job j"
  obtains j where "j \<in> set (db_jobs d)" "job_RunID j = i" "job_Attempt j = a"
    "EvaluateRunAttemptTerminalStatus (ListJobsByRunAttempt i a d) = Inr (finish_eval j)"
    "MaybeUpdateRunStatus now i a d = Inr (True, UpdateRunStatus now i (run_status_of (job_Status j)) d)"
proof -
  let ?js = "ListJobsByRunAttempt i a d"
  have "?js \<noteq> []" using ne set_ListJobsByRunAttempt [of i a d] by (cases ?js) auto
  moreover have "\<forall>j \<in> set ?js. \<not> active_status (job_Status j)"
    using fin by (auto simp: set_ListJobsByRunAttempt is_active_job_status)
  ultimately obtain l where "l \<in> set ?js" "EvaluateRunAttemptTerminalStatus ?js = Inr (finish_eval l)"
    by (rule Evaluate_terminal)
  then show thesis
    by (intro that [of l]) (auto simp: set_ListJobsByRunAttempt MaybeUpdateRunStatus_def finish_eval_def)
qed

lemma set_run_status_fields [simp]:
  "run_ID (set_run_status now s r) = run_ID r" "run_WaveID (set_run_status now s r) = run_WaveID r"
  "run_RepoID (set_run_status now s r) = run_RepoID r" "run_Attempt (set_run_status now s r) = run_Attempt r"
  "run_RepoSha0 (set_run_status now s r) = run_RepoSha0 r" "run_Status (set_run_status now s r) = s"
  "run_Stats (set_run_status now s r) = run_Stats r" "run_LastError (set_run_status now s r) = run_LastError r"
  by (simp_all add: set_run_status_def)

lemma UpdateRunStatus_fields [simp]:
  "db_jobs (UpdateRunStatus now i s d) = db_jobs d" "db_waves (UpdateRunStatus now i s d) = db_waves d"
  "db_nodes (UpdateRunStatus now i s d) = db_nodes d" "db_repos (UpdateRunStatus now i s d) = db_repos d"
  by (simp_all add: UpdateRunStatus_def)

lemma CancelAttempt_map:
  assumes inv: "db_inv d" and r: "r \<in> set (db_runs d)"
  shows "snd (CancelActiveJobsByRunAttempt now (run_ID r) (run_Attempt r) d) =
    d\<lparr>db_jobs := map (cancel_jobs_of now {run_ID r}) (db_jobs d)\<rparr>"
proof -
  have "is_active_job j \<Longrightarrow> job_Attempt j = run_Attempt r" if "j \<in> set (db_jobs d)" "job_RunID j = run_ID r" for j
    using db_inv_run_ok [OF inv r] that by (auto simp: run_ok_def)
  then have "update_where (\<lambda>j. job_RunID j = run_ID r \<and> job_Attempt j = run_Attempt r \<and> is_active_job j)
      (cancel_active_job now) (db_jobs d) = map (cancel_jobs_of now {run_ID r}) (db_jobs d)"
    by (auto simp: update_where_def cancel_jobs_of_def cancel_if_active_def)
  then show ?thesis by (simp add: CancelActiveJobsByRunAttempt_def)
qed

text \<open>Cancelling the current attempt and setting the derived status, as recovery does for a row.\<close>

lemma recover_run_inv:
  assumes inv: "db_inv d" and r: "r \<in> set (db_runs d)" and s: "IsTerminalRunStatus s"
  shows "db_inv (UpdateRunStatus now (run_ID r) s (d\<lparr>db_jobs := map (cancel_jobs_of now {run_ID r}) (db_jobs d)\<rparr>))"
proof (rule db_inv_run_update [OF inv r, where f = "cancel_jobs_of now {run_ID r}" and r' = "set_run_status now s r"])
  show "run_ok (map (cancel_jobs_of now {run_ID r}) (run_jobs (run_ID r) (db_jobs d))) (set_run_status now s r)"
    using run_ok_cancel [OF db_inv_run_ok [OF inv r]] s by (simp add: cancel_jobs_of_run_jobs active_run_iff)
  show "n \<in> node_ID ` set (db_nodes d)"
    if "j \<in> set (db_jobs d)" "job_NodeID (cancel_jobs_of now {run_ID r} j) = Some n" for j n
    using inv that by (auto simp: db_inv_def refs_ok_def cancel_jobs_of_def split: if_splits)
qed (use s r db_inv_keys(2) [OF inv] in \<open>auto simp: cancel_jobs_of_def active_run_iff UpdateRunStatus_def update_where_run\<close>)

lemma finish_wave_inv:
  assumes inv: "db_inv d" and fin: "\<forall>r \<in> set (db_runs d). run_WaveID r = w \<longrightarrow> \<not> is_active_run r"
  shows "db_inv (UpdateWaveStatus now w WaveStatusFinished d)"
  by (rule db_inv_update [OF inv, where f = "\<lambda>j. j" and g = "\<lambda>r. r" and
        h = "\<lambda>v. if wave_ID v = w then set_wave_status now WaveStatusFinished v else v"])
    (use fin in \<open>auto simp: UpdateWaveStatus_def update_where_def set_wave_status_def db_inv_run_ok [OF inv]\<close>)

section \<open>Finishing the wave\<close>

definition wave_runs :: "wave_id \<Rightarrow> db \<Rightarrow> run list" where
  "wave_runs w d = filter (\<lambda>r. run_WaveID r = w) (db_runs d)"

lemma CountRuns_group:
  assumes "CountRunsByWaveStatus w d = Inr rows"
  shows "group_by_status (map run_Status (wave_runs w d)) rows"
proof -
  let ?ss = "map run_Status (wave_runs w d)"
  have rows: "rows = map (\<lambda>s. \<lparr>row_Status = s, row_Count = word_of_nat (count_list ?ss s)\<rparr>)
      (filter (\<lambda>s. s \<in> set ?ss) run_statuses)"
    using assms unfolding wave_runs_def by (auto simp: CountRunsByWaveStatus_def Let_def split: if_splits)
  have all: "s \<in> set run_statuses" for s by (cases s) (simp_all add: run_statuses_def)
  have "distinct run_statuses" by (simp add: run_statuses_def)
  then have "distinct (map row_Status rows)" unfolding rows by (simp add: comp_def)
  moreover have "row_Status ` set rows = set ?ss" unfolding rows using all by (auto simp: image_image)
  ultimately show ?thesis unfolding group_by_status_def rows by auto
qed

lemma CountRuns_small:
  assumes "length (wave_runs w d) < 2 ^ 31"
  obtains rows where "CountRunsByWaveStatus w d = Inr rows"
proof -
  have "int (count_list (map run_Status (wave_runs w d)) s) < 2 ^ 31" for s
    using assms count_le_length [of "map run_Status (wave_runs w d)" s] by simp
  then show thesis
    using that by (auto simp: CountRunsByWaveStatus_def wave_runs_def [symmetric] Let_def linorder_not_le [symmetric] simp del: linorder_not_le)
qed

lemma MaybeComplete_eq:
  assumes small: "length (wave_runs (run_WaveID r) d) < 2 ^ 31" and w: "GetWave (run_WaveID r) d = Inr w"
  shows "MaybeCompleteRunIfAllReposTerminal now r d =
    (if wave_Status w = WaveStatusStarted \<and> wave_runs (run_WaveID r) d \<noteq> [] \<and>
        (\<forall>s \<in> set (wave_runs (run_WaveID r) d). IsTerminalRunStatus (run_Status s))
     then Inr (True, UpdateWaveStatus now (run_WaveID r) WaveStatusFinished d) else Inr (False, d))"
proof -
  obtain rows where rows: "CountRunsByWaveStatus (run_WaveID r) d = Inr rows" using small by (rule CountRuns_small)
  have "EvaluateWaveCompletionFromRunCounts rows = (let ss = map run_Status (wave_runs (run_WaveID r) d) in
      if ss = [] \<or> (\<exists>s \<in> set ss. \<not> IsTerminalRunStatus s) then \<lparr>ShouldFinish = False, RunState = None\<rparr>
      else \<lparr>ShouldFinish = True, RunState = Some (if RunStatusFail \<in> set ss then RunStateFailed
        else if RunStatusCancelled \<in> set ss then RunStateCancelled else RunStateSucceeded)\<rparr>)"
    unfolding Let_def using small by (intro EvaluateWaveCompletion_runs CountRuns_group [OF rows]) simp
  moreover have "IsTerminalWaveStatus (wave_Status w) \<longleftrightarrow> wave_Status w \<noteq> WaveStatusStarted"
    by (cases "wave_Status w") auto
  ultimately show ?thesis
    by (auto simp: MaybeCompleteRunIfAllReposTerminal_def MaybeCompleteRun_reads_def w rows Let_def split: if_splits)
qed

lemma wave_runs_small: "length (db_runs d) < 2 ^ 31 \<Longrightarrow> length (wave_runs w d) < 2 ^ 31"
  unfolding wave_runs_def using length_filter_le le_less_trans by blast

lemma db_inv_wave:
  assumes "db_inv d" "r \<in> set (db_runs d)"
  obtains w where "GetWave (run_WaveID r) d = Inr w"
proof -
  have "run_WaveID r \<in> wave_ID ` set (db_waves d)" using assms by (auto simp: db_inv_def refs_ok_def)
  then have "find_by wave_ID (run_WaveID r) (db_waves d) \<noteq> None" by (simp add: find_by_None_iff)
  then show thesis using that by (auto simp: GetWave_def get_row_def)
qed

lemma MaybeComplete_inv:
  assumes inv: "db_inv d" and r: "run_WaveID r \<in> run_WaveID ` set (db_runs d)" and small: "length (db_runs d) < 2 ^ 31"
  obtains b d' where "MaybeCompleteRunIfAllReposTerminal now r d = Inr (b, d')" "db_inv d'"
    "db_jobs d' = db_jobs d" "db_runs d' = db_runs d" "db_nodes d' = db_nodes d"
proof -
  obtain s where s: "s \<in> set (db_runs d)" "run_WaveID s = run_WaveID r" using r by (metis imageE)
  obtain w where w: "GetWave (run_WaveID r) d = Inr w" using db_inv_wave [OF inv s(1)] s(2) by metis
  note eq = MaybeComplete_eq [OF wave_runs_small [OF small] w, of now]
  show thesis
  proof (cases "wave_Status w = WaveStatusStarted \<and> wave_runs (run_WaveID r) d \<noteq> [] \<and>
      (\<forall>s \<in> set (wave_runs (run_WaveID r) d). IsTerminalRunStatus (run_Status s))")
    case True
    then have fin: "db_inv (UpdateWaveStatus now (run_WaveID r) WaveStatusFinished d)"
      by (intro finish_wave_inv [OF inv]) (auto simp: wave_runs_def active_run_iff)
    have "MaybeCompleteRunIfAllReposTerminal now r d =
        Inr (True, UpdateWaveStatus now (run_WaveID r) WaveStatusFinished d)"
      unfolding eq using True by (rule if_P)
    then show thesis using fin by (rule that) (simp_all add: UpdateWaveStatus_def)
  next
    case False
    then have "MaybeCompleteRunIfAllReposTerminal now r d = Inr (False, d)" unfolding eq by (rule if_not_P)
    then show thesis using inv by (rule that) simp_all
  qed
qed

section \<open>The recovery cycle\<close>

text \<open>The status the jobs of the current attempt of a run give it.\<close>

definition attempt_outcome :: "run \<Rightarrow> db \<Rightarrow> run_status \<Rightarrow> bool" where
  "attempt_outcome r d s \<longleftrightarrow> (\<exists>j. s = run_status_of (job_Status j) \<and>
     EvaluateRunAttemptTerminalStatus (ListJobsByRunAttempt (run_ID r) (run_Attempt r) d) = Inr (finish_eval j))"

lemma recoverRow_spec:
  assumes inv: "db_inv d" and r: "r \<in> set (db_runs d)" and small: "length (db_runs d) < 2 ^ 31"
  obtains fin' d' s where "recoverRow now (run_ID r, run_Attempt r, n) (fin, d) = (fin', d')" "db_inv d'"
    "db_jobs d' = map (cancel_jobs_of now {run_ID r}) (db_jobs d)" "attempt_outcome r d' s"
    "db_runs d' = set_run (set_run_status now s r) (db_runs d)" "db_nodes d' = db_nodes d"
proof -
  define d1 where "d1 = d\<lparr>db_jobs := map (cancel_jobs_of now {run_ID r}) (db_jobs d)\<rparr>"
  have c: "snd (CancelActiveJobsByRunAttempt now (run_ID r) (run_Attempt r) d) = d1"
    unfolding d1_def by (rule CancelAttempt_map [OF inv r])
  have keep: "job_RunID (cancel_jobs_of now {run_ID r} j) = job_RunID j"
    "job_Attempt (cancel_jobs_of now {run_ID r} j) = job_Attempt j" for j
    by (rule keeps_keyD, simp)+
  obtain j0 where "j0 \<in> set (db_jobs d)" "job_RunID j0 = run_ID r" "job_Attempt j0 = run_Attempt r"
    using inv r by (rule current_job)
  then have ne: "\<exists>j \<in> set (db_jobs d1). job_RunID j = run_ID r \<and> job_Attempt j = run_Attempt r"
    using keep by (force simp: d1_def)
  have fin1: "\<forall>j \<in> set (db_jobs d1). job_RunID j = run_ID r \<and> job_Attempt j = run_Attempt r \<longrightarrow> \<not> is_active_job j"
    using keep by (auto simp: d1_def cancel_jobs_of_def)
  obtain j :: job where ev: "EvaluateRunAttemptTerminalStatus (ListJobsByRunAttempt (run_ID r) (run_Attempt r) d1) = Inr (finish_eval j)"
      and m: "MaybeUpdateRunStatus now (run_ID r) (run_Attempt r) d1 =
      Inr (True, UpdateRunStatus now (run_ID r) (run_status_of (job_Status j)) d1)"
    by (rule MaybeUpdate_terminal [OF ne fin1, where now = now]) blast
  define s d2 where "s = run_status_of (job_Status j)" and "d2 = UpdateRunStatus now (run_ID r) s d1"
  have t: "IsTerminalRunStatus s" by (simp add: s_def)
  have inv2: "db_inv d2" unfolding d2_def d1_def by (rule recover_run_inv [OF inv r t])
  have runs2: "db_runs d2 = set_run (set_run_status now s r) (db_runs d)"
    unfolding d2_def d1_def by (simp add: UpdateRunStatus_def update_where_run [OF db_inv_keys(2) [OF inv] r])
  have d2: "db_jobs d2 = db_jobs d1" "db_nodes d2 = db_nodes d" by (simp_all add: d2_def d1_def)
  have in2: "set_run_status now s r \<in> set (db_runs d2)" using runs2 r by (auto simp: in_set_run)
  then have g: "GetRun (run_ID r) d2 = Inr (set_run_status now s r)"
    using find_by_in [OF db_inv_keys(2) [OF inv2] in2] by (simp add: GetRun_def get_row_def)
  have "length (db_runs d2) < 2 ^ 31" using small runs2 by (simp add: set_run_def)
  then obtain b d3 where m3: "MaybeCompleteRunIfAllReposTerminal now (set_run_status now s r) d2 = Inr (b, d3)" "db_inv d3"
      "db_jobs d3 = db_jobs d2" "db_runs d3 = db_runs d2" "db_nodes d3 = db_nodes d2"
    using MaybeComplete_inv [OF inv2 imageI [OF in2]] by metis
  have row: "recoverRow now (run_ID r, run_Attempt r, n) (fin, d) =
      (if run_ID r \<in> set fin then (fin, d2) else (if b then run_ID r # fin else fin, d3))"
    using m [folded s_def, folded d2_def] g m3(1) by (simp add: recoverRow_def c)
  have o: "attempt_outcome r e s" if "db_jobs e = db_jobs d1" for e
    using ev that by (auto simp: attempt_outcome_def s_def ListJobsByRunAttempt_def)
  show thesis
  proof (cases "run_ID r \<in> set fin")
    case True
    with row inv2 d2 o [of d2] runs2 show thesis by (intro that [of fin d2 s]) (simp_all add: d1_def)
  next
    case False
    with row m3 d2 o [of d3] runs2 show thesis
      by (intro that [of "if b then run_ID r # fin else fin" d3 s]) (simp_all add: d1_def)
  qed
qed

lemma filter_cancel_jobs_of:
  "i \<notin> R \<Longrightarrow> filter (\<lambda>j. job_RunID j = i \<and> job_Attempt j = a) (map (cancel_jobs_of now R) js) =
   filter (\<lambda>j. job_RunID j = i \<and> job_Attempt j = a) js"
  by (induction js) (auto simp: cancel_jobs_of_def keeps_keyD [OF keeps_key_cancel_if_active])

lemma recover_rows:
  assumes "db_inv d" "length (db_runs d) < 2 ^ 31"
    and "\<And>i a n. (i, a, n) \<in> set rows \<Longrightarrow> \<exists>r \<in> set (db_runs d). run_ID r = i \<and> run_Attempt r = a"
  shows "\<exists>fin' d'. fold (recoverRow now) rows (fin, d) = (fin', d') \<and> db_inv d' \<and>
    db_jobs d' = map (cancel_jobs_of now (fst ` set rows)) (db_jobs d) \<and> db_nodes d' = db_nodes d \<and>
    (\<forall>r. run_ID r \<notin> fst ` set rows \<longrightarrow> r \<in> set (db_runs d') \<longleftrightarrow> r \<in> set (db_runs d)) \<and>
    (\<forall>r \<in> set (db_runs d). run_ID r \<in> fst ` set rows \<longrightarrow>
       (\<exists>r' \<in> set (db_runs d'). run_ID r' = run_ID r \<and> run_Attempt r' = run_Attempt r \<and> attempt_outcome r d' (run_Status r')))"
  using assms
proof (induction rows arbitrary: fin d)
  case Nil
  then show ?case by (auto simp: cancel_jobs_of_def intro!: map_idI [symmetric])
next
  case (Cons row rows)
  obtain i a n where row: "row = (i, a, n)" by (cases row)
  then obtain r where r: "r \<in> set (db_runs d)" "run_ID r = i" "run_Attempt r = a" using Cons.prems(3) by force
  obtain fin1 d1 s where step: "recoverRow now row (fin, d) = (fin1, d1)" "db_inv d1"
      "db_jobs d1 = map (cancel_jobs_of now {i}) (db_jobs d)" "db_nodes d1 = db_nodes d"
      "db_runs d1 = set_run (set_run_status now s r) (db_runs d)" "attempt_outcome r d1 s"
    using recoverRow_spec [OF Cons.prems(1) r(1) Cons.prems(2), of now n fin] row r by metis
  have kept: "\<exists>q' \<in> set (db_runs d1). run_ID q' = run_ID q \<and> run_Attempt q' = run_Attempt q" if q: "q \<in> set (db_runs d)" for q
  proof (cases "run_ID q = i")
    case True
    then have "q = r" using distinct_key_eq [OF db_inv_keys(2) [OF Cons.prems(1)] q(1) r(1)] r by simp
    with r show ?thesis unfolding step(5) by (intro bexI [of _ "set_run_status now s r"]) (auto simp: in_set_run)
  next
    case False
    with q r show ?thesis unfolding step(5) by (intro bexI [of _ q]) (auto simp: in_set_run)
  qed
  have "\<exists>r' \<in> set (db_runs d1). run_ID r' = k \<and> run_Attempt r' = b" if "(k, b, m) \<in> set rows" for k b m
    using Cons.prems(3) [of k b m] that kept by force
  moreover have "length (db_runs d1) < 2 ^ 31" using Cons.prems(2) step(5) by (simp add: set_run_def)
  ultimately obtain fin' d' where IH: "fold (recoverRow now) rows (fin1, d1) = (fin', d')" "db_inv d'"
      "db_jobs d' = map (cancel_jobs_of now (fst ` set rows)) (db_jobs d1)" "db_nodes d' = db_nodes d1"
      "\<forall>q. run_ID q \<notin> fst ` set rows \<longrightarrow> q \<in> set (db_runs d') \<longleftrightarrow> q \<in> set (db_runs d1)"
      "\<forall>q \<in> set (db_runs d1). run_ID q \<in> fst ` set rows \<longrightarrow> (\<exists>q' \<in> set (db_runs d').
         run_ID q' = run_ID q \<and> run_Attempt q' = run_Attempt q \<and> attempt_outcome q d' (run_Status q'))"
    using Cons.IH [OF step(2), of fin1] by blast
  have "db_jobs d' = map (cancel_jobs_of now (fst ` set (row # rows))) (db_jobs d)"
    using IH(3) step(3) row by (simp add: cancel_jobs_of_twice)
  moreover have "q \<in> set (db_runs d') \<longleftrightarrow> q \<in> set (db_runs d)" if "run_ID q \<notin> fst ` set (row # rows)" for q
    using IH(5) step(5) that row r by (auto simp: in_set_run)
  moreover have "\<exists>q' \<in> set (db_runs d'). run_ID q' = run_ID q \<and> run_Attempt q' = run_Attempt q \<and> attempt_outcome q d' (run_Status q')"
    if q: "q \<in> set (db_runs d)" "run_ID q \<in> fst ` set (row # rows)" for q
  proof (cases "run_ID q \<in> fst ` set rows")
    case True
    obtain q1 where q1: "q1 \<in> set (db_runs d1)" "run_ID q1 = run_ID q" "run_Attempt q1 = run_Attempt q" using kept [OF q(1)] by blast
    then obtain q' where "q' \<in> set (db_runs d')" "run_ID q' = run_ID q1" "run_Attempt q' = run_Attempt q1"
        "attempt_outcome q1 d' (run_Status q')"
      using IH(6) True by metis
    then show ?thesis using q1(2,3) unfolding attempt_outcome_def by metis
  next
    case False
    then have "run_ID q = i" using q(2) row by simp
    then have "q = r" using distinct_key_eq [OF db_inv_keys(2) [OF Cons.prems(1)] q(1) r(1)] r by simp
    have "set_run_status now s r \<in> set (db_runs d')"
      using False \<open>q = r\<close> IH(5) r(1) unfolding step(5) by (auto simp: in_set_run)
    moreover have "ListJobsByRunAttempt (run_ID r) (run_Attempt r) d' = ListJobsByRunAttempt (run_ID r) (run_Attempt r) d1"
      using False by (simp add: ListJobsByRunAttempt_def IH(3) \<open>q = r\<close> filter_cancel_jobs_of)
    ultimately show ?thesis using step(6) \<open>q = r\<close> unfolding attempt_outcome_def by (intro bexI [of _ "set_run_status now s r"]) simp_all
  qed
  moreover have "fold (recoverRow now) (row # rows) (fin, d) = (fin', d')" "db_nodes d' = db_nodes d"
    using step(1,4) IH(1,4) by simp_all
  ultimately show ?case using IH(2) by blast
qed

lemma stale_row_run:
  assumes inv: "db_inv d" and row: "(i, a, n) \<in> set (ListStaleRunningJobs cutoff d)"
  shows "\<exists>r \<in> set (db_runs d). run_ID r = i \<and> run_Attempt r = a"
proof -
  obtain j where j: "j \<in> set (db_jobs d)" "stale_running cutoff d j" "job_RunID j = i" "job_Attempt j = a"
    using row by (auto simp: ListStaleRunningJobs_def Let_def)
  then have act: "is_active_job j" by (simp add: stale_running_def is_active_job_def)
  obtain r pre post where foc: "job_focus d j r pre post" using inv j(1) by (rule job_focusE)
  show ?thesis using active_job_run [OF inv foc act] job_focusD(2,3) [OF foc] j by auto
qed

definition stale_runs :: "timestamp \<Rightarrow> db \<Rightarrow> run_id set" where
  "stale_runs cutoff d = {job_RunID j |j. j \<in> set (db_jobs d) \<and> stale_running cutoff d j}"

lemma stale_runs_rows: "fst ` set (ListStaleRunningJobs cutoff d) = stale_runs cutoff d"
  by (force simp: ListStaleRunningJobs_def stale_runs_def Let_def)

lemma StaleJobRecovery_spec:
  assumes inv: "db_inv d" and small: "length (db_runs d) < 2 ^ 31"
    and run: "StaleJobRecoveryTask_Run now goNow staleAfter d = (fin, d')"
  shows "db_inv d'" "db_jobs d' = map (cancel_jobs_of now (stale_runs (goNow - staleAfter) d)) (db_jobs d)"
    "db_nodes d' = db_nodes d"
    "\<And>r. run_ID r \<notin> stale_runs (goNow - staleAfter) d \<Longrightarrow> r \<in> set (db_runs d') \<longleftrightarrow> r \<in> set (db_runs d)"
    "\<And>r. r \<in> set (db_runs d) \<Longrightarrow> run_ID r \<in> stale_runs (goNow - staleAfter) d \<Longrightarrow>
       \<exists>r' \<in> set (db_runs d'). run_ID r' = run_ID r \<and> run_Attempt r' = run_Attempt r \<and> attempt_outcome r d' (run_Status r')"
  using recover_rows [where rows = "ListStaleRunningJobs (goNow - staleAfter) d" and now = now and fin = "[]",
      OF inv small stale_row_run [OF inv]] run
  unfolding stale_runs_rows StaleJobRecoveryTask_Run_def by auto

end
