(* ===== verification/Job_Meta.thy ===== *)
theory Job_Meta
  imports Domain_Types
begin

text \<open>
  \<^verbatim>\<open>internal/workflow/contracts\<close>: the structured metadata in \<^verbatim>\<open>jobs.meta\<close> (\<^verbatim>\<open>job_meta.go\<close>,
  \<^verbatim>\<open>build_gate_metadata.go\<close>, \<^verbatim>\<open>stack_gate_spec.go\<close>, \<^verbatim>\<open>stack_env.go\<close>), its validation and its JSON
  encoding, and the error texts \<^verbatim>\<open>jobs_complete_logic.go\<close> derives from it.

  A Go struct is a record, a pointer field an \<open>option\<close>. The decoders follow \<^verbatim>\<open>encoding/json\<close>: an absent
  field or \<^verbatim>\<open>null\<close> leaves the zero value, a value of another type is an error. The encoders drop
  zero values exactly where the tags say \<^verbatim>\<open>omitempty\<close>. Field names are matched as written.
\<close>

section \<open>Structures\<close>

record StackExpectation =
  se_Language :: string
  se_Tool :: string
  se_Release :: string

record StaticCheckFailure =
  scf_RuleID :: string
  scf_File :: string
  scf_Line :: int
  scf_Column :: int
  scf_Severity :: string
  scf_Message :: string

record StaticCheckReport =
  scr_Language :: string
  scr_Tool :: string
  scr_Passed :: bool
  scr_Failures :: "StaticCheckFailure list"

record LogFinding =
  lf_Code :: string
  lf_Severity :: string
  lf_Message :: string
  lf_Evidence :: string

record StackGateResult =
  sg_Enabled :: bool
  sg_Expected :: "StackExpectation option"
  sg_Detected :: "StackExpectation option"
  sg_RuntimeImage :: string
  sg_Result :: string
  sg_Reason :: string

text \<open>The fields of \<^verbatim>\<open>BuildGateStageMetadata\<close> that JSON carries (the others are tagged \<^verbatim>\<open>json:"-"\<close>).\<close>

record GateMetadata =
  gm_LogDigest :: string
  gm_StaticChecks :: "StaticCheckReport list"
  gm_ExecutedCommand :: string
  gm_Detected :: "StackExpectation option"
  gm_LogFindings :: "LogFinding list"
  gm_StackGate :: "StackGateResult option"
  gm_BugSummary :: string

record BuildMeta =
  bm_Tool :: string
  bm_Command :: string
  bm_StatusDetails :: string
  bm_Metrics :: "(string \<times> json) list"

record JobMeta =
  jm_Kind :: string
  jm_Gate :: "GateMetadata option"
  jm_Build :: "BuildMeta option"
  jm_MigStepName :: string
  jm_MigStepIndex :: "int option"
  jm_GateCycleName :: string

section \<open>Validation\<close>

text \<open>Runes of a valid UTF-8 string: the bytes that do not continue a rune.\<close>

definition rune_count :: "string \<Rightarrow> nat" where
  "rune_count s = length (filter (\<lambda>c. of_char c div 64 \<noteq> (2::nat)) s)"

definition StaticCheckFailure_Validate :: "StaticCheckFailure \<Rightarrow> bool" where
  "StaticCheckFailure_Validate f \<longleftrightarrow>
     TrimSpace (scf_Message f) \<noteq> [] \<and> TrimSpace (scf_Severity f) \<noteq> [] \<and> scf_Line f \<ge> 0 \<and> scf_Column f \<ge> 0"

definition StaticCheckReport_Validate :: "StaticCheckReport \<Rightarrow> bool" where
  "StaticCheckReport_Validate r \<longleftrightarrow>
     TrimSpace (scr_Tool r) \<noteq> [] \<and> list_all StaticCheckFailure_Validate (scr_Failures r)"

definition LogFinding_Validate :: "LogFinding \<Rightarrow> bool" where
  "LogFinding_Validate f \<longleftrightarrow> TrimSpace (lf_Message f) \<noteq> [] \<and> TrimSpace (lf_Severity f) \<noteq> []"

definition StackGateResult_Validate :: "StackGateResult \<Rightarrow> bool" where
  "StackGateResult_Validate r \<longleftrightarrow>
     (sg_Enabled r \<longrightarrow> sg_Result r \<in> {''pass'', ''mismatch'', ''unknown''})"

definition GateMetadata_Validate :: "GateMetadata \<Rightarrow> bool" where
  "GateMetadata_Validate m \<longleftrightarrow>
     (case gm_Detected m of None \<Rightarrow> True
      | Some e \<Rightarrow> TrimSpace (se_Language e) \<noteq> [] \<and> TrimSpace (se_Tool e) \<noteq> []) \<and>
     list_all StaticCheckReport_Validate (gm_StaticChecks m) \<and>
     list_all LogFinding_Validate (gm_LogFindings m) \<and>
     (case gm_StackGate m of None \<Rightarrow> True | Some sg \<Rightarrow> StackGateResult_Validate sg) \<and>
     (gm_BugSummary m \<noteq> [] \<longrightarrow>
        CHR 0x0A \<notin> set (gm_BugSummary m) \<and> CHR 0x0D \<notin> set (gm_BugSummary m) \<and> rune_count (gm_BugSummary m) \<le> 200)"

definition JobKind_Valid :: "string \<Rightarrow> bool" where
  "JobKind_Valid k \<longleftrightarrow> k \<in> {''mig'', ''gate'', ''build''}"

definition JobMeta_Validate :: "JobMeta \<Rightarrow> bool" where
  "JobMeta_Validate m \<longleftrightarrow>
     JobKind_Valid (jm_Kind m) \<and>
     (jm_Gate m \<noteq> None \<longrightarrow> jm_Kind m = ''gate'') \<and>
     (jm_Build m \<noteq> None \<longrightarrow> jm_Kind m = ''build'') \<and>
     (case jm_Gate m of None \<Rightarrow> True | Some g \<Rightarrow> GateMetadata_Validate g) \<and>
     (case jm_MigStepIndex m of None \<Rightarrow> True | Some i \<Rightarrow> jm_Kind m = ''mig'' \<and> i \<ge> 0) \<and>
     (jm_GateCycleName m \<noteq> [] \<longrightarrow>
        (jm_Kind m = ''mig'' \<or> jm_Kind m = ''gate'') \<and>
        CHR 0x0A \<notin> set (jm_GateCycleName m) \<and> CHR 0x0D \<notin> set (jm_GateCycleName m) \<and>
        CHR 0x09 \<notin> set (jm_GateCycleName m) \<and> TrimSpace (jm_GateCycleName m) = jm_GateCycleName m)"

section \<open>Decoding\<close>

fun dec_str :: "json option \<Rightarrow> string option" where
  "dec_str None = Some []"
| "dec_str (Some JNull) = Some []"
| "dec_str (Some (JStr s)) = Some s"
| "dec_str _ = None"

fun dec_bool :: "json option \<Rightarrow> bool option" where
  "dec_bool None = Some False"
| "dec_bool (Some JNull) = Some False"
| "dec_bool (Some (JBool b)) = Some b"
| "dec_bool _ = None"

text \<open>Go \<^verbatim>\<open>int\<close> is 64 bits wide; a number outside is an error.\<close>

definition int64_range :: "int \<Rightarrow> bool" where
  "int64_range n \<longleftrightarrow> - (2 ^ 63) \<le> n \<and> n < 2 ^ 63"

fun dec_int :: "json option \<Rightarrow> int option" where
  "dec_int None = Some 0"
| "dec_int (Some JNull) = Some 0"
| "dec_int (Some (JInt n)) = (if int64_range n then Some n else None)"
| "dec_int _ = None"

fun dec_int_ptr :: "json option \<Rightarrow> int option option" where
  "dec_int_ptr None = Some None"
| "dec_int_ptr (Some JNull) = Some None"
| "dec_int_ptr (Some (JInt n)) = (if int64_range n then Some (Some n) else None)"
| "dec_int_ptr _ = None"

fun dec_ptr :: "(json \<Rightarrow> 'a option) \<Rightarrow> json option \<Rightarrow> 'a option option" where
  "dec_ptr f None = Some None"
| "dec_ptr f (Some JNull) = Some None"
| "dec_ptr f (Some v) = map_option Some (f v)"

fun map_all :: "('a \<Rightarrow> 'b option) \<Rightarrow> 'a list \<Rightarrow> 'b list option" where
  "map_all f [] = Some []"
| "map_all f (x # xs) = (case f x of None \<Rightarrow> None | Some y \<Rightarrow> map_option (Cons y) (map_all f xs))"

fun dec_list :: "(json \<Rightarrow> 'a option) \<Rightarrow> json option \<Rightarrow> 'a list option" where
  "dec_list f None = Some []"
| "dec_list f (Some JNull) = Some []"
| "dec_list f (Some (JArr vs)) = map_all f vs"
| "dec_list f _ = None"

text \<open>The fields of an object; \<^verbatim>\<open>null\<close> leaves a struct at its zero value.\<close>

fun dec_fields :: "json \<Rightarrow> (string \<times> json) list option" where
  "dec_fields (JObj fs) = Some fs"
| "dec_fields JNull = Some []"
| "dec_fields _ = None"

fun digit_char :: "nat \<Rightarrow> char" where
  "digit_char n = char_of (48 + n)"

fun show_nat :: "nat \<Rightarrow> string" where
  "show_nat n = (if n < 10 then [digit_char n] else show_nat (n div 10) @ [digit_char (n mod 10)])"

definition show_int :: "int \<Rightarrow> string" where
  "show_int i = (if i < 0 then CHR ''-'' # show_nat (nat (- i)) else show_nat (nat i))"

fun unmarshalReleaseJSON :: "json option \<Rightarrow> string option" where
  "unmarshalReleaseJSON None = Some []"
| "unmarshalReleaseJSON (Some JNull) = Some []"
| "unmarshalReleaseJSON (Some (JStr s)) = Some (TrimSpace s)"
| "unmarshalReleaseJSON (Some (JInt n)) = Some (show_int n)"
| "unmarshalReleaseJSON _ = None"

definition sha256Pattern :: "string \<Rightarrow> bool" where
  "sha256Pattern s \<longleftrightarrow> length s = 71 \<and> take 7 s = ''sha256:'' \<and> list_all is_hex_lower (drop 7 s)"

definition Sha256Digest_UnmarshalText :: "string \<Rightarrow> string option" where
  "Sha256Digest_UnmarshalText b =
     (let s = Normalize b in if IsEmpty s then None else if sha256Pattern s then Some s else None)"

fun dec_digest :: "json option \<Rightarrow> string option" where
  "dec_digest None = Some []"
| "dec_digest (Some JNull) = Sha256Digest_UnmarshalText []"
| "dec_digest (Some (JStr s)) = Sha256Digest_UnmarshalText s"
| "dec_digest _ = None"

definition StackExpectation_UnmarshalJSON :: "json \<Rightarrow> StackExpectation option" where
  "StackExpectation_UnmarshalJSON v =
     Option.bind (dec_fields v) (\<lambda>fs.
     Option.bind (dec_str (map_of fs ''language'')) (\<lambda>l.
     Option.bind (dec_str (map_of fs ''tool'')) (\<lambda>t.
     Option.bind (unmarshalReleaseJSON (map_of fs ''release'')) (\<lambda>r.
       Some \<lparr>se_Language = l, se_Tool = t, se_Release = r\<rparr>))))"

definition dec_failure :: "json \<Rightarrow> StaticCheckFailure option" where
  "dec_failure v =
     Option.bind (dec_fields v) (\<lambda>fs.
     Option.bind (dec_str (map_of fs ''rule_id'')) (\<lambda>r.
     Option.bind (dec_str (map_of fs ''file'')) (\<lambda>f.
     Option.bind (dec_int (map_of fs ''line'')) (\<lambda>l.
     Option.bind (dec_int (map_of fs ''column'')) (\<lambda>c.
     Option.bind (dec_str (map_of fs ''severity'')) (\<lambda>s.
     Option.bind (dec_str (map_of fs ''message'')) (\<lambda>m.
       Some \<lparr>scf_RuleID = r, scf_File = f, scf_Line = l, scf_Column = c, scf_Severity = s, scf_Message = m\<rparr>)))))))"

definition dec_report :: "json \<Rightarrow> StaticCheckReport option" where
  "dec_report v =
     Option.bind (dec_fields v) (\<lambda>fs.
     Option.bind (dec_str (map_of fs ''language'')) (\<lambda>l.
     Option.bind (dec_str (map_of fs ''tool'')) (\<lambda>t.
     Option.bind (dec_bool (map_of fs ''passed'')) (\<lambda>p.
     Option.bind (dec_list dec_failure (map_of fs ''failures'')) (\<lambda>fl.
       Some \<lparr>scr_Language = l, scr_Tool = t, scr_Passed = p, scr_Failures = fl\<rparr>)))))"

definition dec_finding :: "json \<Rightarrow> LogFinding option" where
  "dec_finding v =
     Option.bind (dec_fields v) (\<lambda>fs.
     Option.bind (dec_str (map_of fs ''code'')) (\<lambda>c.
     Option.bind (dec_str (map_of fs ''severity'')) (\<lambda>s.
     Option.bind (dec_str (map_of fs ''message'')) (\<lambda>m.
     Option.bind (dec_str (map_of fs ''evidence'')) (\<lambda>e.
       Some \<lparr>lf_Code = c, lf_Severity = s, lf_Message = m, lf_Evidence = e\<rparr>)))))"

definition dec_stack_gate :: "json \<Rightarrow> StackGateResult option" where
  "dec_stack_gate v =
     Option.bind (dec_fields v) (\<lambda>fs.
     Option.bind (dec_bool (map_of fs ''enabled'')) (\<lambda>en.
     Option.bind (dec_ptr StackExpectation_UnmarshalJSON (map_of fs ''expected'')) (\<lambda>ex.
     Option.bind (dec_ptr StackExpectation_UnmarshalJSON (map_of fs ''detected'')) (\<lambda>de.
     Option.bind (dec_str (map_of fs ''runtime_image'')) (\<lambda>ri.
     Option.bind (dec_str (map_of fs ''result'')) (\<lambda>re.
     Option.bind (dec_str (map_of fs ''reason'')) (\<lambda>rs.
       Some \<lparr>sg_Enabled = en, sg_Expected = ex, sg_Detected = de, sg_RuntimeImage = ri, sg_Result = re, sg_Reason = rs\<rparr>)))))))"

definition dec_gate :: "json \<Rightarrow> GateMetadata option" where
  "dec_gate v =
     Option.bind (dec_fields v) (\<lambda>fs.
     Option.bind (dec_digest (map_of fs ''log_digest'')) (\<lambda>ld.
     Option.bind (dec_list dec_report (map_of fs ''static_checks'')) (\<lambda>sc.
     Option.bind (dec_str (map_of fs ''executed_command'')) (\<lambda>ec.
     Option.bind (dec_ptr StackExpectation_UnmarshalJSON (map_of fs ''detected_stack'')) (\<lambda>ds.
     Option.bind (dec_list dec_finding (map_of fs ''log_findings'')) (\<lambda>lf.
     Option.bind (dec_ptr dec_stack_gate (map_of fs ''stack_gate'')) (\<lambda>sg.
     Option.bind (dec_str (map_of fs ''bug_summary'')) (\<lambda>bs.
       Some \<lparr>gm_LogDigest = ld, gm_StaticChecks = sc, gm_ExecutedCommand = ec, gm_Detected = ds,
             gm_LogFindings = lf, gm_StackGate = sg, gm_BugSummary = bs\<rparr>))))))))"

fun dec_metrics :: "json option \<Rightarrow> (string \<times> json) list option" where
  "dec_metrics None = Some []"
| "dec_metrics (Some JNull) = Some []"
| "dec_metrics (Some (JObj fs)) = Some fs"
| "dec_metrics _ = None"

definition dec_build :: "json \<Rightarrow> BuildMeta option" where
  "dec_build v =
     Option.bind (dec_fields v) (\<lambda>fs.
     Option.bind (dec_str (map_of fs ''tool'')) (\<lambda>t.
     Option.bind (dec_str (map_of fs ''command'')) (\<lambda>c.
     Option.bind (dec_str (map_of fs ''status_details'')) (\<lambda>s.
     Option.bind (dec_metrics (map_of fs ''metrics'')) (\<lambda>m.
       Some \<lparr>bm_Tool = t, bm_Command = c, bm_StatusDetails = s, bm_Metrics = m\<rparr>)))))"

definition dec_job_meta :: "json \<Rightarrow> JobMeta option" where
  "dec_job_meta v =
     Option.bind (dec_fields v) (\<lambda>fs.
     Option.bind (dec_str (map_of fs ''kind'')) (\<lambda>k.
     Option.bind (dec_ptr dec_gate (map_of fs ''gate'')) (\<lambda>g.
     Option.bind (dec_ptr dec_build (map_of fs ''build'')) (\<lambda>b.
     Option.bind (dec_str (map_of fs ''mig_step_name'')) (\<lambda>sn.
     Option.bind (dec_int_ptr (map_of fs ''mig_step_index'')) (\<lambda>si.
     Option.bind (dec_str (map_of fs ''gate_cycle_name'')) (\<lambda>gc.
       Some \<lparr>jm_Kind = k, jm_Gate = g, jm_Build = b, jm_MigStepName = sn, jm_MigStepIndex = si, jm_GateCycleName = gc\<rparr>)))))))"

definition UnmarshalJobMeta :: "raw_json \<Rightarrow> JobMeta option" where
  "UnmarshalJobMeta data =
     (case data of
        RawJson v \<Rightarrow>
          if v = JObj [] \<or> v = JNull then None
          else Option.bind (dec_job_meta v) (\<lambda>m.
            if jm_Kind m = [] then None else if JobMeta_Validate m then Some m else None)
      | _ \<Rightarrow> None)"

section \<open>Encoding\<close>

definition omit_str :: "string \<Rightarrow> string \<Rightarrow> (string \<times> json) list" where
  "omit_str k s = (if s = [] then [] else [(k, JStr s)])"

definition omit_int :: "string \<Rightarrow> int \<Rightarrow> (string \<times> json) list" where
  "omit_int k n = (if n = 0 then [] else [(k, JInt n)])"

definition omit_ptr :: "string \<Rightarrow> json option \<Rightarrow> (string \<times> json) list" where
  "omit_ptr k v = (case v of None \<Rightarrow> [] | Some x \<Rightarrow> [(k, x)])"

definition omit_list :: "string \<Rightarrow> json list \<Rightarrow> (string \<times> json) list" where
  "omit_list k vs = (if vs = [] then [] else [(k, JArr vs)])"

definition enc_expectation :: "StackExpectation \<Rightarrow> json" where
  "enc_expectation e =
     JObj (omit_str ''language'' (se_Language e) @ omit_str ''tool'' (se_Tool e) @ omit_str ''release'' (se_Release e))"

definition enc_failure :: "StaticCheckFailure \<Rightarrow> json" where
  "enc_failure f =
     JObj (omit_str ''rule_id'' (scf_RuleID f) @ omit_str ''file'' (scf_File f) @ omit_int ''line'' (scf_Line f) @
       omit_int ''column'' (scf_Column f) @ [(''severity'', JStr (scf_Severity f)), (''message'', JStr (scf_Message f))])"

definition enc_report :: "StaticCheckReport \<Rightarrow> json" where
  "enc_report r =
     JObj (omit_str ''language'' (scr_Language r) @ [(''tool'', JStr (scr_Tool r)), (''passed'', JBool (scr_Passed r))] @
       omit_list ''failures'' (map enc_failure (scr_Failures r)))"

definition enc_finding :: "LogFinding \<Rightarrow> json" where
  "enc_finding f =
     JObj (omit_str ''code'' (lf_Code f) @ [(''severity'', JStr (lf_Severity f)), (''message'', JStr (lf_Message f))] @
       omit_str ''evidence'' (lf_Evidence f))"

definition enc_stack_gate :: "StackGateResult \<Rightarrow> json" where
  "enc_stack_gate r =
     JObj ([(''enabled'', JBool (sg_Enabled r))] @ omit_ptr ''expected'' (map_option enc_expectation (sg_Expected r)) @
       omit_ptr ''detected'' (map_option enc_expectation (sg_Detected r)) @ omit_str ''runtime_image'' (sg_RuntimeImage r) @
       omit_str ''result'' (sg_Result r) @ omit_str ''reason'' (sg_Reason r))"

text \<open>\<^verbatim>\<open>Sha256Digest.MarshalText\<close> refuses a malformed digest; \<^verbatim>\<open>omitempty\<close> drops an empty one first.\<close>

definition enc_gate :: "GateMetadata \<Rightarrow> json option" where
  "enc_gate m =
     Option.bind (if gm_LogDigest m = [] then Some [] else Sha256Digest_UnmarshalText (gm_LogDigest m)) (\<lambda>ld.
       Some (JObj (omit_str ''log_digest'' ld @ omit_list ''static_checks'' (map enc_report (gm_StaticChecks m)) @
         omit_str ''executed_command'' (gm_ExecutedCommand m) @
         omit_ptr ''detected_stack'' (map_option enc_expectation (gm_Detected m)) @
         omit_list ''log_findings'' (map enc_finding (gm_LogFindings m)) @
         omit_ptr ''stack_gate'' (map_option enc_stack_gate (gm_StackGate m)) @
         omit_str ''bug_summary'' (gm_BugSummary m))))"

definition enc_build :: "BuildMeta \<Rightarrow> json" where
  "enc_build b =
     JObj (omit_str ''tool'' (bm_Tool b) @ omit_str ''command'' (bm_Command b) @
       omit_str ''status_details'' (bm_StatusDetails b) @
       (if bm_Metrics b = [] then [] else [(''metrics'', JObj (bm_Metrics b))]))"

definition enc_job_meta :: "JobMeta \<Rightarrow> json option" where
  "enc_job_meta m =
     Option.bind (case jm_Gate m of None \<Rightarrow> Some None | Some g \<Rightarrow> map_option Some (enc_gate g)) (\<lambda>g.
       Some (JObj ([(''kind'', JStr (jm_Kind m))] @ omit_ptr ''gate'' g @ omit_ptr ''build'' (map_option enc_build (jm_Build m)) @
         omit_str ''mig_step_name'' (jm_MigStepName m) @ omit_ptr ''mig_step_index'' (map_option JInt (jm_MigStepIndex m)) @
         omit_str ''gate_cycle_name'' (jm_GateCycleName m))))"

definition MarshalJobMeta :: "JobMeta option \<Rightarrow> json option" where
  "MarshalJobMeta mp = (case mp of None \<Rightarrow> None | Some m \<Rightarrow> if JobMeta_Validate m then enc_job_meta m else None)"

section \<open>Error texts\<close>

definition NormalizeStackExpectation :: "StackExpectation option \<Rightarrow> StackExpectation option" where
  "NormalizeStackExpectation expect =
     (case expect of
        None \<Rightarrow> None
      | Some e \<Rightarrow>
          let out = \<lparr>se_Language = TrimSpace (se_Language e), se_Tool = TrimSpace (se_Tool e),
                     se_Release = TrimSpace (se_Release e)\<rparr>
          in if se_Language out = [] \<and> se_Tool out = [] \<and> se_Release out = [] then None else Some out)"

definition DetectedStackExpectation :: "GateMetadata \<Rightarrow> StackExpectation option" where
  "DetectedStackExpectation m =
     (let complete = (\<lambda>e. case NormalizeStackExpectation (Some e) of
            None \<Rightarrow> None
          | Some x \<Rightarrow> if se_Language x = [] \<or> se_Tool x = [] then None else Some x)
      in case gm_Detected m of
           Some e \<Rightarrow> complete e
         | None \<Rightarrow> (case gm_StaticChecks m of
               [] \<Rightarrow> None
             | c # _ \<Rightarrow> complete \<lparr>se_Language = scr_Language c, se_Tool = scr_Tool c, se_Release = []\<rparr>))"

text \<open>\<^verbatim>\<open>%q\<close> on printable text: quotes and backslashes are escaped.\<close>

definition go_quote :: "string \<Rightarrow> string" where
  "go_quote s = [CHR 0x22] @ concat (map (\<lambda>c. if c = CHR 0x22 \<or> c = CHR 0x5C then [CHR 0x5C, c] else [c]) s) @ [CHR 0x22]"

definition stackGateExpectation :: "string \<Rightarrow> StackExpectation option \<Rightarrow> string" where
  "stackGateExpectation label expectation =
     (case expectation of
        None \<Rightarrow> []
      | Some e \<Rightarrow> ''  '' @ label @ '': {language: '' @ se_Language e @
          (if se_Tool e \<noteq> [] then '', tool: '' @ se_Tool e else []) @
          (if se_Release e \<noteq> [] then '', release: '' @ go_quote (se_Release e) else []) @ ''}'' @ [CHR 0x0A])"

definition evidence_text :: "LogFinding list \<Rightarrow> string" where
  "evidence_text fs =
     (case filter (\<lambda>f. lf_Evidence f \<noteq> []) fs of
        [] \<Rightarrow> []
      | f # _ \<Rightarrow> ''  Evidence:'' @ [CHR 0x0A] @
          concat (map (\<lambda>l. ''    - '' @ l @ [CHR 0x0A])
            (filter (\<lambda>l. l \<noteq> []) (map TrimSpace (split_on CHR 0x0A (lf_Evidence f))))))"

definition formatStackGateError :: "job_type \<Rightarrow> raw_json \<Rightarrow> string option" where
  "formatStackGateError jobType jobMeta =
     (case UnmarshalJobMeta jobMeta of
        None \<Rightarrow> None
      | Some meta \<Rightarrow>
          if jm_Kind meta \<noteq> ''gate'' then None
          else case jm_Gate meta of
              None \<Rightarrow> None
            | Some gate \<Rightarrow> (case gm_StackGate gate of
                  None \<Rightarrow> None
                | Some sg \<Rightarrow>
                    if sg_Result sg = ''pass'' then None
                    else let phase = (case jobType of JobTypePreGate \<Rightarrow> ''inbound'' | JobTypePostGate \<Rightarrow> ''outbound'' | _ \<Rightarrow> ''unknown'')
                      in Some (TrimSuffix (''Stack Gate ['' @ phase @ '']: '' @ sg_Result sg @ [CHR 0x0A] @
                        stackGateExpectation ''Expected'' (sg_Expected sg) @
                        stackGateExpectation ''Detected'' (sg_Detected sg) @
                        evidence_text (gm_LogFindings gate)) [CHR 0x0A])))"

definition formatExit137Error :: "string \<Rightarrow> int option \<Rightarrow> string option" where
  "formatExit137Error jobLabel exitCode =
     (if exitCode = None \<or> exitCode \<noteq> Some 137 then None
      else let name = TrimSpace jobLabel in
        if name = [] then Some ''job failed with exit code 137 (killed; likely out of memory)''
        else Some (''job '' @ name @ '' failed with exit code 137 (killed; likely out of memory)''))"

section \<open>Round trip\<close>

declare map_of_append [simp del]

lemma map_of_omit [simp]:
  "map_of (omit_str k s @ fs) k' = (if k = k' \<and> s \<noteq> [] then Some (JStr s) else map_of fs k')"
  "map_of (omit_int k n @ fs) k' = (if k = k' \<and> n \<noteq> 0 then Some (JInt n) else map_of fs k')"
  "map_of (omit_list k vs @ fs) k' = (if k = k' \<and> vs \<noteq> [] then Some (JArr vs) else map_of fs k')"
  "map_of (omit_ptr k p @ fs) k' = (if k = k' \<and> p \<noteq> None then p else map_of fs k')"
  "map_of (omit_str k s) k' = (if k = k' \<and> s \<noteq> [] then Some (JStr s) else None)"
  "map_of (omit_list k vs) k' = (if k = k' \<and> vs \<noteq> [] then Some (JArr vs) else None)"
  by (auto simp: omit_str_def omit_int_def omit_list_def omit_ptr_def map_of_append split: option.splits)

lemma dec_str_omit [simp]: "dec_str (if s \<noteq> [] then Some (JStr s) else None) = Some s"
  by simp

lemma dec_int_omit [simp]: "int64_range n \<Longrightarrow> dec_int (if n \<noteq> 0 then Some (JInt n) else None) = Some n"
  by simp

lemma map_all_inverse: "(\<And>x. x \<in> set xs \<Longrightarrow> f (g x) = Some x) \<Longrightarrow> map_all f (map g xs) = Some xs"
  by (induction xs) auto

lemma dec_list_omit:
  "(\<And>x. x \<in> set xs \<Longrightarrow> f (g x) = Some x) \<Longrightarrow>
   dec_list f (if map g xs \<noteq> [] then Some (JArr (map g xs)) else None) = Some xs"
  by (auto simp: map_all_inverse)

definition trimmed_release :: "StackExpectation option \<Rightarrow> bool" where
  "trimmed_release e \<longleftrightarrow> (case e of None \<Rightarrow> True | Some x \<Rightarrow> TrimSpace (se_Release x) = se_Release x)"

lemma dec_enc_expectation:
  "TrimSpace (se_Release e) = se_Release e \<Longrightarrow> StackExpectation_UnmarshalJSON (enc_expectation e) = Some e"
  by (simp add: StackExpectation_UnmarshalJSON_def enc_expectation_def)

lemma dec_ptr_expectation:
  "trimmed_release e \<Longrightarrow> dec_ptr StackExpectation_UnmarshalJSON (map_option enc_expectation e) = Some e"
  by (cases e) (simp_all add: trimmed_release_def enc_expectation_def dec_enc_expectation [unfolded enc_expectation_def])

lemma dec_enc_failure:
  "int64_range (scf_Line f) \<Longrightarrow> int64_range (scf_Column f) \<Longrightarrow> dec_failure (enc_failure f) = Some f"
  by (simp add: dec_failure_def enc_failure_def)

lemma dec_enc_report:
  assumes "\<forall>f \<in> set (scr_Failures r). int64_range (scf_Line f) \<and> int64_range (scf_Column f)"
  shows "dec_report (enc_report r) = Some r"
proof -
  have "dec_list dec_failure (if map enc_failure (scr_Failures r) \<noteq> [] then Some (JArr (map enc_failure (scr_Failures r))) else None)
      = Some (scr_Failures r)"
    using assms by (intro dec_list_omit dec_enc_failure) auto
  then show ?thesis by (simp add: dec_report_def enc_report_def)
qed

lemma dec_enc_finding: "dec_finding (enc_finding f) = Some f"
  by (simp add: dec_finding_def enc_finding_def)

lemma dec_enc_stack_gate:
  assumes "trimmed_release (sg_Expected r)" "trimmed_release (sg_Detected r)"
  shows "dec_stack_gate (enc_stack_gate r) = Some r"
proof -
  have ptr: "(if map_option enc_expectation e \<noteq> None then map_option enc_expectation e else None) = map_option enc_expectation e" for e
    by simp
  show ?thesis
    using dec_ptr_expectation [OF assms(1)] dec_ptr_expectation [OF assms(2)]
    by (simp add: dec_stack_gate_def enc_stack_gate_def ptr del: map_option_is_None)
qed

lemma dec_ptr_map:
  assumes "\<And>y. x = Some y \<Longrightarrow> f (g y) = Some y" "\<And>y. g y \<noteq> JNull"
  shows "dec_ptr f (map_option g x) = Some x"
proof (cases x)
  case (Some y)
  then show ?thesis using assms(1) [of y] assms(2) [of y] by (cases "g y") auto
qed simp

lemma if_ptr [simp]: "(if map_option g x \<noteq> None then map_option g x else None) = map_option g x"
  by simp

lemma sha256Pattern_decode:
  assumes "sha256Pattern s"
  shows "Sha256Digest_UnmarshalText s = Some s"
proof -
  obtain t where t: "s = ''sha256:'' @ t" "length t = 64" "list_all is_hex_lower t"
  proof (rule that [of "drop 7 s"])
    show "s = ''sha256:'' @ drop 7 s" using assms append_take_drop_id [of 7 s] unfolding sha256Pattern_def by argo
  qed (use assms in \<open>auto simp: sha256Pattern_def\<close>)
  then have ne: "t \<noteq> []" by auto
  then have "is_hex_lower (last t)" using t(3) by (simp add: list_all_iff)
  then have "\<not> is_space (last s)" using t(1) ne by (auto simp: is_hex_lower_def is_space_def)
  moreover have "\<not> is_space (hd s)" using t(1) by (simp add: is_space_def)
  ultimately have "TrimSpace s = s" by (intro TrimSpace_fixed) simp
  moreover have "s \<noteq> []" using t(1) by simp
  ultimately show ?thesis using assms by (simp add: Sha256Digest_UnmarshalText_def Normalize_def IsEmpty_def)
qed

text \<open>
  What a value produced in Go satisfies beyond \<^verbatim>\<open>Validate\<close>: integers fit in 64 bits, release strings are
  trimmed as the decoders leave them, and a digest is absent or well-formed.
\<close>

definition gate_canonical :: "GateMetadata \<Rightarrow> bool" where
  "gate_canonical g \<longleftrightarrow>
     (gm_LogDigest g = [] \<or> sha256Pattern (gm_LogDigest g)) \<and> trimmed_release (gm_Detected g) \<and>
     (\<forall>r \<in> set (gm_StaticChecks g). \<forall>f \<in> set (scr_Failures r). int64_range (scf_Line f) \<and> int64_range (scf_Column f)) \<and>
     (case gm_StackGate g of None \<Rightarrow> True | Some sg \<Rightarrow> trimmed_release (sg_Expected sg) \<and> trimmed_release (sg_Detected sg))"

definition meta_canonical :: "JobMeta \<Rightarrow> bool" where
  "meta_canonical m \<longleftrightarrow>
     (case jm_Gate m of None \<Rightarrow> True | Some g \<Rightarrow> gate_canonical g) \<and>
     (case jm_MigStepIndex m of None \<Rightarrow> True | Some i \<Rightarrow> int64_range i)"

lemma dec_enc_gate:
  assumes "gate_canonical g"
  obtains v where "enc_gate g = Some v" "v \<noteq> JNull" "dec_gate v = Some g"
proof -
  have digest: "(if gm_LogDigest g = [] then Some [] else Sha256Digest_UnmarshalText (gm_LogDigest g)) = Some (gm_LogDigest g)"
    using assms by (auto simp: gate_canonical_def sha256Pattern_decode)
  then have ld: "dec_digest (if gm_LogDigest g \<noteq> [] then Some (JStr (gm_LogDigest g)) else None) = Some (gm_LogDigest g)"
    by (auto split: if_splits)
  have sc: "dec_list dec_report (if map enc_report (gm_StaticChecks g) \<noteq> [] then Some (JArr (map enc_report (gm_StaticChecks g))) else None)
      = Some (gm_StaticChecks g)"
    using assms by (intro dec_list_omit dec_enc_report) (auto simp: gate_canonical_def)
  have lf: "dec_list dec_finding (if map enc_finding (gm_LogFindings g) \<noteq> [] then Some (JArr (map enc_finding (gm_LogFindings g))) else None)
      = Some (gm_LogFindings g)"
    by (intro dec_list_omit dec_enc_finding)
  have ds: "dec_ptr StackExpectation_UnmarshalJSON (map_option enc_expectation (gm_Detected g)) = Some (gm_Detected g)"
    using assms by (intro dec_ptr_expectation) (simp add: gate_canonical_def)
  have sg: "dec_ptr dec_stack_gate (map_option enc_stack_gate (gm_StackGate g)) = Some (gm_StackGate g)"
    using assms by (intro dec_ptr_map dec_enc_stack_gate) (auto simp: gate_canonical_def enc_stack_gate_def)
  define fs where "fs = omit_str ''log_digest'' (gm_LogDigest g) @
      omit_list ''static_checks'' (map enc_report (gm_StaticChecks g)) @
      omit_str ''executed_command'' (gm_ExecutedCommand g) @
      omit_ptr ''detected_stack'' (map_option enc_expectation (gm_Detected g)) @
      omit_list ''log_findings'' (map enc_finding (gm_LogFindings g)) @
      omit_ptr ''stack_gate'' (map_option enc_stack_gate (gm_StackGate g)) @ omit_str ''bug_summary'' (gm_BugSummary g)"
  have "dec_digest (map_of fs ''log_digest'') = Some (gm_LogDigest g)"
    "dec_list dec_report (map_of fs ''static_checks'') = Some (gm_StaticChecks g)"
    "dec_list dec_finding (map_of fs ''log_findings'') = Some (gm_LogFindings g)"
    "dec_ptr StackExpectation_UnmarshalJSON (map_of fs ''detected_stack'') = Some (gm_Detected g)"
    "dec_ptr dec_stack_gate (map_of fs ''stack_gate'') = Some (gm_StackGate g)"
    using ld sc lf ds sg by (simp_all add: fs_def del: map_option_is_None split: if_splits)
  moreover have "dec_str (map_of fs ''executed_command'') = Some (gm_ExecutedCommand g)"
    "dec_str (map_of fs ''bug_summary'') = Some (gm_BugSummary g)"
    by (simp_all add: fs_def)
  ultimately have "dec_gate (JObj fs) = Some g" by (simp add: dec_gate_def)
  moreover have "enc_gate g = Some (JObj fs)" unfolding enc_gate_def digest fs_def by simp
  ultimately show thesis using that by blast
qed

lemma dec_enc_build: "dec_build (enc_build b) = Some b"
proof -
  have "dec_metrics (if bm_Metrics b = [] then None else Some (JObj (bm_Metrics b))) = Some (bm_Metrics b)" by simp
  then show ?thesis by (simp add: dec_build_def enc_build_def if_distrib [of "\<lambda>fs. map_of fs _"])
qed

lemma job_meta_roundtrip:
  assumes v: "JobMeta_Validate m" and c: "meta_canonical m"
  shows "\<exists>doc. MarshalJobMeta (Some m) = Some doc \<and> UnmarshalJobMeta (RawJson doc) = Some m"
proof -
  obtain g where g: "(case jm_Gate m of None \<Rightarrow> Some None | Some g \<Rightarrow> map_option Some (enc_gate g)) = Some g"
      and dg: "dec_ptr dec_gate (if g \<noteq> None then g else None) = Some (jm_Gate m)"
  proof (cases "jm_Gate m")
    case (Some gm)
    then have "gate_canonical gm" using c by (simp add: meta_canonical_def)
    then obtain w where w: "enc_gate gm = Some w" "w \<noteq> JNull" "dec_gate w = Some gm" by (rule dec_enc_gate)
    then have "dec_ptr dec_gate (Some w) = Some (Some gm)" by (cases w) auto
    then show thesis using Some w by (intro that [of "Some w"]) auto
  qed (auto intro: that)
  have b: "dec_ptr dec_build (map_option enc_build (jm_Build m)) = Some (jm_Build m)"
    by (intro dec_ptr_map dec_enc_build) (simp add: enc_build_def)
  have i: "dec_int_ptr (map_option JInt (jm_MigStepIndex m)) = Some (jm_MigStepIndex m)"
    using c by (cases "jm_MigStepIndex m") (auto simp: meta_canonical_def)
  define fs where "fs = [(''kind'', JStr (jm_Kind m))] @ omit_ptr ''gate'' g @
      omit_ptr ''build'' (map_option enc_build (jm_Build m)) @ omit_str ''mig_step_name'' (jm_MigStepName m) @
      omit_ptr ''mig_step_index'' (map_option JInt (jm_MigStepIndex m)) @ omit_str ''gate_cycle_name'' (jm_GateCycleName m)"
  have "dec_ptr dec_gate (map_of fs ''gate'') = Some (jm_Gate m)" using dg by (cases g) (simp_all add: fs_def)
  moreover have "dec_ptr dec_build (map_of fs ''build'') = Some (jm_Build m)"
    "dec_int_ptr (map_of fs ''mig_step_index'') = Some (jm_MigStepIndex m)"
    using b i by (simp_all add: fs_def del: map_option_is_None)
  moreover have "dec_str (map_of fs ''kind'') = Some (jm_Kind m)"
    "dec_str (map_of fs ''mig_step_name'') = Some (jm_MigStepName m)"
    "dec_str (map_of fs ''gate_cycle_name'') = Some (jm_GateCycleName m)"
    by (simp_all add: fs_def)
  ultimately have dec: "dec_job_meta (JObj fs) = Some m" by (simp add: dec_job_meta_def)
  have "enc_job_meta m = Some (JObj fs)" unfolding enc_job_meta_def g fs_def by simp
  moreover have "fs \<noteq> []" by (simp add: fs_def)
  moreover have "jm_Kind m \<noteq> []" using v by (auto simp: JobMeta_Validate_def JobKind_Valid_def)
  ultimately show ?thesis using dec v by (simp add: MarshalJobMeta_def UnmarshalJobMeta_def)
qed

end
