(* ===== verification/Completion.thy ===== *)
theory Completion
  imports Recovery Job_Meta
begin

text \<open>
  \<^verbatim>\<open>internal/server/handlers\<close>: completion of a job by its node (\<^verbatim>\<open>jobs_complete.go\<close>,
  \<^verbatim>\<open>jobs_complete_service.go\<close>, \<^verbatim>\<open>jobs_complete_service_post_actions.go\<close>, \<^verbatim>\<open>jobs_complete_cancel_chain.go\<close>,
  \<^verbatim>\<open>jobs_complete_logic.go\<close>, \<^verbatim>\<open>repo_sha_chain_dynamic.go\<close>).

  The completion runs inside \<^verbatim>\<open>WithJobExecution\<close>, one transaction: a statement that fails in it, also one
  whose error the code only logs, leaves the transaction aborted and the commit fails, so nothing
  is written. The wave is reconciled after the commit. Events, log lines and the release of
  provider tokens are left out. Three clocks are arguments: \<open>now\<close> of the transaction, \<open>goNow\<close> of the
  server process and \<open>now'\<close> of the statements after the commit. Error texts are given up to the
  text of a wrapped error.
\<close>

section \<open>The stats payload\<close>

record RunStatsJobResources =
  CPUConsumedNs :: int
  DiskConsumedBytes :: int
  MemConsumedBytes :: int

record JobStatsPayload =
  sp_ResumeCount :: int
  sp_JobMeta :: raw_json
  sp_Metadata :: "(string \<times> string) list"
  sp_DurationMs :: int
  sp_Error :: string
  sp_JobResources :: "RunStatsJobResources option"

definition empty_stats :: JobStatsPayload where
  "empty_stats = \<lparr>sp_ResumeCount = 0, sp_JobMeta = RawEmpty, sp_Metadata = [], sp_DurationMs = 0, sp_Error = [],
     sp_JobResources = None\<rparr>"

definition ErrorMessage :: "JobStatsPayload \<Rightarrow> string" where
  "ErrorMessage p = TrimSpace (sp_Error p)"

definition HasJobMeta :: "JobStatsPayload \<Rightarrow> bool" where
  "HasJobMeta p \<longleftrightarrow> sp_JobMeta p \<notin> {RawEmpty, RawJson JNull, RawJson (JObj [])}"

definition HasJobResources :: "JobStatsPayload \<Rightarrow> bool" where
  "HasJobResources p \<longleftrightarrow> sp_JobResources p \<noteq> None"

definition ValidateJobResources :: "JobStatsPayload \<Rightarrow> string option" where
  "ValidateJobResources p =
     (case sp_JobResources p of
        None \<Rightarrow> None
      | Some r \<Rightarrow>
          if CPUConsumedNs r < 0 then Some ''invalid job_resources.cpu_consumed_ns: must be non-negative''
          else if DiskConsumedBytes r < 0 then Some ''invalid job_resources.disk_consumed_bytes: must be non-negative''
          else if MemConsumedBytes r < 0 then Some ''invalid job_resources.mem_consumed_bytes: must be non-negative''
          else None)"

definition ValidateJobMeta :: "JobStatsPayload \<Rightarrow> string option" where
  "ValidateJobMeta p =
     (if \<not> HasJobMeta p then None
      else if UnmarshalJobMeta (sp_JobMeta p) = None then Some ''invalid job_meta'' else None)"

definition dec_resources :: "json \<Rightarrow> RunStatsJobResources option" where
  "dec_resources v =
     Option.bind (dec_fields v) (\<lambda>fs.
     Option.bind (dec_int (map_of fs ''cpu_consumed_ns'')) (\<lambda>c.
     Option.bind (dec_int (map_of fs ''disk_consumed_bytes'')) (\<lambda>k.
     Option.bind (dec_int (map_of fs ''mem_consumed_bytes'')) (\<lambda>m.
       Some \<lparr>CPUConsumedNs = c, DiskConsumedBytes = k, MemConsumedBytes = m\<rparr>))))"

text \<open>A \<^verbatim>\<open>json.RawMessage\<close> field keeps the bytes it is given, \<^verbatim>\<open>null\<close> included.\<close>

definition dec_raw :: "json option \<Rightarrow> raw_json" where
  "dec_raw v = (case v of None \<Rightarrow> RawEmpty | Some x \<Rightarrow> RawJson x)"

definition dec_string_map :: "json option \<Rightarrow> (string \<times> string) list option" where
  "dec_string_map v =
     (case v of
        None \<Rightarrow> Some []
      | Some x \<Rightarrow> Option.bind (dec_fields x) (map_all (\<lambda>(k, y). map_option (Pair k) (dec_str (Some y)))))"

definition dec_stats_payload :: "json \<Rightarrow> JobStatsPayload option" where
  "dec_stats_payload v =
     Option.bind (dec_fields v) (\<lambda>fs.
     Option.bind (dec_int (map_of fs ''resume_count'')) (\<lambda>rc.
     Option.bind (dec_string_map (map_of fs ''metadata'')) (\<lambda>md.
     Option.bind (dec_int (map_of fs ''duration_ms'')) (\<lambda>dm.
     Option.bind (dec_str (map_of fs ''error'')) (\<lambda>e.
     Option.bind (dec_ptr dec_resources (map_of fs ''job_resources'')) (\<lambda>jr.
       Some \<lparr>sp_ResumeCount = rc, sp_JobMeta = dec_raw (map_of fs ''job_meta''), sp_Metadata = md,
             sp_DurationMs = dm, sp_Error = e, sp_JobResources = jr\<rparr>))))))"

section \<open>Errors and inputs\<close>

text \<open>\<^verbatim>\<open>completionError\<close> with its HTTP status, or an error of the store that no branch maps.\<close>

datatype completion_error =
    HttpError nat string "store_error option"
  | StoreFailure store_error

definition completeBadRequest :: "string \<Rightarrow> completion_error" where
  "completeBadRequest m = HttpError 400 m None"

definition completeForbidden :: "string \<Rightarrow> completion_error" where
  "completeForbidden m = HttpError 403 m None"

definition completeConflict :: "string \<Rightarrow> completion_error" where
  "completeConflict m = HttpError 409 m None"

definition completeNotFound :: "string \<Rightarrow> completion_error" where
  "completeNotFound m = HttpError 404 m None"

definition completeInternal :: "string \<Rightarrow> store_error option \<Rightarrow> completion_error" where
  "completeInternal m cause = HttpError 500 m cause"

text \<open>\<^verbatim>\<open>errors.Is\<close> against an error of the store.\<close>

fun errors_Is :: "completion_error \<Rightarrow> store_error \<Rightarrow> bool" where
  "errors_Is (HttpError _ _ cause) e \<longleftrightarrow> cause = Some e"
| "errors_Is (StoreFailure x) e \<longleftrightarrow> x = e"

text \<open>\<^verbatim>\<open>StatsBytes\<close> is only logged and left out.\<close>

record completionInput =
  ci_JobID :: job_id
  ci_NodeID :: node_id
  ci_Status :: job_status
  ci_ExitCode :: "int option"
  ci_StatsPayload :: JobStatsPayload
  ci_RepoSHAOut :: string

definition normalizeRepoSHA :: "string \<Rightarrow> string" where
  "normalizeRepoSHA sha = (case NormalizeFullCommitSHA sha of None \<Rightarrow> [] | Some s \<Rightarrow> s)"

definition isNonChangingJob :: "job_type \<Rightarrow> bool" where
  "isNonChangingJob t \<longleftrightarrow> t = JobTypePreGate \<or> t = JobTypePostGate"

section \<open>Cancelling the rest of the chain\<close>

text \<open>\<^verbatim>\<open>Duration.Milliseconds\<close> truncates towards zero; a negative duration becomes zero.\<close>

definition cancel_duration :: "timestamp \<Rightarrow> job \<Rightarrow> int" where
  "cancel_duration goNow j =
     (case job_StartedAt j of
        None \<Rightarrow> 0
      | Some s \<Rightarrow>
          let ms = (if goNow \<ge> s then (goNow - s) div 1000 else - ((s - goNow) div 1000))
          in if ms < 0 then 0 else ms)"

lemma card_unseen:
  assumes "map_of byID i = Some x" "i \<notin> set seen"
  shows "card (fst ` set byID - set (i # seen)) < card (fst ` set byID - set seen)"
proof (rule psubset_card_mono)
  have "i \<in> fst ` set byID" using assms(1) by (metis fst_conv image_eqI map_of_SomeD)
  then show "fst ` set byID - set (i # seen) \<subset> fst ` set byID - set seen" using assms(2) by auto
qed simp

function cancelLoop ::
  "timestamp \<Rightarrow> timestamp \<Rightarrow> (job_id \<times> job) list \<Rightarrow> job_id option \<Rightarrow> job_id list \<Rightarrow> db \<Rightarrow> store_error + db"
where
  "cancelLoop now goNow jobsByID None seen d = Inr d"
| "cancelLoop now goNow jobsByID (Some nextID) seen d =
     (if nextID \<in> set seen then Inr d
      else case map_of jobsByID nextID of
          None \<Rightarrow> Inr d
        | Some job \<Rightarrow>
            if terminal_job_status (job_Status job)
            then cancelLoop now goNow jobsByID (job_NextID job) (nextID # seen) d
            else (case UpdateJobStatus now (job_ID job) JobStatusCancelled (job_StartedAt job) (Some goNow)
                    (cancel_duration goNow job) d of
                Inl e \<Rightarrow> Inl e
              | Inr d' \<Rightarrow> cancelLoop now goNow jobsByID (job_NextID job) (nextID # seen) d'))"
  by pat_completeness auto

termination
  by (relation "measure (\<lambda>(_, _, byID, _, seen, _). card (fst ` set byID - set seen))")
    (use card_unseen in auto)

definition cancelRemainingJobsAfterFailure :: "timestamp \<Rightarrow> timestamp \<Rightarrow> job \<Rightarrow> db \<Rightarrow> store_error + db" where
  "cancelRemainingJobsAfterFailure now goNow failedJob d =
     (let jobsByID = itemByID job_ID (ListJobsByRunAttempt (job_RunID failedJob) (job_Attempt failedJob) d);
          nextID = (case map_of jobsByID (job_ID failedJob) of
              None \<Rightarrow> job_NextID failedJob
            | Some refreshed \<Rightarrow> job_NextID refreshed)
      in cancelLoop now goNow jobsByID nextID [] d)"

section \<open>The service\<close>

definition lastErrorFromTerminalJob :: "completionInput \<Rightarrow> job \<Rightarrow> string option" where
  "lastErrorFromTerminalJob inp job =
     (if ErrorMessage (ci_StatsPayload inp) \<noteq> [] then Some (ErrorMessage (ci_StatsPayload inp))
      else if ci_Status inp = JobStatusFail
        then formatExit137Error (JobType_String (job_JobType job)) (ci_ExitCode inp)
      else None)"

definition set_last_error :: "run_id \<Rightarrow> string option \<Rightarrow> db \<Rightarrow> db" where
  "set_last_error i msg d = (case msg of None \<Rightarrow> d | Some m \<Rightarrow> UpdateRunError i (Some m) d)"

definition onFail :: "timestamp \<Rightarrow> timestamp \<Rightarrow> completionInput \<Rightarrow> job \<Rightarrow> raw_json \<Rightarrow> db \<Rightarrow> store_error + db" where
  "onFail now goNow inp job persistedMeta d =
     (if ci_Status inp \<noteq> JobStatusFail \<and> ci_Status inp \<noteq> JobStatusError then Inr d
      else let d1 = set_last_error (job_RunID job) (lastErrorFromTerminalJob inp job) d;
               d2 = (if ci_Status inp = JobStatusFail \<and> IsGateJobType (job_JobType job)
                     then set_last_error (job_RunID job) (formatStackGateError (job_JobType job) persistedMeta) d1
                     else d1)
           in case EvaluateCompletionDecision (ci_Status inp) (job_NextID job \<noteq> None) of
                CompletionChainCancelRemainder \<Rightarrow> cancelRemainingJobsAfterFailure now goNow job d2
              | _ \<Rightarrow> Inr d2)"

definition onCancelled :: "timestamp \<Rightarrow> timestamp \<Rightarrow> completionInput \<Rightarrow> job \<Rightarrow> db \<Rightarrow> store_error + db" where
  "onCancelled now goNow inp job d =
     (if ci_Status inp \<noteq> JobStatusCancelled then Inr d
      else if EvaluateCompletionDecision (ci_Status inp) (job_NextID job \<noteq> None) = CompletionChainNoAction then Inr d
      else cancelRemainingJobsAfterFailure now goNow job d)"

text \<open>
  No row to promote is no error. The completion statement has just updated the row of the
  successor, so no other transaction holds it and \<^verbatim>\<open>SKIP LOCKED\<close> skips nothing.
\<close>

definition onSuccess :: "completionInput \<Rightarrow> job \<Rightarrow> db \<Rightarrow> store_error + db" where
  "onSuccess inp job d =
     (if ci_Status inp \<noteq> JobStatusSuccess then Inr d
      else if EvaluateCompletionDecision (ci_Status inp) (job_NextID job \<noteq> None) \<noteq> CompletionChainAdvanceNext then Inr d
      else case job_NextID job of
          None \<Rightarrow> Inr d
        | Some n \<Rightarrow> (case PromoteJobByIDIfUnblocked (\<lambda>_. False) n d of
              Inr (_, d') \<Rightarrow> Inr d'
            | Inl ErrNoRows \<Rightarrow> Inr d
            | Inl e \<Rightarrow> Inl e))"

text \<open>The run whose wave is to be reconciled, when the attempt is finished.\<close>

definition reconcileRepoRun :: "timestamp \<Rightarrow> job \<Rightarrow> db \<Rightarrow> run option \<times> db" where
  "reconcileRepoRun now job d =
     (case MaybeUpdateRunStatus now (job_RunID job) (job_Attempt job) d of
        Inl _ \<Rightarrow> (None, d)
      | Inr (repoUpdated, d') \<Rightarrow>
          if \<not> repoUpdated then (None, d')
          else (case GetRun (job_RunID job) d' of Inl _ \<Rightarrow> (None, d') | Inr r \<Rightarrow> (Some r, d')))"

definition output_sha :: "completionInput \<Rightarrow> job \<Rightarrow> string" where
  "output_sha inp job =
     (if ci_Status inp = JobStatusSuccess
      then let sha = normalizeRepoSHA (ci_RepoSHAOut inp) in
        if sha = [] \<and> isNonChangingJob (job_JobType job) then normalizeRepoSHA (job_RepoShaIn job) else sha
      else ci_RepoSHAOut inp)"

definition persist_metrics :: "completionInput \<Rightarrow> job \<Rightarrow> db \<Rightarrow> completion_error + db" where
  "persist_metrics inp job d =
     (case sp_JobResources (ci_StatsPayload inp) of
        None \<Rightarrow> Inr d
      | Some res \<Rightarrow>
          (case UpsertJobMetric \<lparr>jm_NodeID = ci_NodeID inp, jm_JobID = job_ID job, jm_CpuConsumedNs = CPUConsumedNs res,
               jm_DiskConsumedBytes = DiskConsumedBytes res, jm_MemConsumedBytes = MemConsumedBytes res\<rparr> d of
             Inl e \<Rightarrow> Inl (completeInternal ''failed to persist job metrics'' (Some e))
           | Inr d' \<Rightarrow> Inr d'))"

text \<open>The completion statement and the metadata the row holds afterwards.\<close>

definition persist_completion ::
  "timestamp \<Rightarrow> completionInput \<Rightarrow> string \<Rightarrow> job \<Rightarrow> db \<Rightarrow> completion_error + raw_json \<times> db" where
  "persist_completion now inp sha job d =
     (let stats = ci_StatsPayload inp in
      if HasJobMeta stats
      then (if ValidateJobMeta stats \<noteq> None then Inl (completeInternal ''invalid job metadata'' None)
            else case UpdateJobCompletionWithMeta now (ci_Status inp) (ci_ExitCode inp) sha (sp_JobMeta stats) (job_ID job) d of
                Inl e \<Rightarrow> Inl (completeInternal ''failed to complete job'' (Some e))
              | Inr d' \<Rightarrow> Inr (sp_JobMeta stats, d'))
      else (case UpdateJobCompletion now (ci_Status inp) (ci_ExitCode inp) sha (job_ID job) d of
                Inl e \<Rightarrow> Inl (completeInternal ''failed to complete job'' (Some e))
              | Inr d' \<Rightarrow> Inr (RawJson (job_Meta job), d')))"

definition lift_store :: "store_error + 'a \<Rightarrow> completion_error + 'a" where
  "lift_store m = (case m of Inl e \<Rightarrow> Inl (StoreFailure e) | Inr x \<Rightarrow> Inr x)"

definition complete :: "timestamp \<Rightarrow> timestamp \<Rightarrow> completionInput \<Rightarrow> job \<Rightarrow> db \<Rightarrow> completion_error + run option \<times> db" where
  "complete now goNow inp job d =
     (if job_NodeID job \<noteq> Some (ci_NodeID inp) then Inl (completeForbidden ''job not assigned to this node'')
      else if job_Status job \<noteq> JobStatusRunning
        then Inl (completeConflict (''job status is '' @ JobStatus_String (job_Status job) @ '', expected Running''))
      else let sha = output_sha inp job in
        if ci_Status inp = JobStatusSuccess \<and> job_NextID job \<noteq> None \<and> \<not> IsCanonicalFullCommitSHA (job_RepoShaIn job)
          then Inl (completeConflict ''job repo_sha_in must match ^[0-9a-f]{40}$ for chain progression'')
        else if ci_Status inp = JobStatusSuccess \<and> job_NextID job \<noteq> None \<and> sha = []
          then Inl (completeBadRequest ''repo_sha_out is required for successful jobs with next_id'')
        else res_bind (persist_metrics inp job d) (\<lambda>d1.
             res_bind (persist_completion now inp sha job d1) (\<lambda>(persistedMeta, d2).
             res_bind (lift_store (onFail now goNow inp job persistedMeta d2)) (\<lambda>d3.
             res_bind (lift_store (onCancelled now goNow inp job d3)) (\<lambda>d4.
             res_bind (lift_store (onSuccess inp job d4)) (\<lambda>d5.
               Inr (reconcileRepoRun now job d5)))))))"

text \<open>The flag tells whether this completion finished the wave.\<close>

definition reconcileWave :: "timestamp \<Rightarrow> run \<Rightarrow> db \<Rightarrow> bool \<times> db" where
  "reconcileWave now r d =
     (case MaybeCompleteRunIfAllReposTerminal now r d of Inl _ \<Rightarrow> (False, d) | Inr res \<Rightarrow> res)"

definition Complete :: "timestamp \<Rightarrow> timestamp \<Rightarrow> timestamp \<Rightarrow> completionInput \<Rightarrow> db \<Rightarrow> completion_error + bool \<times> db" where
  "Complete now goNow now' inp d =
     (case WithJobExecution StoreFailure (ci_JobID inp) (sp_ResumeCount (ci_StatsPayload inp)) (complete now goNow inp) d of
        Inl e \<Rightarrow>
          if errors_Is e ErrJobExecutionStale then Inl (completeConflict ''completion belongs to an earlier execution'')
          else if errors_Is e ErrNoRows then Inl (completeNotFound ''job not found'')
          else Inl e
      | Inr (None, d') \<Rightarrow> Inr (False, d')
      | Inr (Some r, d') \<Rightarrow> Inr (reconcileWave now' r d'))"

section \<open>The request\<close>

record completeJobRequest =
  req_Status :: string
  req_ExitCode :: "int option"
  req_Stats :: raw_json
  req_RepoSHAOut :: string

definition NodeID_UnmarshalText :: "string \<Rightarrow> id_error + node_id" where
  "NodeID_UnmarshalText = unmarshalIDTextValidated (Some (\<lambda>s. validateURLSafeID s 64 (ErrInvalidID ''node'')))"

definition parseNodeUUIDHeader :: "string \<Rightarrow> string + node_id" where
  "parseNodeUUIDHeader header =
     (let headerVal = TrimSpace header in
      if headerVal = [] then Inl ''PLOY_NODE_UUID header is required''
      else case NodeID_UnmarshalText headerVal of
          Inl _ \<Rightarrow> Inl ''invalid PLOY_NODE_UUID header''
        | Inr n \<Rightarrow> Inr n)"

definition validate_stats :: "raw_json \<Rightarrow> string + JobStatsPayload" where
  "validate_stats raw =
     (case raw of
        RawEmpty \<Rightarrow> Inr empty_stats
      | RawInvalid \<Rightarrow> Inl ''stats field must be valid JSON''
      | RawJson (JObj fs) \<Rightarrow>
          (case dec_stats_payload (JObj fs) of
             None \<Rightarrow> Inl ''invalid stats payload''
           | Some p \<Rightarrow> (case ValidateJobMeta p of
                 Some e \<Rightarrow> Inl e
               | None \<Rightarrow> (case ValidateJobResources p of Some e \<Rightarrow> Inl e | None \<Rightarrow> Inr p)))
      | RawJson _ \<Rightarrow> Inl ''stats must be a JSON object'')"

definition terminal_request_status :: "string \<Rightarrow> string + job_status" where
  "terminal_request_status status =
     (if TrimSpace status = [] then Inl ''status is required''
      else case ParseJobStatus (TrimSpace status) of
          Inl _ \<Rightarrow> Inl ''invalid status''
        | Inr s \<Rightarrow>
            if s \<noteq> JobStatusSuccess \<and> s \<noteq> JobStatusFail \<and> s \<noteq> JobStatusError \<and> s \<noteq> JobStatusCancelled
            then Inl (''status must be Success, Fail, Error, or Cancelled, got '' @ status) else Inr s)"

definition request_sha :: "string \<Rightarrow> string + string" where
  "request_sha sha =
     (if TrimSpace sha = [] then Inr []
      else if \<not> IsCanonicalFullCommitSHA sha then Inl ''repo_sha_out must match ^[0-9a-f]{40}$''
      else Inr (TrimSpace sha))"

definition validateCompletionRequest ::
  "string \<Rightarrow> completeJobRequest \<Rightarrow> string + job_status \<times> JobStatsPayload \<times> string \<times> node_id" where
  "validateCompletionRequest nodeHeader req =
     res_bind (terminal_request_status (req_Status req)) (\<lambda>status.
     res_bind (validate_stats (req_Stats req)) (\<lambda>stats.
     res_bind (request_sha (req_RepoSHAOut req)) (\<lambda>sha.
     res_bind (parseNodeUUIDHeader nodeHeader) (\<lambda>nodeID.
       Inr (status, stats, sha, nodeID)))))"

text \<open>
  The handler. \<open>pathID\<close> is the parsed path parameter, \<open>identity\<close> whether the request is authenticated,
  \<open>body\<close> the decoded body or the status the decoder has already written.
\<close>

definition completeJobHandler ::
  "timestamp \<Rightarrow> timestamp \<Rightarrow> timestamp \<Rightarrow> job_id option \<Rightarrow> bool \<Rightarrow> nat + completeJobRequest \<Rightarrow> string \<Rightarrow> db \<Rightarrow> nat \<times> db" where
  "completeJobHandler now goNow now' pathID identity body nodeHeader d =
     (case pathID of
        None \<Rightarrow> (400, d)
      | Some jobID \<Rightarrow>
          if \<not> identity then (401, d)
          else case body of
              Inl status \<Rightarrow> (status, d)
            | Inr req \<Rightarrow>
                (case validateCompletionRequest nodeHeader req of
                   Inl _ \<Rightarrow> (400, d)
                 | Inr (status, stats, sha, nodeID) \<Rightarrow>
                     (case Complete now goNow now' \<lparr>ci_JobID = jobID, ci_NodeID = nodeID, ci_Status = status,
                          ci_ExitCode = req_ExitCode req, ci_StatsPayload = stats, ci_RepoSHAOut = sha\<rparr> d of
                        Inl (HttpError code _ _) \<Rightarrow> (code, d)
                      | Inl (StoreFailure _) \<Rightarrow> (500, d)
                      | Inr (_, d') \<Rightarrow> (204, d'))))"

end
