(* ===== verification/Completion_Safety.thy ===== *)
theory Completion_Safety
  imports Completion
begin

text \<open>
  What a completion does to the tables, by the reported status, and that it keeps \<open>db_inv\<close>:

    \<^item> success with a successor hands the commit over and queues the successor,
    \<^item> success of the last job finishes the run,
    \<^item> failure, error or cancellation cancels the rest of the chain and finishes the run.

  A completion that is refused changes nothing.
\<close>

section \<open>The row updates\<close>

text \<open>The completed row and its successor after the completion statement.\<close>

definition completed_meta :: "completionInput \<Rightarrow> json option" where
  "completed_meta inp =
     (if HasJobMeta (ci_StatsPayload inp) then (case sp_JobMeta (ci_StatsPayload inp) of RawJson v \<Rightarrow> Some v | _ \<Rightarrow> None)
      else None)"

definition complete_by :: "timestamp \<Rightarrow> completionInput \<Rightarrow> job \<Rightarrow> job \<Rightarrow> job" where
  "complete_by now inp j = complete_job now (ci_Status inp) (ci_ExitCode inp) (output_sha inp j) (completed_meta inp)"

definition completed_row :: "timestamp \<Rightarrow> completionInput \<Rightarrow> job \<Rightarrow> job" where
  "completed_row now inp j = complete_by now inp j j"

definition hand_over :: "job \<Rightarrow> job \<Rightarrow> job" where
  "hand_over j' k = (if Some (job_ID k) = job_NextID j' then receive_sha (job_RepoShaOut j') k else k)"

definition completion_rows :: "timestamp \<Rightarrow> completionInput \<Rightarrow> job \<Rightarrow> job \<Rightarrow> job" where
  "completion_rows now inp j k = hand_over (completed_row now inp j) (at_id (job_ID j) (complete_by now inp j) k)"

lemma hand_over_fields [simp]:
  "job_ID (hand_over j' k) = job_ID k" "job_NextID (hand_over j' k) = job_NextID k"
  "job_RunID (hand_over j' k) = job_RunID k" "job_Attempt (hand_over j' k) = job_Attempt k"
  "job_RepoID (hand_over j' k) = job_RepoID k" "job_Status (hand_over j' k) = job_Status k"
  "job_NodeID (hand_over j' k) = job_NodeID k" "job_StartedAt (hand_over j' k) = job_StartedAt k"
  "job_DurationMs (hand_over j' k) = job_DurationMs k" "job_RepoShaOut (hand_over j' k) = job_RepoShaOut k"
  by (simp_all add: hand_over_def receive_sha_def)

lemma keeps_key_hand_over [simp, intro]: "keeps_key (hand_over j')"
  by (simp add: keeps_key_def)

lemma completed_row_fields [simp]:
  "job_ID (completed_row now inp j) = job_ID j" "job_NextID (completed_row now inp j) = job_NextID j"
  "job_RunID (completed_row now inp j) = job_RunID j" "job_Attempt (completed_row now inp j) = job_Attempt j"
  "job_RepoID (completed_row now inp j) = job_RepoID j" "job_NodeID (completed_row now inp j) = job_NodeID j"
  "job_RepoShaIn (completed_row now inp j) = job_RepoShaIn j" "job_Status (completed_row now inp j) = ci_Status inp"
  "job_StartedAt (completed_row now inp j) = job_StartedAt j"
  "job_DurationMs (completed_row now inp j) = completion_duration now j"
  by (simp_all add: completed_row_def complete_by_def complete_job_def)

lemma keeps_key_completion_rows [simp, intro]: "keeps_key (completion_rows now inp j)"
  unfolding completion_rows_def
  by (rule keeps_key_comp [OF keeps_key_hand_over]) (auto simp: complete_by_def)

lemma complete_rows_Inr:
  assumes keys: "distinct (map job_ID (db_jobs d))" and j: "j \<in> set (db_jobs d)"
    and c: "complete_rows now (ci_Status inp) (ci_ExitCode inp) (output_sha inp j) (completed_meta inp) (job_ID j) d = Inr d'"
  shows "d' = d\<lparr>db_jobs := map (completion_rows now inp j) (db_jobs d)\<rparr>" "0 \<le> completion_duration now j"
proof -
  have f: "find_by job_ID (job_ID j) (db_jobs d) = Some j" using keys j by (rule find_by_in)
  have row: "complete_job now (ci_Status inp) (ci_ExitCode inp) (output_sha inp j) (completed_meta inp) = complete_by now inp j"
    by (simp add: complete_by_def)
  have dur: "\<not> job_DurationMs (completed_row now inp j) < 0"
    using c f by (auto simp: complete_rows_def row completed_row_def split: if_splits)
  then show "0 \<le> completion_duration now j" by simp
  show "d' = d\<lparr>db_jobs := map (completion_rows now inp j) (db_jobs d)\<rparr>"
    using c f dur
    by (auto simp: complete_rows_def Let_def row completed_row_def [symmetric] update_where_at_id update_where_def
        completion_rows_def hand_over_def)
qed

lemma persist_metrics_Inr:
  assumes "persist_metrics inp job d = Inr d1"
  obtains ms where "d1 = d\<lparr>db_job_metrics := ms\<rparr>"
proof -
  from assms consider "d1 = d" | m where "UpsertJobMetric m d = Inr d1"
    by (auto simp: persist_metrics_def split: option.splits sum.splits)
  then show thesis
  proof cases
    case 1
    with that [of "db_job_metrics d"] show thesis by simp
  next
    case 2
    with that show thesis by (auto simp: UpsertJobMetric_def split: if_splits)
  qed
qed

lemma persist_completion_Inr:
  assumes keys: "distinct (map job_ID (db_jobs d))" and j: "j \<in> set (db_jobs d)"
    and c: "persist_completion now inp (output_sha inp j) j d = Inr (meta, d')"
  shows "d' = d\<lparr>db_jobs := map (completion_rows now inp j) (db_jobs d)\<rparr>" "0 \<le> completion_duration now j"
proof -
  have "complete_rows now (ci_Status inp) (ci_ExitCode inp) (output_sha inp j) (completed_meta inp) (job_ID j) d = Inr d'"
  proof (cases "HasJobMeta (ci_StatsPayload inp)")
    case True
    then have "UpdateJobCompletionWithMeta now (ci_Status inp) (ci_ExitCode inp) (output_sha inp j)
        (sp_JobMeta (ci_StatsPayload inp)) (job_ID j) d = Inr d'"
      using c by (auto simp: persist_completion_def Let_def split: if_splits sum.splits)
    with True show ?thesis
      by (cases "sp_JobMeta (ci_StatsPayload inp)")
        (auto simp: UpdateJobCompletionWithMeta_def completed_meta_def res_bind_Inr_iff)
  next
    case False
    with c show ?thesis
      by (auto simp: persist_completion_def UpdateJobCompletion_def completed_meta_def Let_def split: sum.splits)
  qed
  then show "d' = d\<lparr>db_jobs := map (completion_rows now inp j) (db_jobs d)\<rparr>" "0 \<le> completion_duration now j"
    using complete_rows_Inr [OF keys j] by blast+
qed

section \<open>Cancelling the rest of a chain\<close>

definition cancelled_row :: "timestamp \<Rightarrow> timestamp \<Rightarrow> job \<Rightarrow> job \<Rightarrow> job" where
  "cancelled_row now goNow k =
     set_job_status now JobStatusCancelled (job_StartedAt k) (Some goNow) (cancel_duration goNow k)"

lemma cancel_duration_nonneg: "0 \<le> cancel_duration goNow j"
  by (simp add: cancel_duration_def Let_def split: option.split)

lemma keeps_key_cancelled_row [simp, intro]: "keeps_key (cancelled_row now goNow k)"
  by (simp add: cancelled_row_def)

definition cancel_updates :: "timestamp \<Rightarrow> timestamp \<Rightarrow> job list \<Rightarrow> (job_id \<times> (job \<Rightarrow> job)) list" where
  "cancel_updates now goNow ks = map (\<lambda>k. (job_ID k, cancelled_row now goNow k)) ks"

lemma UpdateJobStatus_cancel:
  "UpdateJobStatus now (job_ID k) JobStatusCancelled (job_StartedAt k) (Some goNow) (cancel_duration goNow k) d =
   Inr (d\<lparr>db_jobs := map (at_id (job_ID k) (cancelled_row now goNow k)) (db_jobs d)\<rparr>)"
  using cancel_duration_nonneg [of goNow k] by (simp add: UpdateJobStatus_def update_where_at_id cancelled_row_def not_less)

text \<open>The walk from the first job of a chain suffix cancels exactly the suffix, in any table.\<close>

lemma cancelLoop_chain:
  assumes "is_chain job_ID job_NextID c" "distinct (map job_ID c)" "\<forall>k \<in> set c. map_of byID (job_ID k) = Some k"
    and "\<forall>k \<in> set c. \<not> terminal_job_status (job_Status k)" "set seen \<inter> job_ID ` set c = {}"
  shows "cancelLoop now goNow byID (case c of [] \<Rightarrow> None | k # _ \<Rightarrow> Some (job_ID k)) seen d =
    Inr (d\<lparr>db_jobs := fold (\<lambda>(i, g). map (at_id i g)) (cancel_updates now goNow c) (db_jobs d)\<rparr>)"
  using assms
proof (induction c arbitrary: seen d)
  case (Cons k c)
  let ?d = "d\<lparr>db_jobs := map (at_id (job_ID k) (cancelled_row now goNow k)) (db_jobs d)\<rparr>"
  have "job_NextID k = (case c of [] \<Rightarrow> None | k' # _ \<Rightarrow> Some (job_ID k'))"
    using is_chain_at [of job_ID job_NextID "[]" k c] Cons.prems(1) by simp
  moreover have "is_chain job_ID job_NextID c" using is_chain_suffix [of job_ID job_NextID "[k]" c] Cons.prems(1) by simp
  then have "cancelLoop now goNow byID (case c of [] \<Rightarrow> None | k' # _ \<Rightarrow> Some (job_ID k')) (job_ID k # seen) ?d =
      Inr (?d\<lparr>db_jobs := fold (\<lambda>(i, g). map (at_id i g)) (cancel_updates now goNow c) (db_jobs ?d)\<rparr>)"
    using Cons.prems by (intro Cons.IH) auto
  ultimately show ?case using Cons.prems by (simp add: UpdateJobStatus_cancel cancel_updates_def)
qed (simp add: cancel_updates_def)

lemma map_of_itemByID:
  assumes "distinct (map job_ID js)" "k \<in> set js"
  shows "map_of (itemByID job_ID js) (job_ID k) = Some k"
proof -
  have "distinct (map fst (itemByID job_ID js))" using assms(1) by (simp add: itemByID_def comp_def rev_map [symmetric])
  moreover have "(job_ID k, k) \<in> set (itemByID job_ID js)" using assms(2) by (simp add: itemByID_def)
  ultimately show ?thesis by (simp add: map_of_is_SomeI)
qed

lemma cancelRemaining_chain:
  assumes keys: "distinct (map job_ID (db_jobs d))"
    and c: "is_chain job_ID job_NextID (pre @ j # post)" "distinct (map job_ID (pre @ j # post))"
    and rows: "set (pre @ j # post) = set (ListJobsByRunAttempt (job_RunID j) (job_Attempt j) d)"
    and act: "\<forall>k \<in> set post. \<not> terminal_job_status (job_Status k)"
    and f: "job_ID failed = job_ID j" "job_RunID failed = job_RunID j" "job_Attempt failed = job_Attempt j"
  shows "cancelRemainingJobsAfterFailure now goNow failed d =
    Inr (d\<lparr>db_jobs := map (apply_updates (cancel_updates now goNow post)) (db_jobs d)\<rparr>)"
proof -
  let ?js = "ListJobsByRunAttempt (job_RunID j) (job_Attempt j) d"
  have dist: "distinct (map job_ID ?js)"
    using keys by (simp add: ListJobsByRunAttempt_def distinct_map_filter distinct_map inj_on_def)
  have by_id: "map_of (itemByID job_ID ?js) (job_ID k) = Some k" if "k \<in> set (pre @ j # post)" for k
    using that unfolding rows by (rule map_of_itemByID [OF dist])
  have nxt: "job_NextID j = (case post of [] \<Rightarrow> None | k # _ \<Rightarrow> Some (job_ID k))" using c(1) by (rule is_chain_at)
  have suf: "is_chain job_ID job_NextID post" using is_chain_suffix [of _ _ "pre @ [j]" post] c(1) by simp
  have "cancelRemainingJobsAfterFailure now goNow failed d =
      cancelLoop now goNow (itemByID job_ID ?js) (case post of [] \<Rightarrow> None | k # _ \<Rightarrow> Some (job_ID k)) [] d"
    using by_id [of j] nxt f by (simp add: cancelRemainingJobsAfterFailure_def)
  also have "\<dots> = Inr (d\<lparr>db_jobs := fold (\<lambda>(i, g). map (at_id i g)) (cancel_updates now goNow post) (db_jobs d)\<rparr>)"
    using suf c(2) by_id act by (intro cancelLoop_chain) auto
  also have "fold (\<lambda>(i, g). map (at_id i g)) (cancel_updates now goNow post) (db_jobs d) =
      map (apply_updates (cancel_updates now goNow post)) (db_jobs d)"
    using c(2) by (intro fold_at_id) (auto simp: cancel_updates_def comp_def)
  finally show ?thesis .
qed

section \<open>The chain after a completion\<close>

lemma completion_rows_chain:
  assumes c: "chain_ok sha0 (pre @ j # post)"
  shows "map (completion_rows now inp j) (pre @ j # post) =
    pre @ completed_row now inp j # map (hand_over (completed_row now inp j)) post"
proof -
  have dist: "distinct (map job_ID (pre @ j # post))" using c by (rule chain_ok_distinct)
  have nxt: "job_NextID j = (case post of [] \<Rightarrow> None | y # _ \<Rightarrow> Some (job_ID y))"
    using c by (intro is_chain_at [of job_ID job_NextID pre]) (simp add: chain_ok_def)
  have "Some (job_ID k) \<noteq> job_NextID j" if "k = j \<or> k \<in> set pre" for k
  proof (cases post)
    case (Cons y ys)
    with dist that have "job_ID k \<noteq> job_ID y" by (auto dest: notin_imageD)
    with nxt Cons show ?thesis by simp
  qed (use nxt in simp)
  then have pre: "hand_over (completed_row now inp j) k = k" if "k = completed_row now inp j \<or> k \<in> set pre" for k
    using that by (auto simp: hand_over_def)
  have "map (completion_rows now inp j) (pre @ j # post) =
      map (hand_over (completed_row now inp j)) (map (at_id (job_ID j) (complete_by now inp j)) (pre @ j # post))"
    by (simp add: completion_rows_def)
  also have "\<dots> = map (hand_over (completed_row now inp j)) (pre @ completed_row now inp j # post)"
    by (simp only: map_at_id [OF dist] completed_row_def)
  finally show ?thesis using pre by (simp add: map_idI)
qed

lemma job_ok_completed:
  assumes "job_ok j" "terminal_job_status (ci_Status inp)" "0 \<le> completion_duration now j"
  shows "job_ok (completed_row now inp j)"
  using assms by (auto simp: job_ok_def terminal_job_status_def)

lemma hex_lower_fixed:
  assumes "\<forall>c \<in> set s. is_hex_lower c"
  shows "TrimSpace s = s" "ToLower s = s"
proof -
  have "\<not> is_space c \<and> to_lower_char c = c" if "is_hex_lower c" for c
    using that by (auto simp: is_hex_lower_def is_space_def) (auto simp: to_lower_char_def less_eq_char_def)
  then have c: "\<forall>c \<in> set s. \<not> is_space c \<and> to_lower_char c = c" using assms by blast
  then show "TrimSpace s = s" by (intro TrimSpace_fixed) (cases "s = []"; simp)
  show "ToLower s = s" using c by (simp add: ToLower_def map_idI)
qed

lemma NormalizeFullCommitSHA_canonical:
  assumes "NormalizeFullCommitSHA raw = Some s"
  shows "IsCanonicalFullCommitSHA s"
proof -
  have "length s = 40" "\<forall>c \<in> set s. is_hex_lower c"
    using assms by (auto simp: NormalizeFullCommitSHA_def Let_def split: if_splits)
  then show ?thesis by (simp add: IsCanonicalFullCommitSHA_def NormalizeFullCommitSHA_def hex_lower_fixed)
qed

lemma output_sha_success:
  assumes "ci_Status inp = JobStatusSuccess" "output_sha inp j \<noteq> []"
  shows "IsCanonicalFullCommitSHA (output_sha inp j)" "job_RepoShaOut (completed_row now inp j) = output_sha inp j"
proof -
  have "normalizeRepoSHA s \<noteq> [] \<Longrightarrow> IsCanonicalFullCommitSHA (normalizeRepoSHA s)" for s
    by (auto simp: normalizeRepoSHA_def NormalizeFullCommitSHA_canonical split: option.splits)
  then show "IsCanonicalFullCommitSHA (output_sha inp j)"
    using assms by (auto simp: output_sha_def Let_def split: if_splits)
  show "job_RepoShaOut (completed_row now inp j) = output_sha inp j"
    using assms(2) by (simp add: completed_row_def complete_by_def complete_job_def)
qed

section \<open>Finishing the run\<close>

lemma update_where_set_run:
  assumes "run_ID (g r') = run_ID r'"
  shows "update_where (\<lambda>s. run_ID s = run_ID r') g (set_run r' rs) = set_run (g r') rs"
  using assms by (auto simp: update_where_def set_run_def)

text \<open>
  The transition of a run whose last active job has just been completed: \<open>f\<close> updates the rows of its
  chain and leaves none active, \<open>e\<close> is the new \<^verbatim>\<open>last_error\<close>.
\<close>

lemma reconcile_finished:
  assumes inv: "db_inv d" and foc: "job_focus d j r pre post" and act: "is_active_job j" and f: "keeps_key f"
    and frame: "\<And>k. k \<in> set (db_jobs d) \<Longrightarrow> k \<notin> set (pre @ j # post) \<Longrightarrow> f k = k"
    and chain: "chain_ok (run_RepoSha0 r) (map f (pre @ j # post))"
    and idle: "\<And>k. k \<in> set (pre @ j # post) \<Longrightarrow> \<not> is_active_job (f k)"
    and nodes: "\<And>k. k \<in> set (pre @ j # post) \<Longrightarrow> job_NodeID (f k) = job_NodeID k"
    and d5: "db_jobs d5 = map f (db_jobs d)" "db_runs d5 = set_run (r\<lparr>run_LastError := e\<rparr>) (db_runs d)"
      "db_waves d5 = db_waves d" "db_nodes d5 = db_nodes d" "db_repos d5 = db_repos d"
    and rec: "reconcileRepoRun now j d5 = (ro, d6)"
  obtains l where "l \<in> set (map f (pre @ j # post))"
    "EvaluateRunAttemptTerminalStatus (ListJobsByRunAttempt (run_ID r) (run_Attempt r) d5) = Inr (finish_eval l)"
    "ro = Some (set_run_status now (run_status_of (job_Status l)) (r\<lparr>run_LastError := e\<rparr>))"
    "db_runs d6 = set_run (set_run_status now (run_status_of (job_Status l)) (r\<lparr>run_LastError := e\<rparr>)) (db_runs d)"
    "db_jobs d6 = db_jobs d5" "db_waves d6 = db_waves d" "db_inv d6"
proof -
  note D = job_focusD [OF foc] and R = active_job_run [OF inv foc act]
  let ?c = "pre @ j # post"
  have mem: "k \<in> set (db_jobs d5) \<and> job_RunID k = run_ID r \<and> job_Attempt k = run_Attempt r \<longleftrightarrow> k \<in> f ` set ?c" for k
  proof
    assume "k \<in> set (db_jobs d5) \<and> job_RunID k = run_ID r \<and> job_Attempt k = run_Attempt r"
    then obtain x where x: "x \<in> set (db_jobs d)" "k = f x" "job_RunID x = run_ID r" "job_Attempt x = run_Attempt r"
      using d5(1) keeps_keyD [OF f] by auto
    then have "x \<in> set ?c" using D(5) R(1) by metis
    then show "k \<in> f ` set ?c" using x(2) by (rule image_eqI [rotated])
  next
    assume "k \<in> f ` set ?c"
    then obtain x where "x \<in> set ?c" "k = f x" by blast
    then show "k \<in> set (db_jobs d5) \<and> job_RunID k = run_ID r \<and> job_Attempt k = run_Attempt r"
      using d5(1) D(5) [of x] R(1) keeps_keyD [OF f] by auto
  qed
  have "f j \<in> f ` set ?c" by simp
  then have "f j \<in> set (db_jobs d5) \<and> job_RunID (f j) = run_ID r \<and> job_Attempt (f j) = run_Attempt r" by (rule mem [THEN iffD2])
  then have ne: "\<exists>k \<in> set (db_jobs d5). job_RunID k = run_ID r \<and> job_Attempt k = run_Attempt r" by (intro bexI [of _ "f j"]) simp_all
  have fin: "\<forall>k \<in> set (db_jobs d5). job_RunID k = run_ID r \<and> job_Attempt k = run_Attempt r \<longrightarrow> \<not> is_active_job k"
  proof (intro ballI impI)
    fix k assume "k \<in> set (db_jobs d5)" "job_RunID k = run_ID r \<and> job_Attempt k = run_Attempt r"
    then obtain x where "x \<in> set ?c" "k = f x" using mem [of k] by (auto simp del: set_append)
    then show "\<not> is_active_job k" using idle by simp
  qed
  obtain l :: job where l: "l \<in> set (db_jobs d5)" "job_RunID l = run_ID r" "job_Attempt l = run_Attempt r"
      and ev: "EvaluateRunAttemptTerminalStatus (ListJobsByRunAttempt (run_ID r) (run_Attempt r) d5) = Inr (finish_eval l)"
      and up: "MaybeUpdateRunStatus now (run_ID r) (run_Attempt r) d5 =
        Inr (True, UpdateRunStatus now (run_ID r) (run_status_of (job_Status l)) d5)"
    by (rule MaybeUpdate_terminal [OF ne fin, where now = now]) blast
  define r' where "r' = set_run_status now (run_status_of (job_Status l)) (r\<lparr>run_LastError := e\<rparr>)"
  define d' where "d' = UpdateRunStatus now (run_ID r) (run_status_of (job_Status l)) d5"
  have runs: "db_runs d' = set_run r' (db_runs d)"
    using update_where_set_run [of "set_run_status now (run_status_of (job_Status l))" "r\<lparr>run_LastError := e\<rparr>"] d5(2)
    by (simp add: d'_def UpdateRunStatus_def r'_def)
  have r': "run_ID r' = run_ID r" "run_WaveID r' = run_WaveID r" "run_RepoID r' = run_RepoID r"
      "run_Attempt r' = run_Attempt r" "run_RepoSha0 r' = run_RepoSha0 r" "\<not> is_active_run r'"
    by (simp_all add: r'_def active_run_iff)
  have d': "db_jobs d' = map f (db_jobs d)" "db_waves d' = db_waves d" "db_nodes d' = db_nodes d" "db_repos d' = db_repos d"
    by (simp_all add: d'_def d5)
  have inv': "db_inv d'"
  proof (rule db_inv_job_update [OF inv foc act f frame chain r'(1-5) _ _ _ d'(1) runs d'(2-4)])
    show "run_Status r' \<noteq> RunStatusQueued" using r'(6) by (auto simp: is_active_run_def)
    show "is_active_run r' \<longleftrightarrow> (\<exists>k \<in> set ?c. is_active_job (f k))" using r'(6) idle by blast
    show "n \<in> node_ID ` set (db_nodes d)" if "k \<in> set ?c" "job_NodeID (f k) = Some n" for k n
      using that nodes D(5) inv by (auto simp: db_inv_def refs_ok_def)
  qed
  have "GetRun (run_ID r) d' = Inr r'"
    using find_by_in [OF db_inv_keys(2) [OF inv'], of r'] runs r'(1) D(2)
    by (auto simp: GetRun_def get_row_def in_set_run)
  then have "ro = Some r' \<and> d6 = d'"
    using rec up D(3) R(1) by (auto simp: reconcileRepoRun_def d'_def [symmetric])
  moreover have "l \<in> set (map f ?c)" using mem l by auto
  ultimately show thesis using ev runs d' inv' d5(1) by (intro that [of l]) (simp_all add: r'_def)
qed

section \<open>Failure\<close>

definition fail_rows :: "timestamp \<Rightarrow> timestamp \<Rightarrow> completionInput \<Rightarrow> job \<Rightarrow> job list \<Rightarrow> job \<Rightarrow> job" where
  "fail_rows now goNow inp j post k =
     apply_updates (cancel_updates now goNow (map (hand_over (completed_row now inp j)) post)) (completion_rows now inp j k)"

lemma keeps_key_fail_rows [intro]: "keeps_key (fail_rows now goNow inp j post)"
  unfolding fail_rows_def
  by (rule keeps_key_comp [OF keeps_key_apply_updates keeps_key_completion_rows]) (auto simp: cancel_updates_def)

lemma cancelled_row_fields [simp]:
  "job_ID (cancelled_row now goNow k x) = job_ID x" "job_NextID (cancelled_row now goNow k x) = job_NextID x"
  "job_NodeID (cancelled_row now goNow k x) = job_NodeID x" "job_Status (cancelled_row now goNow k x) = JobStatusCancelled"
  "job_DurationMs (cancelled_row now goNow k x) = cancel_duration goNow k"
  by (simp_all add: cancelled_row_def set_job_status_def)

lemma fail_rows_chain:
  assumes c: "chain_ok sha0 (pre @ j # post)"
  shows "map (fail_rows now goNow inp j post) (pre @ j # post) =
    pre @ completed_row now inp j # map (\<lambda>k. cancelled_row now goNow k k) (map (hand_over (completed_row now inp j)) post)"
proof -
  let ?j = "completed_row now inp j"
  let ?us = "cancel_updates now goNow (map (hand_over ?j) post)"
  have dist: "distinct (map job_ID (pre @ j # post))" using c by (rule chain_ok_distinct)
  have us: "fst ` set ?us = job_ID ` set post" by (auto simp: cancel_updates_def image_image)
  have out: "apply_updates ?us k = k" if "k = ?j \<or> k \<in> set pre" for k
    using that dist us by (intro apply_updates_frame) auto
  have post: "map (apply_updates ?us) (map (hand_over ?j) post) = map (\<lambda>k. cancelled_row now goNow k k) (map (hand_over ?j) post)"
    unfolding cancel_updates_def using dist by (intro map_apply_updates) (simp add: comp_def)
  have "map (fail_rows now goNow inp j post) (pre @ j # post) =
      map (apply_updates ?us) (map (completion_rows now inp j) (pre @ j # post))"
    by (simp add: fail_rows_def)
  also have "\<dots> = map (apply_updates ?us) (pre @ ?j # map (hand_over ?j) post)"
    by (simp only: completion_rows_chain [OF c])
  also have "\<dots> = pre @ ?j # map (apply_updates ?us) (map (hand_over ?j) post)"
    using out by (simp add: map_idI del: map_map)
  finally show ?thesis by (simp only: post)
qed

lemma chain_ok_fail_rows:
  assumes c: "chain_ok sha0 (pre @ j # post)" and run: "job_Status j = JobStatusRunning"
    and st: "terminal_job_status (ci_Status inp)" "ci_Status inp \<noteq> JobStatusSuccess" and dur: "0 \<le> completion_duration now j"
  shows "chain_ok sha0 (map (fail_rows now goNow inp j post) (pre @ j # post))"
  unfolding fail_rows_chain [OF c]
proof (rule chain_ok_fail [OF c])
  have ok: "\<forall>k \<in> set (pre @ j # post). job_ok k" using c by (simp add: chain_ok_def)
  show "job_ok (completed_row now inp j)" using ok st(1) dur by (intro job_ok_completed) simp_all
  fix k assume "k \<in> set (map (\<lambda>k. cancelled_row now goNow k k) (map (hand_over (completed_row now inp j)) post))"
  then obtain x where x: "x \<in> set post" "k = cancelled_row now goNow (hand_over (completed_row now inp j) x)
      (hand_over (completed_row now inp j) x)" by auto
  then have "job_NodeID k = job_NodeID x" "job_Status k = JobStatusCancelled" "0 \<le> job_DurationMs k"
    by (simp_all add: cancel_duration_nonneg)
  moreover have "job_NodeID x \<noteq> Some []" using ok x(1) by (simp add: job_ok_def)
  ultimately show "job_Status k = JobStatusCancelled \<and> job_ok k" by (simp add: job_ok_def)
qed (use run st in \<open>auto simp: ready_status_def terminal_iff_inactive\<close>)

lemma focus_rows:
  assumes foc: "job_focus d j r pre post" and f: "keeps_key f" and d2: "db_jobs d2 = map f (db_jobs d)"
  shows "set (map f (pre @ j # post)) = set (ListJobsByRunAttempt (job_RunID j) (job_Attempt j) d2)"
proof -
  have "set (pre @ j # post) = {k \<in> set (db_jobs d). job_RunID k = job_RunID j \<and> job_Attempt k = job_Attempt j}"
    unfolding job_focusD(3) [OF foc] using job_focusD(5) [OF foc] by blast
  then have "set (map f (pre @ j # post)) = f ` {k \<in> set (db_jobs d). job_RunID k = job_RunID j \<and> job_Attempt k = job_Attempt j}"
    by (simp only: set_map)
  also have "\<dots> = {k \<in> f ` set (db_jobs d). job_RunID k = job_RunID j \<and> job_Attempt k = job_Attempt j}"
    using keeps_keyD(3,4) [OF f] by auto
  finally show ?thesis by (simp only: set_ListJobsByRunAttempt d2 set_map)
qed

definition set_error :: "run_id \<Rightarrow> (string option \<Rightarrow> string option) \<Rightarrow> db \<Rightarrow> db" where
  "set_error i e d = d\<lparr>db_runs := update_where (\<lambda>r. run_ID r = i) (run_LastError_update e) (db_runs d)\<rparr>"

lemma set_error_comp: "set_error i e (set_error i e' d) = set_error i (\<lambda>x. e (e' x)) d"
  by (simp add: set_error_def update_where_def comp_def)

lemma set_last_error_eq: "set_last_error i m d = set_error i (\<lambda>x. case m of None \<Rightarrow> x | Some _ \<Rightarrow> m) d"
  by (cases m) (simp_all add: set_last_error_def set_error_def UpdateRunError_def update_where_def map_idI)

lemma set_error_fields [simp]:
  "db_jobs (set_error i e d) = db_jobs d" "db_waves (set_error i e d) = db_waves d"
  "db_nodes (set_error i e d) = db_nodes d" "db_repos (set_error i e d) = db_repos d"
  by (simp_all add: set_error_def)

text \<open>The \<^verbatim>\<open>last_error\<close> a completion leaves, given the one before.\<close>

definition completion_error_text :: "completionInput \<Rightarrow> job \<Rightarrow> raw_json \<Rightarrow> string option \<Rightarrow> string option" where
  "completion_error_text inp job meta old =
     (if ci_Status inp = JobStatusFail \<or> ci_Status inp = JobStatusError
      then (case (if ci_Status inp = JobStatusFail \<and> IsGateJobType (job_JobType job)
                  then formatStackGateError (job_JobType job) meta else None) of
              Some m \<Rightarrow> Some m
            | None \<Rightarrow> (case lastErrorFromTerminalJob inp job of Some m \<Rightarrow> Some m | None \<Rightarrow> old))
      else old)"

definition post_actions ::
  "timestamp \<Rightarrow> timestamp \<Rightarrow> completionInput \<Rightarrow> job \<Rightarrow> raw_json \<Rightarrow> db \<Rightarrow> completion_error + run option \<times> db" where
  "post_actions now goNow inp job persistedMeta d2 =
     res_bind (lift_store (onFail now goNow inp job persistedMeta d2)) (\<lambda>d3.
     res_bind (lift_store (onCancelled now goNow inp job d3)) (\<lambda>d4.
     res_bind (lift_store (onSuccess inp job d4)) (\<lambda>d5.
       Inr (reconcileRepoRun now job d5))))"

lemma set_error_id: "set_error i (\<lambda>x. x) d = d"
  by (simp add: set_error_def update_where_def map_idI)

lemma post_actions_fail:
  assumes st: "terminal_job_status (ci_Status inp)" "ci_Status inp \<noteq> JobStatusSuccess"
    and c: "cancelRemainingJobsAfterFailure now goNow job (set_error (job_RunID job) (completion_error_text inp job meta) d2) = Inr d5"
  shows "post_actions now goNow inp job meta d2 = Inr (reconcileRepoRun now job d5)"
proof -
  define gate where "gate = (if ci_Status inp = JobStatusFail \<and> IsGateJobType (job_JobType job)
      then formatStackGateError (job_JobType job) meta else None)"
  have err: "(if ci_Status inp = JobStatusFail \<and> IsGateJobType (job_JobType job)
      then set_last_error i (formatStackGateError (job_JobType job) meta) d else d) = set_last_error i gate d" for i d
    by (simp add: gate_def set_last_error_def)
  consider "ci_Status inp = JobStatusCancelled" | "ci_Status inp = JobStatusFail \<or> ci_Status inp = JobStatusError"
    using st by (auto simp: terminal_job_status_def)
  then show ?thesis
  proof cases
    case 1
    have "completion_error_text inp job meta = (\<lambda>x. x)" using 1 by (simp add: completion_error_text_def fun_eq_iff)
    with 1 c show ?thesis
      by (simp add: post_actions_def onFail_def onCancelled_def onSuccess_def lift_store_def set_error_id)
  next
    case 2
    have "set_last_error (job_RunID job) gate (set_last_error (job_RunID job) (lastErrorFromTerminalJob inp job) d2) =
        set_error (job_RunID job) (completion_error_text inp job meta) d2"
      unfolding set_last_error_eq set_error_comp
      using 2 by (auto simp: completion_error_text_def gate_def fun_eq_iff intro!: arg_cong [where f = "\<lambda>e. set_error _ e _"] split: option.split)
    with 2 c show ?thesis
      by (auto simp: post_actions_def onFail_def onCancelled_def onSuccess_def lift_store_def err Let_def)
  qed
qed

lemma complete_Inr:
  assumes c: "complete now goNow inp j d = Inr res" and keys: "distinct (map job_ID (db_jobs d))" and j: "j \<in> set (db_jobs d)"
  obtains ms meta where "job_NodeID j = Some (ci_NodeID inp)" "job_Status j = JobStatusRunning" "0 \<le> completion_duration now j"
    "ci_Status inp = JobStatusSuccess \<Longrightarrow> job_NextID j \<noteq> None \<Longrightarrow>
       IsCanonicalFullCommitSHA (job_RepoShaIn j) \<and> output_sha inp j \<noteq> []"
    "post_actions now goNow inp j meta
       (d\<lparr>db_job_metrics := ms, db_jobs := map (completion_rows now inp j) (db_jobs d)\<rparr>) = Inr res"
proof -
  from c obtain d1 meta d2 where pm: "persist_metrics inp j d = Inr d1"
      and pc: "persist_completion now inp (output_sha inp j) j d1 = Inr (meta, d2)"
      and pa: "post_actions now goNow inp j meta d2 = Inr res"
      and g: "job_NodeID j = Some (ci_NodeID inp)" "job_Status j = JobStatusRunning"
      "ci_Status inp = JobStatusSuccess \<Longrightarrow> job_NextID j \<noteq> None \<Longrightarrow>
         IsCanonicalFullCommitSHA (job_RepoShaIn j) \<and> output_sha inp j \<noteq> []"
    by (auto simp: complete_def post_actions_def Let_def res_bind_Inr_iff split: if_splits)
  obtain ms where d1: "d1 = d\<lparr>db_job_metrics := ms\<rparr>" using pm by (rule persist_metrics_Inr)
  have "d2 = d1\<lparr>db_jobs := map (completion_rows now inp j) (db_jobs d1)\<rparr>" "0 \<le> completion_duration now j"
    using persist_completion_Inr [OF _ _ pc] keys j d1 by simp_all
  with d1 pa g that show thesis by auto
qed

lemma set_error_run:
  assumes "distinct (map run_ID (db_runs d))" "r \<in> set (db_runs d)" "db_runs d2 = db_runs d"
  shows "db_runs (set_error (run_ID r) e d2) = set_run (r\<lparr>run_LastError := e (run_LastError r)\<rparr>) (db_runs d)"
proof -
  have "run_LastError_update e r = r\<lparr>run_LastError := e (run_LastError r)\<rparr>" by (cases r) simp
  moreover have "db_runs (set_error (run_ID r) e d2) = set_run (run_LastError_update e r) (db_runs d)"
    using update_where_run [OF assms(1,2), of "run_LastError_update e"] assms(3) by (simp add: set_error_def)
  ultimately show ?thesis by (simp only:)
qed

lemma fail_rows_frame:
  assumes "job_focus d j r pre post" "distinct (map job_ID (db_jobs d))" "k \<in> set (db_jobs d)" "k \<notin> set (pre @ j # post)"
  shows "completion_rows now inp j k = k" "fail_rows now goNow inp j post k = k"
proof -
  note D = job_focusD [OF assms(1)]
  have id: "job_ID k \<noteq> job_ID x" if "x \<in> set (pre @ j # post)" for x
  proof -
    have "x \<in> set (db_jobs d)" using that D(5) by blast
    then show ?thesis using distinct_key_eq [OF assms(2,3)] that assms(4) by blast
  qed
  have nxt: "job_NextID j = (case post of [] \<Rightarrow> None | y # _ \<Rightarrow> Some (job_ID y))"
    using D(4) by (intro is_chain_at [of job_ID job_NextID pre]) (simp add: chain_ok_def)
  have "Some (job_ID k) \<noteq> job_NextID j" using nxt id by (cases post) auto
  then show c: "completion_rows now inp j k = k"
    using id [of j] by (simp add: completion_rows_def at_id_def hand_over_def)
  have "job_ID k \<notin> job_ID ` set post" using id by (metis imageE in_set_conv_decomp UnCI set_append list.set_intros(2))
  then have "job_ID k \<notin> fst ` set (cancel_updates now goNow (map (hand_over (completed_row now inp j)) post))"
    by (simp add: cancel_updates_def image_image)
  then show "fail_rows now goNow inp j post k = k" by (simp add: fail_rows_def c apply_updates_frame)
qed

lemma complete_fail_cancel:
  assumes inv: "db_inv d" and foc: "job_focus d j r pre post" and run: "job_Status j = JobStatusRunning"
    and d2: "db_jobs d2 = map (completion_rows now inp j) (db_jobs d)"
  shows "cancelRemainingJobsAfterFailure now goNow j d2 =
    Inr (d2\<lparr>db_jobs := map (fail_rows now goNow inp j post) (db_jobs d)\<rparr>)"
proof -
  note D = job_focusD [OF foc]
  let ?j = "completed_row now inp j" and ?post = "map (hand_over (completed_row now inp j)) post"
  have chain: "map (completion_rows now inp j) (pre @ j # post) = pre @ ?j # ?post"
    by (rule completion_rows_chain [OF D(4)])
  have ids: "map job_ID (pre @ ?j # ?post) = map job_ID (pre @ j # post)"
    "map job_NextID (pre @ ?j # ?post) = map job_NextID (pre @ j # post)" by (simp_all add: comp_def)
  have ch: "is_chain job_ID job_NextID (pre @ ?j # ?post)"
    using D(4) is_chain_cong [OF ids] by (simp add: chain_ok_def)
  have keys: "distinct (map job_ID (db_jobs d2))"
    using db_inv_keys(1) [OF inv] unfolding d2 by (simp add: comp_def keeps_keyD [OF keeps_key_completion_rows])
  have rows: "set (pre @ ?j # ?post) = set (ListJobsByRunAttempt (job_RunID ?j) (job_Attempt ?j) d2)"
    using focus_rows [OF foc keeps_key_completion_rows d2] unfolding chain by simp
  have "\<forall>k \<in> set post. job_Status k = JobStatusCreated"
    by (rule chain_ok_ready(2) [OF D(4)]) (simp add: run ready_status_def)
  then have act: "\<forall>k \<in> set ?post. \<not> terminal_job_status (job_Status k)" by (simp add: terminal_job_status_def)
  have dist: "distinct (map job_ID (pre @ ?j # ?post))" unfolding ids(1) by (rule chain_ok_distinct [OF D(4)])
  have "cancelRemainingJobsAfterFailure now goNow j d2 =
      Inr (d2\<lparr>db_jobs := map (apply_updates (cancel_updates now goNow ?post)) (db_jobs d2)\<rparr>)"
    by (rule cancelRemaining_chain [OF keys ch dist rows act]) simp_all
  also have "map (apply_updates (cancel_updates now goNow ?post)) (db_jobs d2) = map (fail_rows now goNow inp j post) (db_jobs d)"
    by (simp add: d2 fail_rows_def)
  finally show ?thesis .
qed

lemma complete_fail:
  assumes inv: "db_inv d" and foc: "job_focus d j r pre post"
    and st: "terminal_job_status (ci_Status inp)" "ci_Status inp \<noteq> JobStatusSuccess"
    and c: "complete now goNow inp j d = Inr (ro, d')"
  obtains l e where "db_inv d'" "db_jobs d' = map (fail_rows now goNow inp j post) (db_jobs d)" "db_waves d' = db_waves d"
    "l \<in> set (map (fail_rows now goNow inp j post) (pre @ j # post))"
    "EvaluateRunAttemptTerminalStatus (ListJobsByRunAttempt (run_ID r) (run_Attempt r) d') = Inr (finish_eval l)"
    "ro = Some (set_run_status now (run_status_of (job_Status l)) (r\<lparr>run_LastError := e\<rparr>))"
    "db_runs d' = set_run (set_run_status now (run_status_of (job_Status l)) (r\<lparr>run_LastError := e\<rparr>)) (db_runs d)"
proof -
  note D = job_focusD [OF foc] and K = db_inv_keys [OF inv]
  obtain ms meta where run: "job_Status j = JobStatusRunning" and dur: "0 \<le> completion_duration now j"
      and pa: "post_actions now goNow inp j meta
        (d\<lparr>db_job_metrics := ms, db_jobs := map (completion_rows now inp j) (db_jobs d)\<rparr>) = Inr (ro, d')"
    using complete_Inr [OF c K(1) D(1)] by metis
  define d2 where "d2 = d\<lparr>db_job_metrics := ms, db_jobs := map (completion_rows now inp j) (db_jobs d)\<rparr>"
  define d3 where "d3 = set_error (job_RunID j) (completion_error_text inp j meta) d2"
  define d5 where "d5 = d3\<lparr>db_jobs := map (fail_rows now goNow inp j post) (db_jobs d)\<rparr>"
  define e where "e = completion_error_text inp j meta (run_LastError r)"
  have "cancelRemainingJobsAfterFailure now goNow j d3 = Inr d5"
    unfolding d5_def by (rule complete_fail_cancel [OF inv foc run]) (simp add: d3_def d2_def)
  then have "post_actions now goNow inp j meta d2 = Inr (reconcileRepoRun now j d5)"
    unfolding d3_def by (rule post_actions_fail [OF st])
  then have rec: "reconcileRepoRun now j d5 = (ro, d')" using pa by (simp add: d2_def)
  have runs: "db_runs d5 = set_run (r\<lparr>run_LastError := e\<rparr>) (db_runs d)"
    using set_error_run [OF K(2) D(2), of d2] by (simp add: d5_def d3_def d2_def e_def D(3))
  have idle: "\<not> is_active_job (fail_rows now goNow inp j post k)" if "k \<in> set (pre @ j # post)" for k
  proof -
    have "fail_rows now goNow inp j post k \<in> set (map (fail_rows now goNow inp j post) (pre @ j # post))"
      unfolding set_map using that by (rule imageI)
    then show ?thesis
      unfolding fail_rows_chain [OF D(4)] using st(1) chain_ok_ready(1) [OF D(4)] run
      by (auto simp: is_active_job_status terminal_iff_inactive ready_status_def) (auto simp: active_status_def)
  qed
  have nodes: "job_NodeID (fail_rows now goNow inp j post k) = job_NodeID k" for k
    by (simp add: fail_rows_def apply_updates_def cancel_updates_def completion_rows_def at_id_def complete_by_def complete_job_def
        split: option.split) (auto dest!: map_of_SomeD)
  have act: "is_active_job j" by (simp add: run is_active_job_def)
  have d5: "db_jobs d5 = map (fail_rows now goNow inp j post) (db_jobs d)" "db_waves d5 = db_waves d"
      "db_nodes d5 = db_nodes d" "db_repos d5 = db_repos d"
    by (simp_all add: d5_def d3_def d2_def)
  obtain l where L: "l \<in> set (map (fail_rows now goNow inp j post) (pre @ j # post))"
      "EvaluateRunAttemptTerminalStatus (ListJobsByRunAttempt (run_ID r) (run_Attempt r) d5) = Inr (finish_eval l)"
      "ro = Some (set_run_status now (run_status_of (job_Status l)) (r\<lparr>run_LastError := e\<rparr>))"
      "db_runs d' = set_run (set_run_status now (run_status_of (job_Status l)) (r\<lparr>run_LastError := e\<rparr>)) (db_runs d)"
      "db_jobs d' = db_jobs d5" "db_waves d' = db_waves d" "db_inv d'"
    by (rule reconcile_finished [OF inv foc act keeps_key_fail_rows fail_rows_frame(2) [OF foc K(1)]
          chain_ok_fail_rows [OF D(4) run st dur] idle nodes d5(1) runs d5(2-4) rec])
  have "ListJobsByRunAttempt (run_ID r) (run_Attempt r) d' = ListJobsByRunAttempt (run_ID r) (run_Attempt r) d5"
    by (simp add: ListJobsByRunAttempt_def L(5))
  then show thesis using L d5(1) by (intro that [of l e]) (simp_all only:)
qed

section \<open>Success\<close>

lemma post_actions_last:
  assumes "ci_Status inp = JobStatusSuccess" "job_NextID j = None"
  shows "post_actions now goNow inp j meta d2 = Inr (reconcileRepoRun now j d2)"
  using assms by (simp add: post_actions_def onFail_def onCancelled_def onSuccess_def lift_store_def)

lemma completion_rows_node: "job_NodeID (completion_rows now inp j k) = job_NodeID k"
  by (simp add: completion_rows_def at_id_def complete_by_def complete_job_def)

lemma complete_last:
  assumes inv: "db_inv d" and foc: "job_focus d j r pre []" and st: "ci_Status inp = JobStatusSuccess"
    and c: "complete now goNow inp j d = Inr (ro, d')"
  obtains l where "db_inv d'" "db_jobs d' = map (completion_rows now inp j) (db_jobs d)" "db_waves d' = db_waves d"
    "l \<in> set (pre @ [completed_row now inp j])"
    "EvaluateRunAttemptTerminalStatus (ListJobsByRunAttempt (run_ID r) (run_Attempt r) d') = Inr (finish_eval l)"
    "ro = Some (set_run_status now (run_status_of (job_Status l)) r)"
    "db_runs d' = set_run (set_run_status now (run_status_of (job_Status l)) r) (db_runs d)"
proof -
  note D = job_focusD [OF foc] and K = db_inv_keys [OF inv]
  obtain ms meta where run: "job_Status j = JobStatusRunning" and dur: "0 \<le> completion_duration now j"
      and pa: "post_actions now goNow inp j meta
        (d\<lparr>db_job_metrics := ms, db_jobs := map (completion_rows now inp j) (db_jobs d)\<rparr>) = Inr (ro, d')"
    using complete_Inr [OF c K(1) D(1)] by metis
  define d2 where "d2 = d\<lparr>db_job_metrics := ms, db_jobs := map (completion_rows now inp j) (db_jobs d)\<rparr>"
  have "job_NextID j = None"
    using D(4) is_chain_at [of job_ID job_NextID pre j "[]"] by (simp add: chain_ok_def)
  then have rec: "reconcileRepoRun now j d2 = (ro, d')" using pa post_actions_last [OF st] by (simp add: d2_def)
  have chain: "map (completion_rows now inp j) (pre @ [j]) = pre @ [completed_row now inp j]"
    using completion_rows_chain [OF D(4)] by simp
  have ok: "job_ok j" using D(4) by (simp add: chain_ok_def)
  have ch: "chain_ok (run_RepoSha0 r) (map (completion_rows now inp j) (pre @ [j]))"
    unfolding chain
    by (rule chain_ok_succeed_last [OF D(4)])
      (simp_all add: run ready_status_def st job_ok_completed [OF ok] dur terminal_job_status_def)
  have idle: "\<not> is_active_job (completion_rows now inp j k)" if "k \<in> set (pre @ [j])" for k
  proof -
    have "completion_rows now inp j k \<in> set (map (completion_rows now inp j) (pre @ [j]))"
      unfolding set_map using that by (rule imageI)
    then show ?thesis
      unfolding chain using st chain_ok_ready(1) [OF D(4)] run by (auto simp: is_active_job_def ready_status_def)
  qed
  have act: "is_active_job j" by (simp add: run is_active_job_def)
  have same: "r\<lparr>run_LastError := run_LastError r\<rparr> = r" by simp
  have d2: "db_jobs d2 = map (completion_rows now inp j) (db_jobs d)"
      "db_runs d2 = set_run (r\<lparr>run_LastError := run_LastError r\<rparr>) (db_runs d)"
      "db_waves d2 = db_waves d" "db_nodes d2 = db_nodes d" "db_repos d2 = db_repos d"
    by (simp_all add: d2_def set_run_id [OF K(2) D(2)])
  obtain l where L: "l \<in> set (map (completion_rows now inp j) (pre @ [j]))"
      "EvaluateRunAttemptTerminalStatus (ListJobsByRunAttempt (run_ID r) (run_Attempt r) d2) = Inr (finish_eval l)"
      "ro = Some (set_run_status now (run_status_of (job_Status l)) (r\<lparr>run_LastError := run_LastError r\<rparr>))"
      "db_runs d' = set_run (set_run_status now (run_status_of (job_Status l)) (r\<lparr>run_LastError := run_LastError r\<rparr>)) (db_runs d)"
      "db_jobs d' = db_jobs d2" "db_waves d' = db_waves d" "db_inv d'"
    by (rule reconcile_finished [OF inv foc act keeps_key_completion_rows fail_rows_frame(1) [OF foc K(1)] ch idle
          completion_rows_node d2 rec])
  have "ListJobsByRunAttempt (run_ID r) (run_Attempt r) d' = ListJobsByRunAttempt (run_ID r) (run_Attempt r) d2"
    by (simp add: ListJobsByRunAttempt_def L(5))
  then show thesis using L d2(1) unfolding same chain by (intro that [of l]) (simp_all only:)
qed

text \<open>Only the predecessor in the chain points to a job.\<close>

lemma unique_predecessor:
  assumes inv: "db_inv d" and foc: "job_focus d j r pre (y # ys)" and p: "p \<in> set (db_jobs d)" "job_NextID p = Some (job_ID y)"
  shows "p = j"
proof -
  note D = job_focusD [OF foc] and K = db_inv_keys [OF inv]
  let ?c = "pre @ j # y # ys"
  have y: "y \<in> set ?c" by simp
  then have yd: "y \<in> set (db_jobs d)" using D(5) by blast
  obtain r' pre' post' where foc': "job_focus d p r' pre' post'" using inv p(1) by (rule job_focusE)
  note D' = job_focusD [OF foc']
  have "is_chain job_ID job_NextID (pre' @ p # post')" using D'(4) by (simp add: chain_ok_def)
  then have "job_NextID p = (case post' of [] \<Rightarrow> None | z # _ \<Rightarrow> Some (job_ID z))" by (rule is_chain_at)
  then obtain z zs where z: "post' = z # zs" "job_ID z = job_ID y" using p(2) by (cases post') auto
  have zin: "z \<in> set (pre' @ p # post')" using z(1) by simp
  then have "z \<in> set (db_jobs d)" using D'(5) by blast
  then have "z = y" using distinct_key_eq [OF K(1) _ yd z(2)] by blast
  then have "job_RunID p = job_RunID y \<and> job_Attempt p = job_Attempt y" using D'(3,5) zin by metis
  then have pc: "p \<in> set ?c" using D(3,5) y p(1) by metis
  have ch: "is_chain job_ID job_NextID ?c" and dist: "distinct (map job_ID ?c)"
    using D(4) by (simp_all add: chain_ok_def)
  obtain us vs where uv: "?c = us @ p # vs" using split_list [OF pc] by blast
  have "job_NextID p = (case vs of [] \<Rightarrow> None | w # _ \<Rightarrow> Some (job_ID w))" using is_chain_at ch uv by metis
  then obtain w ws where w: "vs = w # ws" "job_ID w = job_ID y" using p(2) by (cases vs) auto
  have "w \<in> set ?c" unfolding uv w(1) by simp
  then have "w \<in> set (db_jobs d)" using D(5) by blast
  then have wy: "w = y" using distinct_key_eq [OF K(1) _ yd w(2)] by blast
  have "distinct ?c" using dist by (simp only: distinct_map)
  then have "y \<notin> set (pre @ [j])" "y \<notin> set ys" by auto
  moreover have "(pre @ [j]) @ y # ys = (us @ [p]) @ y # ws" using uv w(1) wy by simp
  ultimately have "pre @ [j] = us @ [p]" by (metis append_Cons_eq_iff)
  then show ?thesis by simp
qed

definition advance_rows :: "timestamp \<Rightarrow> completionInput \<Rightarrow> job \<Rightarrow> job \<Rightarrow> job \<Rightarrow> job" where
  "advance_rows now inp j y k = at_id (job_ID y) (job_Status_update (\<lambda>_. JobStatusQueued)) (completion_rows now inp j k)"

lemma keeps_key_advance_rows [intro]: "keeps_key (advance_rows now inp j y)"
  unfolding advance_rows_def by (rule keeps_key_comp) auto

lemma advance_rows_chain:
  assumes c: "chain_ok sha0 (pre @ j # y # ys)"
  shows "map (advance_rows now inp j y) (pre @ j # y # ys) =
    pre @ completed_row now inp j # (hand_over (completed_row now inp j) y)\<lparr>job_Status := JobStatusQueued\<rparr> # ys"
proof -
  let ?j = "completed_row now inp j"
  have dist: "distinct (map job_ID (pre @ j # y # ys))" using c by (rule chain_ok_distinct)
  have nxt: "job_NextID j = Some (job_ID y)"
    using c is_chain_at [of job_ID job_NextID pre j "y # ys"] by (simp add: chain_ok_def)
  have ys: "map (hand_over ?j) ys = ys"
    using dist by (intro map_idI) (auto simp: hand_over_def nxt dest: notin_imageD)
  have "map (advance_rows now inp j y) (pre @ j # y # ys) =
      map (at_id (job_ID y) (job_Status_update (\<lambda>_. JobStatusQueued))) (map (completion_rows now inp j) (pre @ j # y # ys))"
    by (simp add: advance_rows_def)
  also have "map (completion_rows now inp j) (pre @ j # y # ys) = (pre @ [?j]) @ hand_over ?j y # ys"
    by (simp only: completion_rows_chain [OF c] list.map ys append_assoc append_Cons append_Nil)
  also have "map (at_id (job_ID y) (job_Status_update (\<lambda>_. JobStatusQueued))) \<dots> =
      (pre @ [?j]) @ (hand_over ?j y)\<lparr>job_Status := JobStatusQueued\<rparr> # ys"
    using map_at_id [of "pre @ [?j]" "hand_over ?j y" ys "job_Status_update (\<lambda>_. JobStatusQueued)"] dist by simp
  finally show ?thesis by simp
qed

lemma chain_ok_advance_rows:
  assumes c: "chain_ok sha0 (pre @ j # y # ys)" and run: "job_Status j = JobStatusRunning"
    and st: "ci_Status inp = JobStatusSuccess" "output_sha inp j \<noteq> []" and dur: "0 \<le> completion_duration now j"
  shows "chain_ok sha0 (map (advance_rows now inp j y) (pre @ j # y # ys))"
  unfolding advance_rows_chain [OF c]
proof (rule chain_ok_advance [OF c])
  have ok: "job_ok j" "job_ok y" using c by (simp_all add: chain_ok_def)
  have "job_Status y = JobStatusCreated" using chain_ok_ready(2) [OF c] run by (simp add: ready_status_def)
  then show "job_ok ((hand_over (completed_row now inp j) y)\<lparr>job_Status := JobStatusQueued\<rparr>)"
    using ok(2) by (simp add: job_ok_def)
  show "job_ok (completed_row now inp j)" using ok(1) st(1) dur by (intro job_ok_completed) (simp_all add: terminal_job_status_def)
  have "job_NextID j = Some (job_ID y)"
    using c is_chain_at [of job_ID job_NextID pre j "y # ys"] by (simp add: chain_ok_def)
  then show "job_RepoShaIn ((hand_over (completed_row now inp j) y)\<lparr>job_Status := JobStatusQueued\<rparr>) =
      job_RepoShaOut (completed_row now inp j)"
    using st(2) by (simp add: hand_over_def receive_sha_def output_sha_success [OF st])
  show "IsCanonicalFullCommitSHA (job_RepoShaOut (completed_row now inp j))"
    by (simp add: output_sha_success [OF st])
qed (use run st in \<open>simp_all add: ready_status_def\<close>)

lemma promote_successor:
  assumes inv: "db_inv d" and foc: "job_focus d j r pre (y # ys)" and run: "job_Status j = JobStatusRunning"
    and st: "ci_Status inp = JobStatusSuccess" and d2: "db_jobs d2 = map (completion_rows now inp j) (db_jobs d)"
  obtains y' where "PromoteJobByIDIfUnblocked (\<lambda>_. False) (job_ID y) d2 =
    Inr (y', d2\<lparr>db_jobs := map (advance_rows now inp j y) (db_jobs d)\<rparr>)"
proof -
  note D = job_focusD [OF foc] and K = db_inv_keys [OF inv] and F = keeps_keyD [OF keeps_key_completion_rows]
  let ?y = "completion_rows now inp j y"
  have "y \<in> set (pre @ j # y # ys)" by simp
  then have y: "y \<in> set (db_jobs d)" using D(5) by blast
  have "distinct (map job_ID (db_jobs d2))" unfolding d2 using K(1) by (simp add: comp_def F)
  moreover have "?y \<in> set (db_jobs d2)" using y by (simp add: d2)
  ultimately have find: "find_by job_ID (job_ID y) (db_jobs d2) = Some ?y" using find_by_in [of job_ID "db_jobs d2" ?y] F by simp
  have dist: "distinct (map job_ID (pre @ j # y # ys))" using D(4) by (rule chain_ok_distinct)
  have "job_Status y = JobStatusCreated" using chain_ok_ready(2) [OF D(4)] run by (simp add: ready_status_def)
  then have created: "job_Status ?y = JobStatusCreated" using dist by (auto simp: completion_rows_def at_id_def)
  have ready: "job_Status p = JobStatusSuccess" if p: "p \<in> set (db_jobs d2)" "job_NextID p = Some (job_ID y)" for p
  proof -
    obtain k where k: "k \<in> set (db_jobs d)" "p = completion_rows now inp j k" using p(1) by (auto simp: d2)
    then have "k = j" using unique_predecessor [OF inv foc] p(2) F by simp
    then show ?thesis using k(2) st
      by (simp add: completion_rows_def at_id_def completed_row_def complete_by_def complete_job_def)
  qed
  then have "\<not> (\<exists>p \<in> set (db_jobs d2). job_NextID p = Some (job_ID y) \<and> job_Status p \<noteq> JobStatusSuccess)" by blast
  with find created show thesis
    by (intro that [of "?y\<lparr>job_Status := JobStatusQueued\<rparr>"])
      (simp add: PromoteJobByIDIfUnblocked_def update_where_at_id d2 advance_rows_def [abs_def] comp_def)
qed

lemma complete_advance:
  assumes inv: "db_inv d" and foc: "job_focus d j r pre (y # ys)" and st: "ci_Status inp = JobStatusSuccess"
    and c: "complete now goNow inp j d = Inr (ro, d')"
  shows "db_inv d'" "ro = None" "db_jobs d' = map (advance_rows now inp j y) (db_jobs d)" "db_runs d' = db_runs d"
    "db_waves d' = db_waves d" "output_sha inp j \<noteq> []" "db_nodes d' = db_nodes d"
proof -
  note D = job_focusD [OF foc] and K = db_inv_keys [OF inv]
  have nxt: "job_NextID j = Some (job_ID y)"
    using D(4) is_chain_at [of job_ID job_NextID pre j "y # ys"] by (simp add: chain_ok_def)
  obtain ms meta where run: "job_Status j = JobStatusRunning" and dur: "0 \<le> completion_duration now j"
      and sha: "output_sha inp j \<noteq> []"
      and pa: "post_actions now goNow inp j meta
        (d\<lparr>db_job_metrics := ms, db_jobs := map (completion_rows now inp j) (db_jobs d)\<rparr>) = Inr (ro, d')"
    using complete_Inr [OF c K(1) D(1)] st nxt by (metis option.distinct(1))
  define d2 where "d2 = d\<lparr>db_job_metrics := ms, db_jobs := map (completion_rows now inp j) (db_jobs d)\<rparr>"
  define d5 where "d5 = d2\<lparr>db_jobs := map (advance_rows now inp j y) (db_jobs d)\<rparr>"
  obtain y' where "PromoteJobByIDIfUnblocked (\<lambda>_. False) (job_ID y) d2 = Inr (y', d5)"
    using promote_successor [OF inv foc run st, of d2] by (auto simp: d2_def d5_def)
  then have rec: "reconcileRepoRun now j d5 = (ro, d')"
    using pa nxt by (simp add: d2_def [symmetric] post_actions_def onFail_def onCancelled_def onSuccess_def lift_store_def st)
  let ?y = "(hand_over (completed_row now inp j) y)\<lparr>job_Status := JobStatusQueued\<rparr>"
  have chain: "map (advance_rows now inp j y) (pre @ j # y # ys) = pre @ completed_row now inp j # ?y # ys"
    by (rule advance_rows_chain [OF D(4)])
  then have fy: "advance_rows now inp j y y = ?y" by simp
  have yin: "y \<in> set (pre @ j # y # ys)" by simp
  then have y: "y \<in> set (db_jobs d)" "job_RunID y = job_RunID j" "job_Attempt y = job_Attempt j" using D(3,5) by metis+
  have "?y \<in> set (db_jobs d5)" unfolding d5_def using y(1) fy by force
  moreover have "job_RunID ?y = job_RunID j \<and> job_Attempt ?y = job_Attempt j \<and> is_active_job ?y"
    using y by (simp add: is_active_job_def)
  ultimately have "MaybeUpdateRunStatus now (job_RunID j) (job_Attempt j) d5 = Inr (False, d5)"
    by (intro MaybeUpdate_active bexI [of _ ?y]) auto
  then have res: "ro = None" "d' = d5" using rec by (simp_all add: reconcileRepoRun_def)
  show "db_jobs d' = map (advance_rows now inp j y) (db_jobs d)" "db_runs d' = db_runs d" "db_waves d' = db_waves d"
    "db_nodes d' = db_nodes d"
    by (simp_all add: res d5_def d2_def)
  have act: "is_active_job j" by (simp add: run is_active_job_def)
  note R = active_job_run [OF inv foc act]
  show "db_inv d'"
  proof (rule db_inv_job_update [OF inv foc act keeps_key_advance_rows _ chain_ok_advance_rows [OF D(4) run st sha dur]])
    show "advance_rows now inp j y k = k" if "k \<in> set (db_jobs d)" "k \<notin> set (pre @ j # y # ys)" for k
    proof -
      have "job_ID k \<noteq> job_ID y" using distinct_key_eq [OF K(1) that(1) y(1)] that(2) yin by blast
      then show ?thesis using fail_rows_frame(1) [OF foc K(1) that] by (simp add: advance_rows_def at_id_def)
    qed
    show "is_active_run r \<longleftrightarrow> (\<exists>k \<in> set (pre @ j # y # ys). is_active_job (advance_rows now inp j y k))"
      using R(2) fy by (auto simp: is_active_job_def)
    show "n \<in> node_ID ` set (db_nodes d)" if "k \<in> set (pre @ j # y # ys)" "job_NodeID (advance_rows now inp j y k) = Some n" for k n
    proof -
      have "job_NodeID k = Some n" using that(2) by (simp add: advance_rows_def at_id_def completion_rows_node split: if_splits)
      moreover have "k \<in> set (db_jobs d)" using that(1) D(5) by blast
      ultimately show ?thesis using inv by (auto simp: db_inv_def refs_ok_def)
    qed
    show "run_Status r \<noteq> RunStatusQueued" using db_inv_run_ok [OF inv D(2)] by (simp add: run_ok_def)
  qed (simp_all add: res d5_def d2_def set_run_id [OF K(2) D(2)])
  show "ro = None" by (rule res(1))
  show "output_sha inp j \<noteq> []" by (rule sha)
qed

section \<open>Completion keeps the invariant\<close>

lemma WithJobExecution_Inr:
  assumes "WithJobExecution lift i n f d = Inr res"
  obtains j r where "GetJob i d = Inr j" "GetRun (job_RunID j) d = Inr r" "ResumeCount (run_Stats r) = n"
    "job_Attempt j = run_Attempt r" "f j d = Inr res"
  using assms by (auto simp: WithJobExecution_def split: sum.splits if_splits)

lemma GetJob_Inr: "GetJob i d = Inr j \<Longrightarrow> j \<in> set (db_jobs d) \<and> job_ID j = i"
  by (auto simp: GetJob_def get_row_def split: option.splits dest: find_by_SomeD)

lemma complete_inv:
  assumes inv: "db_inv d" and j: "j \<in> set (db_jobs d)" and st: "terminal_job_status (ci_Status inp)"
    and c: "complete now goNow inp j d = Inr (ro, d')"
  shows "db_inv d' \<and> length (db_runs d') = length (db_runs d) \<and> (\<forall>r. ro = Some r \<longrightarrow> r \<in> set (db_runs d'))"
proof -
  obtain r pre post where foc: "job_focus d j r pre post" using inv j by (rule job_focusE)
  have r: "r \<in> set (db_runs d)" by (rule job_focusD(2) [OF foc])
  have set_r: "set_run_status now s (r\<lparr>run_LastError := e\<rparr>) \<in> set (set_run (set_run_status now s (r\<lparr>run_LastError := e\<rparr>)) (db_runs d))" for s e
    using r by (auto simp: in_set_run)
  consider "ci_Status inp \<noteq> JobStatusSuccess" | "ci_Status inp = JobStatusSuccess" "post = []"
    | y ys where "ci_Status inp = JobStatusSuccess" "post = y # ys" by (cases post) auto
  then show ?thesis
  proof cases
    case 1
    show ?thesis by (rule complete_fail [OF inv foc st 1 c]) (simp add: set_r, simp add: set_run_def)
  next
    case 2
    show ?thesis
      by (rule complete_last [OF inv foc [unfolded 2(2)] 2(1) c])
        (use set_r [of _ "run_LastError r"] in \<open>simp, simp add: set_run_def\<close>)
  next
    case 3
    show ?thesis using complete_advance [OF inv foc [unfolded 3(2)] 3(1) c] by simp
  qed
qed

lemma Complete_Inr:
  assumes "Complete now goNow now' inp d = Inr (b, d')"
  obtains j r ro d1 where "GetJob (ci_JobID inp) d = Inr j" "GetRun (job_RunID j) d = Inr r"
    "ResumeCount (run_Stats r) = sp_ResumeCount (ci_StatsPayload inp)" "job_Attempt j = run_Attempt r"
    "complete now goNow inp j d = Inr (ro, d1)"
    "(b, d') = (case ro of None \<Rightarrow> (False, d1) | Some q \<Rightarrow> reconcileWave now' q d1)"
proof -
  from assms obtain ro d1 where w: "WithJobExecution StoreFailure (ci_JobID inp) (sp_ResumeCount (ci_StatsPayload inp))
      (complete now goNow inp) d = Inr (ro, d1)" and e: "(b, d') = (case ro of None \<Rightarrow> (False, d1) | Some q \<Rightarrow> reconcileWave now' q d1)"
    by (auto simp: Complete_def split: sum.splits if_splits option.splits)
  from w show thesis by (rule WithJobExecution_Inr) (use e that in blast)
qed

lemma reconcileWave_inv:
  assumes inv: "db_inv d" and r: "r \<in> set (db_runs d)" and small: "length (db_runs d) < 2 ^ 31"
    and w: "reconcileWave now r d = (b, d')"
  shows "db_inv d'" "db_jobs d' = db_jobs d" "db_runs d' = db_runs d"
proof -
  obtain b' d1 where "MaybeCompleteRunIfAllReposTerminal now r d = Inr (b', d1)" "db_inv d1"
      "db_jobs d1 = db_jobs d" "db_runs d1 = db_runs d"
    using MaybeComplete_inv [OF inv imageI [OF r] small] by metis
  with w show "db_inv d'" "db_jobs d' = db_jobs d" "db_runs d' = db_runs d" by (simp_all add: reconcileWave_def)
qed

lemma Complete_inv:
  assumes inv: "db_inv d" and st: "terminal_job_status (ci_Status inp)" and small: "length (db_runs d) < 2 ^ 31"
    and c: "Complete now goNow now' inp d = Inr (b, d')"
  shows "db_inv d'"
proof -
  obtain j ro d1 where j: "GetJob (ci_JobID inp) d = Inr j" and cj: "complete now goNow inp j d = Inr (ro, d1)"
      and e: "(b, d') = (case ro of None \<Rightarrow> (False, d1) | Some q \<Rightarrow> reconcileWave now' q d1)"
    using c by (rule Complete_Inr)
  have "j \<in> set (db_jobs d)" using j by (auto dest: GetJob_Inr)
  note inv1 = complete_inv [OF inv this st cj]
  show ?thesis
  proof (cases ro)
    case None
    with e inv1 show ?thesis by simp
  next
    case (Some q)
    with e inv1 small show ?thesis using reconcileWave_inv(1) [of d1 q now' b d'] by simp
  qed
qed

lemma validateCompletionRequest_status:
  "validateCompletionRequest header req = Inr (status, rest) \<Longrightarrow> terminal_job_status status"
  by (auto simp: validateCompletionRequest_def terminal_request_status_def terminal_job_status_def res_bind_Inr_iff
      split: if_splits sum.splits)

lemma completeJobHandler_inv:
  assumes inv: "db_inv d" and small: "length (db_runs d) < 2 ^ 31"
    and h: "completeJobHandler now goNow now' pathID identity body header d = (code, d')"
  shows "db_inv d'"
proof -
  from h consider "d' = d"
    | jobID req status stats sha nodeID b where "validateCompletionRequest header req = Inr (status, stats, sha, nodeID)"
      "Complete now goNow now' \<lparr>ci_JobID = jobID, ci_NodeID = nodeID, ci_Status = status,
         ci_ExitCode = req_ExitCode req, ci_StatsPayload = stats, ci_RepoSHAOut = sha\<rparr> d = Inr (b, d')"
    by (auto simp: completeJobHandler_def split: option.splits if_splits sum.splits completion_error.splits prod.splits)
  then show ?thesis
  proof cases
    case 2
    then show ?thesis using validateCompletionRequest_status [OF 2(1)] small by (intro Complete_inv [OF inv _ _ 2(2)]) simp_all
  qed (use inv in simp)
qed

end
