(* ===== verification/Hydra.thy ===== *)
theory Hydra
  imports Domain_Types "HOL-Library.AList"
begin

text \<open>
  \<^verbatim>\<open>internal/workflow/contracts/hydra.go\<close>: stored entries \<^verbatim>\<open>shortHash:dst\<close> that mount files into a
  job container, and \<^verbatim>\<open>internal/server/handlers/claim_spec_mutator_*.go\<close>: the merge of server-side
  configuration into the spec of a claimed job.

  The lemmas show that an accepted destination is clean, stays below the root of its kind and has no
  parent component, that parsing an entry built from its parts gives the parts back, that a
  validated list has distinct destinations, and that in every merge the spec's own values win.

  A Go map is an association list with distinct keys; where the code ranges over one, the result
  does not depend on the order. Error texts are given up to the quoted arguments.
\<close>

section \<open>path.Clean\<close>

text \<open>
  \<^verbatim>\<open>path.Clean\<close> of the Go library: empty and \<^verbatim>\<open>.\<close> components go away, \<^verbatim>\<open>..\<close> removes the component before it, at the
  start of a rooted path it goes away too, otherwise it stays. The stack holds the kept components in
  reverse.
\<close>

fun clean_step :: "bool \<Rightarrow> string list \<Rightarrow> string \<Rightarrow> string list" where
  "clean_step rooted st c =
     (if c = [] \<or> c = ''.'' then st
      else if c = ''..'' then (case st of
          [] \<Rightarrow> if rooted then [] else [c]
        | t # ts \<Rightarrow> if t = ''..'' then c # st else ts)
      else c # st)"

definition clean_parts :: "bool \<Rightarrow> string list \<Rightarrow> string list" where
  "clean_parts rooted cs = rev (foldl (clean_step rooted) [] cs)"

definition path_Clean :: "string \<Rightarrow> string" where
  "path_Clean p =
     (if p = [] then ''.''
      else let rooted = (hd p = CHR ''/'');
               out = join_on CHR ''/'' (clean_parts rooted (split_on CHR ''/'' p))
           in if rooted then CHR ''/'' # out else if out = [] then ''.'' else out)"

section \<open>Stored entries\<close>

datatype HydraFileKind = HydraFileIn | HydraFileOut | HydraFileHome | HydraFileTmp

fun HydraFileKind_String :: "HydraFileKind \<Rightarrow> string" where
  "HydraFileKind_String HydraFileIn = ''in''"
| "HydraFileKind_String HydraFileOut = ''out''"
| "HydraFileKind_String HydraFileHome = ''home''"
| "HydraFileKind_String HydraFileTmp = ''tmp''"

definition HydraFileKinds :: "HydraFileKind list" where
  "HydraFileKinds = [HydraFileIn, HydraFileOut, HydraFileHome, HydraFileTmp]"

record ParsedStoredEntry =
  pe_Hash :: string
  pe_Dst :: string
  pe_ReadOnly :: bool

definition IsHydraShortHash :: "string \<Rightarrow> bool" where
  "IsHydraShortHash v \<longleftrightarrow> 7 \<le> length v \<and> length v \<le> 64 \<and> list_all is_hex_lower v"

definition ValidateHydraPathSafety :: "string \<Rightarrow> bool" where
  "ValidateHydraPathSafety p \<longleftrightarrow> ''..'' \<notin> set (split_on CHR ''/'' p)"

datatype hydra_error =
    HydraFormat | HydraShortHash string | HydraDstRequired | HydraTraversal string | HydraRoot string | HydraRelative
  | HydraDuplicate nat string | HydraEntry nat hydra_error | HydraCollision "string list"

definition splitHashDst :: "string \<Rightarrow> hydra_error + string \<times> string" where
  "splitHashDst s =
     (if CHR '':'' \<notin> set s then Inl HydraFormat
      else let hash = takeWhile (\<lambda>c. c \<noteq> CHR '':'') s; dst = tl (dropWhile (\<lambda>c. c \<noteq> CHR '':'') s) in
        if \<not> IsHydraShortHash hash then Inl (HydraShortHash hash)
        else if TrimSpace dst = [] then Inl HydraDstRequired
        else Inr (hash, dst))"

definition kind_root :: "HydraFileKind \<Rightarrow> string" where
  "kind_root kind = ''/'' @ HydraFileKind_String kind @ ''/''"

definition ParseStoredEntry :: "HydraFileKind \<Rightarrow> string \<Rightarrow> hydra_error + ParsedStoredEntry" where
  "ParseStoredEntry kind s =
     (let home_ro = (kind = HydraFileHome \<and> HasSuffix s '':ro'');
          readOnly = (kind = HydraFileIn \<or> home_ro);
          body = (if home_ro then TrimSuffix s '':ro'' else s)
      in res_bind (splitHashDst body) (\<lambda>(hash, rawDst).
        if \<not> ValidateHydraPathSafety rawDst then Inl (HydraTraversal rawDst)
        else let dst = path_Clean rawDst; ok = Inr \<lparr>pe_Hash = hash, pe_Dst = dst, pe_ReadOnly = readOnly\<rparr> in
          if kind = HydraFileHome
          then (if dst = [] \<or> dst = ''.'' then Inl HydraDstRequired
                else if HasPrefix dst ''/'' then Inl HydraRelative else ok)
          else (if \<not> HasPrefix dst (kind_root kind) then Inl (HydraRoot (kind_root kind)) else ok)))"

fun validateEntriesFrom :: "HydraFileKind \<Rightarrow> nat \<Rightarrow> string list \<Rightarrow> string list \<Rightarrow> hydra_error option" where
  "validateEntriesFrom kind i seen [] = None"
| "validateEntriesFrom kind i seen (e # es) =
     (case ParseStoredEntry kind e of
        Inl err \<Rightarrow> Some (HydraEntry i err)
      | Inr parsed \<Rightarrow>
          if pe_Dst parsed \<in> set seen then Some (HydraDuplicate i (pe_Dst parsed))
          else validateEntriesFrom kind (i + 1) (pe_Dst parsed # seen) es)"

definition ValidateHydraEntries :: "HydraFileKind \<Rightarrow> string list \<Rightarrow> hydra_error option" where
  "ValidateHydraEntries kind entries = validateEntriesFrom kind 0 [] entries"

text \<open>\<^verbatim>\<open>validateHydraFields\<close>: the first kind with an error, in contract order.\<close>

definition validateHydraFields :: "(HydraFileKind \<Rightarrow> string list) \<Rightarrow> (HydraFileKind \<times> hydra_error) option" where
  "validateHydraFields entries =
     (case List.map_filter (\<lambda>k. map_option (Pair k) (ValidateHydraEntries k (entries k))) HydraFileKinds of
        [] \<Rightarrow> None
      | e # _ \<Rightarrow> Some e)"

section \<open>Server-side configuration\<close>

datatype GlobalEnvTarget = GlobalEnvTargetServer | GlobalEnvTargetNodes | GlobalEnvTargetGates | GlobalEnvTargetSteps

fun GlobalEnvTarget_String :: "GlobalEnvTarget \<Rightarrow> string" where
  "GlobalEnvTarget_String GlobalEnvTargetServer = ''server''"
| "GlobalEnvTarget_String GlobalEnvTargetNodes = ''nodes''"
| "GlobalEnvTarget_String GlobalEnvTargetGates = ''gates''"
| "GlobalEnvTarget_String GlobalEnvTargetSteps = ''steps''"

definition global_env_targets :: "GlobalEnvTarget list" where
  "global_env_targets = [GlobalEnvTargetServer, GlobalEnvTargetNodes, GlobalEnvTargetGates, GlobalEnvTargetSteps]"

text \<open>\<^verbatim>\<open>ParseGlobalEnvTarget\<close>; \<open>None\<close> is the error for a blank or unknown value.\<close>

definition ParseGlobalEnvTarget :: "string \<Rightarrow> GlobalEnvTarget option" where
  "ParseGlobalEnvTarget s = List.find (\<lambda>t. GlobalEnvTarget_String t = TrimSpace s) global_env_targets"

fun MatchesJobType :: "GlobalEnvTarget \<Rightarrow> job_type \<Rightarrow> bool" where
  "MatchesJobType GlobalEnvTargetGates t \<longleftrightarrow> t = JobTypePreGate \<or> t = JobTypePostGate"
| "MatchesJobType GlobalEnvTargetSteps t \<longleftrightarrow> t = JobTypeMig"
| "MatchesJobType _ t \<longleftrightarrow> False"

record GlobalEnvVar =
  gev_Value :: string
  gev_Target :: GlobalEnvTarget
  gev_Secret :: bool

text \<open>A nil map of envs is \<open>None\<close>.\<close>

record HydraJobConfig =
  hj_Envs :: "(string \<times> string) list option"
  hj_In :: "string list"
  hj_Out :: "string list"

definition envs_of :: "HydraJobConfig \<Rightarrow> (string \<times> string) list" where
  "envs_of cfg = (case hj_Envs cfg of None \<Rightarrow> [] | Some es \<Rightarrow> es)"

definition empty_overlay :: HydraJobConfig where
  "empty_overlay = \<lparr>hj_Envs = None, hj_In = [], hj_Out = []\<rparr>"

text \<open>One pass over the global variables: a later entry of a key replaces an earlier one.\<close>

definition env_pass ::
  "(GlobalEnvTarget \<Rightarrow> bool) \<Rightarrow> (string \<times> GlobalEnvVar list) list \<Rightarrow> (string \<times> string) list \<Rightarrow> (string \<times> string) list" where
  "env_pass sel globalEnv merged =
     fold (\<lambda>(k, entries) m.
       fold (\<lambda>v m. if sel (gev_Target v) then AList.update k (gev_Value v) m else m) entries m) globalEnv merged"

definition insert_missing :: "(string \<times> 'v) list \<Rightarrow> (string \<times> 'v) list \<Rightarrow> (string \<times> 'v) list" where
  "insert_missing new old = fold (\<lambda>(k, v) m. if map_of m k = None then AList.update k v m else m) new old"

definition assembleHydraOverlay ::
  "(string \<times> HydraJobConfig) list \<Rightarrow> string \<Rightarrow> (string \<times> GlobalEnvVar list) list \<Rightarrow> job_type \<Rightarrow> HydraJobConfig" where
  "assembleHydraOverlay overlays sectionName globalEnv jobType =
     (let base = (case map_of overlays sectionName of None \<Rightarrow> empty_overlay | Some cfg \<Rightarrow> cfg);
          globalMerged = env_pass (\<lambda>t. MatchesJobType t jobType) globalEnv
            (env_pass (\<lambda>t. t = GlobalEnvTargetNodes) globalEnv [])
      in if hj_Envs base = None \<and> globalMerged \<noteq> [] then base\<lparr>hj_Envs := Some globalMerged\<rparr>
         else base\<lparr>hj_Envs := map_option (insert_missing globalMerged) (hj_Envs base)\<rparr>)"

section \<open>Merging into the spec\<close>

definition mergeEnvsBlock :: "(string \<times> string) list \<Rightarrow> (string \<times> json) list \<Rightarrow> (string \<times> json) list" where
  "mergeEnvsBlock overlay block =
     (if overlay = [] then block
      else let existing = (case map_of block ''envs'' of Some (JObj raw) \<Rightarrow> raw | _ \<Rightarrow> []);
               new = map (\<lambda>(k, v). (k, JStr v)) (sort_key fst overlay)
           in AList.update ''envs'' (JObj (insert_missing new existing)) block)"

text \<open>The destinations the block already has and its entries as they stay.\<close>

fun specEntries :: "HydraFileKind \<Rightarrow> json list \<Rightarrow> hydra_error + string list" where
  "specEntries kind [] = Inr []"
| "specEntries kind (JStr s # es) =
     res_bind (ParseStoredEntry kind s) (\<lambda>parsed. res_bind (specEntries kind es) (\<lambda>dsts. Inr (pe_Dst parsed # dsts)))"
| "specEntries kind (_ # es) = specEntries kind es"

fun appendOverlay :: "HydraFileKind \<Rightarrow> string list \<Rightarrow> string list \<Rightarrow> hydra_error + string list" where
  "appendOverlay kind dsts [] = Inr []"
| "appendOverlay kind dsts (s # overlay) =
     res_bind (ParseStoredEntry kind s) (\<lambda>parsed.
       if pe_Dst parsed \<in> set dsts then appendOverlay kind dsts overlay
       else res_bind (appendOverlay kind (pe_Dst parsed # dsts) overlay) (\<lambda>rest. Inr (s # rest)))"

definition mergeRecordsByDstBlock ::
  "HydraFileKind \<Rightarrow> string list \<Rightarrow> (string \<times> json) list \<Rightarrow> hydra_error + (string \<times> json) list" where
  "mergeRecordsByDstBlock kind overlay block =
     (if overlay = [] then Inr block
      else let raw = (case map_of block (HydraFileKind_String kind) of Some (JArr es) \<Rightarrow> es | _ \<Rightarrow> []) in
        res_bind (specEntries kind raw) (\<lambda>dsts.
        res_bind (appendOverlay kind dsts overlay) (\<lambda>added.
          let merged = raw @ map JStr added in
          Inr (if merged \<noteq> [] then AList.update (HydraFileKind_String kind) (JArr merged) block else block))))"

fun overlaySteps :: "HydraJobConfig \<Rightarrow> nat \<Rightarrow> json list \<Rightarrow> hydra_error + json list" where
  "overlaySteps overlay i [] = Inr []"
| "overlaySteps overlay i (JObj step # steps) =
     (case res_bind (mergeRecordsByDstBlock HydraFileIn (hj_In overlay) step) (mergeRecordsByDstBlock HydraFileOut (hj_Out overlay)) of
        Inl e \<Rightarrow> Inl (HydraEntry i e)
      | Inr step' \<Rightarrow> res_bind (overlaySteps overlay (i + 1) steps) (\<lambda>rest. Inr (JObj step' # rest)))"
| "overlaySteps overlay i (v # steps) = res_bind (overlaySteps overlay (i + 1) steps) (\<lambda>rest. Inr (v # rest))"

definition applyOverlayToSteps :: "HydraJobConfig \<Rightarrow> (string \<times> json) list \<Rightarrow> hydra_error + (string \<times> json) list" where
  "applyOverlayToSteps overlay spec =
     (case map_of spec ''steps'' of
        Some (JArr (s # ss)) \<Rightarrow> res_bind (overlaySteps overlay 0 (s # ss)) (\<lambda>steps. Inr (AList.update ''steps'' (JArr steps) spec))
      | _ \<Rightarrow> Inr spec)"

definition findDuplicateDsts :: "HydraFileKind \<Rightarrow> string list \<Rightarrow> hydra_error + string list" where
  "findDuplicateDsts kind entries =
     res_bind (res_iter (\<lambda>e dsts. res_bind (ParseStoredEntry kind e) (\<lambda>p. Inr (pe_Dst p # dsts))) entries []) (\<lambda>dsts.
       Inr (sort (filter (\<lambda>x. count_list dsts x > 1) (remdups dsts))))"

definition validateOverlayCollisions :: "HydraJobConfig \<Rightarrow> hydra_error option" where
  "validateOverlayCollisions cfg =
     (case findDuplicateDsts HydraFileIn (hj_In cfg) of
        Inl e \<Rightarrow> Some e
      | Inr ins \<Rightarrow> (case findDuplicateDsts HydraFileOut (hj_Out cfg) of
            Inl e \<Rightarrow> Some e
          | Inr outs \<Rightarrow> if ins @ outs \<noteq> [] then Some (HydraCollision (ins @ outs)) else None))"

definition applyHydraOverlayMutator ::
  "(string \<times> HydraJobConfig) list \<Rightarrow> (string \<times> GlobalEnvVar list) list \<Rightarrow> job_type \<Rightarrow> (string \<times> json) list \<Rightarrow>
   hydra_error + (string \<times> json) list" where
  "applyHydraOverlayMutator overlays globalEnv jobType spec =
     (let overlay = assembleHydraOverlay overlays (JobType_String jobType) globalEnv jobType in
      case validateOverlayCollisions overlay of
        Some e \<Rightarrow> Inl e
      | None \<Rightarrow>
          let spec1 = mergeEnvsBlock (envs_of overlay) spec in
          if jobType = JobTypeMig then applyOverlayToSteps overlay spec1 else Inr spec1)"

definition string_fields :: "(string \<times> json) list \<Rightarrow> (string \<times> json) list" where
  "string_fields fs = filter (\<lambda>(k, v). case v of JStr _ \<Rightarrow> True | _ \<Rightarrow> False) fs"

definition applyBundleMapMutator :: "(string \<times> string) list \<Rightarrow> (string \<times> json) list \<Rightarrow> (string \<times> json) list" where
  "applyBundleMapMutator bundleMap spec =
     (if bundleMap = [] then spec
      else let existing = (case map_of spec ''bundle_map'' of Some (JObj raw) \<Rightarrow> string_fields raw | _ \<Rightarrow> []);
               merged = insert_missing (map (\<lambda>(k, v). (k, JStr v)) bundleMap) existing
           in AList.update ''bundle_map'' (JObj merged) spec)"

definition parseSpecObjectStrict :: "raw_json \<Rightarrow> (string \<times> json) list option" where
  "parseSpecObjectStrict spec = (case spec of RawJson (JObj fs) \<Rightarrow> Some fs | _ \<Rightarrow> None)"

record claim_config =
  cc_GlobalEnv :: "(string \<times> GlobalEnvVar list) list"
  cc_HydraOverlays :: "(string \<times> HydraJobConfig) list"
  cc_BundleMap :: "(string \<times> string) list"

datatype spec_error = SpecNotObject | SpecOverlay hydra_error

definition mutateClaimSpec :: "claim_config \<Rightarrow> raw_json \<Rightarrow> job_id \<Rightarrow> job_type \<Rightarrow> spec_error + json" where
  "mutateClaimSpec cfg spec jobID jobType =
     (case parseSpecObjectStrict spec of
        None \<Rightarrow> Inl SpecNotObject
      | Some m \<Rightarrow>
          (case applyHydraOverlayMutator (cc_HydraOverlays cfg) (cc_GlobalEnv cfg) jobType
                  (AList.update ''job_id'' (JStr jobID) m) of
             Inl e \<Rightarrow> Inl (SpecOverlay e)
           | Inr m' \<Rightarrow> Inr (JObj (applyBundleMapMutator (cc_BundleMap cfg) m'))))"

section \<open>Accepted destinations\<close>

abbreviation real_part :: "string \<Rightarrow> bool" where
  "real_part c \<equiv> c \<noteq> [] \<and> c \<noteq> ''.''"

lemma clean_foldl: "''..'' \<notin> set cs \<Longrightarrow> foldl (clean_step rooted) st cs = rev (filter real_part cs) @ st"
  by (induction cs arbitrary: st) auto

lemma clean_parts_safe: "''..'' \<notin> set cs \<Longrightarrow> clean_parts rooted cs = filter real_part cs"
  by (simp add: clean_parts_def clean_foldl)

lemma split_rooted: "split_on CHR ''/'' (CHR ''/'' # s) = [] # split_on CHR ''/'' s"
  by simp

lemma join_parts_Nil: "\<forall>x \<in> set xs. x \<noteq> [] \<Longrightarrow> join_on sep xs = [] \<longleftrightarrow> xs = []"
  by (cases xs; cases "tl xs") auto

lemma split_join_parts:
  assumes "\<forall>x \<in> set xs. sep \<notin> set x"
  shows "split_on sep (join_on sep xs) = (if xs = [] then [[]] else xs)"
  using assms split_join_on [of xs sep] by auto

text \<open>The components of a cleaned safe path are those of the path without the empty ones and the dots.\<close>

definition parts :: "string \<Rightarrow> string list" where
  "parts p = filter real_part (split_on CHR ''/'' p)"

lemma parts_no_slash: "\<forall>x \<in> set (parts p). CHR ''/'' \<notin> set x"
  by (auto simp: parts_def dest: split_on_no_sep)

lemma path_Clean_safe:
  assumes "ValidateHydraPathSafety p" "p \<noteq> []"
  shows "path_Clean p = (if hd p = CHR ''/'' then CHR ''/'' # join_on CHR ''/'' (parts p)
    else if parts p = [] then ''.'' else join_on CHR ''/'' (parts p))"
proof -
  have "clean_parts rooted (split_on CHR ''/'' p) = parts p" for rooted
    using assms(1) by (simp add: ValidateHydraPathSafety_def clean_parts_safe parts_def)
  moreover have "join_on CHR ''/'' (parts p) = [] \<longleftrightarrow> parts p = []"
    by (rule join_parts_Nil) (simp add: parts_def)
  ultimately show ?thesis using assms(2) by (simp add: path_Clean_def Let_def)
qed

lemma split_join_parts_path: "split_on CHR ''/'' (join_on CHR ''/'' (parts p)) = (if parts p = [] then [[]] else parts p)"
  by (rule split_join_parts [OF parts_no_slash])

lemma parts_safe: "ValidateHydraPathSafety p \<Longrightarrow> ''..'' \<notin> set (parts p)"
  by (simp add: ValidateHydraPathSafety_def parts_def)

lemma parts_join: "parts (join_on CHR ''/'' (parts p)) = parts p"
  by (simp add: parts_def [of "join_on _ _"] split_join_parts_path) (simp add: parts_def)

lemma hd_join_parts:
  assumes "parts p \<noteq> []"
  shows "join_on CHR ''/'' (parts p) \<noteq> [] \<and> hd (join_on CHR ''/'' (parts p)) \<noteq> CHR ''/''"
proof -
  obtain x xs where x: "parts p = x # xs" using assms by (cases "parts p") auto
  then have "x \<in> set (parts p)" by simp
  then have "x \<noteq> []" "CHR ''/'' \<notin> set x" using parts_no_slash [of p] unfolding parts_def by auto
  then have "hd x \<noteq> CHR ''/''" by (metis hd_in_set)
  with x \<open>x \<noteq> []\<close> show ?thesis by (cases xs) simp_all
qed

lemma path_Clean_keeps_safe:
  assumes "ValidateHydraPathSafety p"
  shows "ValidateHydraPathSafety (path_Clean p)" "path_Clean (path_Clean p) = path_Clean p"
proof -
  have s: "ValidateHydraPathSafety (join_on CHR ''/'' (parts p))"
    "ValidateHydraPathSafety (CHR ''/'' # join_on CHR ''/'' (parts p))"
    using parts_safe [OF assms] by (auto simp: ValidateHydraPathSafety_def split_join_parts_path)
  have dot: "ValidateHydraPathSafety ''.''" "path_Clean ''.'' = ''.''"
    by (simp_all add: ValidateHydraPathSafety_def path_Clean_def clean_parts_def)
  have rooted: "parts (CHR ''/'' # join_on CHR ''/'' (parts p)) = parts p"
    using parts_join [of p] by (simp add: parts_def [of "_ # _"] parts_def [of "join_on _ _", symmetric])
  show "ValidateHydraPathSafety (path_Clean p)"
  proof (cases "p = []")
    case True
    then show ?thesis using dot by (simp add: path_Clean_def)
  next
    case False
    then show ?thesis using path_Clean_safe [OF assms False] s dot by simp
  qed
  show "path_Clean (path_Clean p) = path_Clean p"
  proof (cases "p = []")
    case True
    then show ?thesis using dot by (simp add: path_Clean_def)
  next
    case False
    then show ?thesis
      using path_Clean_safe [OF assms False] path_Clean_safe [OF s(2)] path_Clean_safe [OF s(1)] hd_join_parts [of p] dot(2)
      by (auto simp: rooted parts_join)
  qed
qed

lemma ParseStoredEntry_Inr:
  assumes "ParseStoredEntry kind s = Inr e"
  shows "IsHydraShortHash (pe_Hash e)" "ValidateHydraPathSafety (pe_Dst e)" "path_Clean (pe_Dst e) = pe_Dst e"
    "kind \<noteq> HydraFileHome \<Longrightarrow> HasPrefix (pe_Dst e) (kind_root kind)"
    "kind = HydraFileHome \<Longrightarrow> \<not> HasPrefix (pe_Dst e) ''/'' \<and> pe_Dst e \<noteq> ''.'' \<and> pe_Dst e \<noteq> []"
proof -
  obtain raw where "IsHydraShortHash (pe_Hash e)" "ValidateHydraPathSafety raw" "pe_Dst e = path_Clean raw"
    using assms by (auto simp: ParseStoredEntry_def splitHashDst_def Let_def res_bind_Inr_iff split: if_splits)
  then show "IsHydraShortHash (pe_Hash e)" "ValidateHydraPathSafety (pe_Dst e)" "path_Clean (pe_Dst e) = pe_Dst e"
    using path_Clean_keeps_safe by simp_all
  show "kind \<noteq> HydraFileHome \<Longrightarrow> HasPrefix (pe_Dst e) (kind_root kind)"
    "kind = HydraFileHome \<Longrightarrow> \<not> HasPrefix (pe_Dst e) ''/'' \<and> pe_Dst e \<noteq> ''.'' \<and> pe_Dst e \<noteq> []"
    using assms by (auto simp: ParseStoredEntry_def Let_def res_bind_Inr_iff split: if_splits)
qed

lemma shortHash_no_colon: "IsHydraShortHash h \<Longrightarrow> CHR '':'' \<notin> set h"
  by (auto simp: IsHydraShortHash_def list_all_iff is_hex_lower_def)

lemma splitHashDst_join:
  assumes "IsHydraShortHash h" "TrimSpace dst \<noteq> []"
  shows "splitHashDst (h @ CHR '':'' # dst) = Inr (h, dst)"
proof -
  have "takeWhile (\<lambda>c. c \<noteq> CHR '':'') (h @ CHR '':'' # dst) = h" "dropWhile (\<lambda>c. c \<noteq> CHR '':'') (h @ CHR '':'' # dst) = CHR '':'' # dst"
    using shortHash_no_colon [OF assms(1)] by (auto simp: takeWhile_append dropWhile_append takeWhile_eq_all_conv)
  with assms show ?thesis by (simp add: splitHashDst_def)
qed

lemma TrimSpace_hd_ne: "s \<noteq> [] \<Longrightarrow> \<not> is_space (hd s) \<Longrightarrow> TrimSpace s \<noteq> []"
  by (cases s) (auto simp: TrimSpace_def dropWhile_eq_Nil_conv)

lemma stored_entry_roundtrip:
  assumes h: "IsHydraShortHash h" and d: "ValidateHydraPathSafety dst" "path_Clean dst = dst"
    and root: "HasPrefix dst (kind_root kind)" and k: "kind \<noteq> HydraFileHome"
  shows "ParseStoredEntry kind (h @ CHR '':'' # dst) = Inr \<lparr>pe_Hash = h, pe_Dst = dst, pe_ReadOnly = (kind = HydraFileIn)\<rparr>"
proof -
  obtain t where "dst = CHR ''/'' # t" using root by (auto simp: HasPrefix_iff kind_root_def)
  then have "TrimSpace dst \<noteq> []" by (intro TrimSpace_hd_ne) (simp_all add: is_space_def)
  with splitHashDst_join [OF h] d root k show ?thesis by (simp add: ParseStoredEntry_def)
qed

section \<open>Lists of entries\<close>

definition entry_dst :: "HydraFileKind \<Rightarrow> string \<Rightarrow> string" where
  "entry_dst kind e = (case ParseStoredEntry kind e of Inr p \<Rightarrow> pe_Dst p | Inl _ \<Rightarrow> [])"

definition well_formed_entry :: "HydraFileKind \<Rightarrow> string \<Rightarrow> bool" where
  "well_formed_entry kind e \<longleftrightarrow> (\<exists>p. ParseStoredEntry kind e = Inr p)"

lemma validateEntriesFrom_None:
  "validateEntriesFrom kind i seen es = None \<longleftrightarrow>
   (\<forall>e \<in> set es. well_formed_entry kind e) \<and> distinct (map (entry_dst kind) es) \<and> entry_dst kind ` set es \<inter> set seen = {}"
proof (induction es arbitrary: i seen)
  case (Cons e es)
  then show ?case by (cases "ParseStoredEntry kind e") (auto simp: entry_dst_def [of kind e] well_formed_entry_def)
qed simp

lemma ValidateHydraEntries_None:
  "ValidateHydraEntries kind es = None \<longleftrightarrow> (\<forall>e \<in> set es. well_formed_entry kind e) \<and> distinct (map (entry_dst kind) es)"
  by (simp add: ValidateHydraEntries_def validateEntriesFrom_None)

lemma validateHydraFields_None:
  "validateHydraFields entries = None \<longleftrightarrow> (\<forall>kind. ValidateHydraEntries kind (entries kind) = None)"
proof -
  have all: "kind \<in> set HydraFileKinds" for kind by (cases kind) (simp_all add: HydraFileKinds_def)
  have "validateHydraFields entries = None \<longleftrightarrow>
      List.map_filter (\<lambda>k. map_option (Pair k) (ValidateHydraEntries k (entries k))) HydraFileKinds = []"
    by (auto simp: validateHydraFields_def split: list.splits)
  also have "\<dots> \<longleftrightarrow> (\<forall>k \<in> set HydraFileKinds. ValidateHydraEntries k (entries k) = None)"
    by (auto simp: HydraFileKinds_def map_filter_simps split: option.splits)
  finally show ?thesis using all by blast
qed

section \<open>Merges in which existing values win\<close>

text \<open>The contract of the merges of the claim pipeline.\<close>

locale existing_wins =
  fixes merge :: "(string \<times> 'v) list \<Rightarrow> (string \<times> 'v) list \<Rightarrow> (string \<times> 'v) list"
  assumes merge_lookup: "map_of (merge new old) k = (case map_of old k of Some v \<Rightarrow> Some v | None \<Rightarrow> map_of new k)"
begin

lemma keeps_existing: "map_of old k = Some v \<Longrightarrow> map_of (merge new old) k = Some v"
  by (simp add: merge_lookup)

lemma adds_missing: "map_of old k = None \<Longrightarrow> map_of (merge new old) k = map_of new k"
  by (simp add: merge_lookup)

lemma merge_keys: "fst ` set (merge new old) = fst ` set old \<union> fst ` set new"
proof (rule set_eqI)
  fix k show "k \<in> fst ` set (merge new old) \<longleftrightarrow> k \<in> fst ` set old \<union> fst ` set new"
    using map_of_eq_None_iff [of "merge new old" k] map_of_eq_None_iff [of old k] map_of_eq_None_iff [of new k]
    by (auto simp: merge_lookup split: option.splits)
qed

lemma merge_idem: "map_of (merge new (merge new old)) = map_of (merge new old)"
  by (rule ext) (simp add: merge_lookup split: option.splits)

end

lemma insert_missing_lookup:
  "map_of (insert_missing new old) k = (case map_of old k of Some v \<Rightarrow> Some v | None \<Rightarrow> map_of new k)"
proof (induction new arbitrary: old)
  case (Cons x new)
  obtain a v where x: "x = (a, v)" by (cases x)
  let ?old = "if map_of old a = None then AList.update a v old else old"
  have "insert_missing (x # new) old = insert_missing new ?old" by (simp add: insert_missing_def x)
  then have "map_of (insert_missing (x # new) old) k = (case map_of ?old k of Some w \<Rightarrow> Some w | None \<Rightarrow> map_of new k)"
    by (simp only: Cons.IH)
  also have "\<dots> = (case map_of old k of Some w \<Rightarrow> Some w | None \<Rightarrow> map_of (x # new) k)"
    by (auto simp: x update_conv' split: option.split)
  finally show ?case .
qed (simp add: insert_missing_def split: option.split)

interpretation missing: existing_wins insert_missing
  by unfold_locales (rule insert_missing_lookup)

section \<open>The claim pipeline\<close>

lemma mergeEnvs_lookup:
  assumes "overlay \<noteq> []" "distinct (map fst overlay)"
  obtains envs where "map_of (mergeEnvsBlock overlay block) ''envs'' = Some (JObj envs)"
    "\<And>k. map_of envs k = (case (case map_of block ''envs'' of Some (JObj raw) \<Rightarrow> map_of raw k | _ \<Rightarrow> None) of
        Some v \<Rightarrow> Some v | None \<Rightarrow> map_option JStr (map_of overlay k))"
proof -
  let ?raw = "case map_of block ''envs'' of Some (JObj raw) \<Rightarrow> raw | _ \<Rightarrow> []"
  let ?new = "map (\<lambda>(k, v). (k, JStr v)) (sort_key fst overlay)"
  have "map_of (sort_key fst overlay) = map_of overlay"
    using assms(2) by (intro map_of_inject_set [THEN iffD2]) (simp_all add: distinct_map)
  then have new: "map_of ?new k = map_option JStr (map_of overlay k)" for k by (simp add: map_of_map)
  have raw: "map_of ?raw k = (case map_of block ''envs'' of Some (JObj raw) \<Rightarrow> map_of raw k | _ \<Rightarrow> None)" for k
    by (auto split: option.splits json.splits)
  show thesis
  proof (rule that [of "insert_missing ?new ?raw"])
    show "map_of (mergeEnvsBlock overlay block) ''envs'' = Some (JObj (insert_missing ?new ?raw))"
      using assms(1) by (simp add: mergeEnvsBlock_def Let_def update_conv')
  qed (simp only: missing.merge_lookup new raw)
qed

lemma mergeEnvs_other: "k \<noteq> ''envs'' \<Longrightarrow> map_of (mergeEnvsBlock overlay block) k = map_of block k"
  by (simp add: mergeEnvsBlock_def Let_def update_conv')

lemma appendOverlay_Inr:
  assumes "appendOverlay kind dsts overlay = Inr added"
  shows "distinct (map (entry_dst kind) added)" "entry_dst kind ` set added \<inter> set dsts = {}" "set added \<subseteq> set overlay"
    "\<And>e. e \<in> set overlay \<Longrightarrow> entry_dst kind e \<in> set dsts \<union> entry_dst kind ` set added"
proof -
  have "distinct (map (entry_dst kind) added) \<and> entry_dst kind ` set added \<inter> set dsts = {} \<and> set added \<subseteq> set overlay \<and>
      (\<forall>e \<in> set overlay. entry_dst kind e \<in> set dsts \<union> entry_dst kind ` set added)"
    using assms
  proof (induction overlay arbitrary: dsts added)
    case (Cons s overlay)
    then obtain p where p: "ParseStoredEntry kind s = Inr p" by (auto simp: res_bind_Inr_iff)
    then have d: "entry_dst kind s = pe_Dst p" by (simp add: entry_dst_def)
    show ?case
    proof (cases "pe_Dst p \<in> set dsts")
      case True
      with Cons.prems p have "appendOverlay kind dsts overlay = Inr added" by simp
      from Cons.IH [OF this] True d show ?thesis by auto
    next
      case False
      with Cons.prems p obtain rest where r: "appendOverlay kind (pe_Dst p # dsts) overlay = Inr rest" "added = s # rest"
        by (auto simp: res_bind_Inr_iff)
      from Cons.IH [OF r(1)] r(2) False d show ?thesis by auto
    qed
  qed simp
  then show "distinct (map (entry_dst kind) added)" "entry_dst kind ` set added \<inter> set dsts = {}" "set added \<subseteq> set overlay"
    "\<And>e. e \<in> set overlay \<Longrightarrow> entry_dst kind e \<in> set dsts \<union> entry_dst kind ` set added" by blast+
qed

text \<open>The string entries of a spec field.\<close>

definition string_entries :: "json list \<Rightarrow> string list" where
  "string_entries es = List.map_filter (\<lambda>e. case e of JStr s \<Rightarrow> Some s | _ \<Rightarrow> None) es"

lemma specEntries_Inr: "specEntries kind es = Inr dsts \<Longrightarrow> dsts = map (entry_dst kind) (string_entries es)"
proof (induction kind es arbitrary: dsts rule: specEntries.induct)
  case (2 kind s es)
  then show ?case by (auto simp: string_entries_def map_filter_simps res_bind_Inr_iff entry_dst_def)
qed (auto simp: string_entries_def map_filter_simps)

lemma mergeRecords_Inr:
  assumes m: "mergeRecordsByDstBlock kind overlay block = Inr block'" and o: "overlay \<noteq> []"
    and raw: "map_of block (HydraFileKind_String kind) = Some (JArr raw)"
  obtains added where "map_of block' (HydraFileKind_String kind) = Some (JArr (raw @ map JStr added))"
    "distinct (map (entry_dst kind) added)" "set added \<subseteq> set overlay"
    "entry_dst kind ` set added \<inter> entry_dst kind ` set (string_entries raw) = {}"
    "\<And>e. e \<in> set overlay \<Longrightarrow> entry_dst kind e \<in> entry_dst kind ` set (string_entries raw @ added)"
proof -
  from m o raw obtain dsts added where d: "specEntries kind raw = Inr dsts" and a: "appendOverlay kind dsts overlay = Inr added"
      and b: "block' = (if raw @ map JStr added \<noteq> [] then AList.update (HydraFileKind_String kind) (JArr (raw @ map JStr added)) block else block)"
    by (auto simp: mergeRecordsByDstBlock_def Let_def res_bind_Inr_iff)
  have dsts: "set dsts = entry_dst kind ` set (string_entries raw)" using specEntries_Inr [OF d] by simp
  have "map_of block' (HydraFileKind_String kind) = Some (JArr (raw @ map JStr added))"
    using b raw by (auto simp: update_conv')
  then show thesis
    using appendOverlay_Inr [OF a] by (intro that [of added]) (auto simp: dsts image_Un)
qed

lemma mutateClaimSpec_job_id:
  assumes "mutateClaimSpec cfg spec jobID jobType = Inr doc"
  shows "json_field ''job_id'' doc = Some (JStr jobID)"
proof -
  from assms obtain m m' where m': "applyHydraOverlayMutator (cc_HydraOverlays cfg) (cc_GlobalEnv cfg) jobType
      (AList.update ''job_id'' (JStr jobID) m) = Inr m'" and doc: "doc = JObj (applyBundleMapMutator (cc_BundleMap cfg) m')"
    by (auto simp: mutateClaimSpec_def split: option.splits sum.splits)
  have "map_of m' ''job_id'' = Some (JStr jobID)"
    using m' by (auto simp: applyHydraOverlayMutator_def applyOverlayToSteps_def Let_def res_bind_Inr_iff update_conv'
        mergeEnvs_other split: option.splits if_splits json.splits list.splits)
  then show ?thesis by (simp add: doc applyBundleMapMutator_def Let_def update_conv')
qed

section \<open>The environment of a claimed spec\<close>

definition spec_env :: "(string \<times> json) list \<Rightarrow> string \<Rightarrow> json option" where
  "spec_env spec k = (case map_of spec ''envs'' of Some (JObj raw) \<Rightarrow> map_of raw k | _ \<Rightarrow> None)"

lemma spec_env_merge:
  assumes "distinct (map fst overlay)"
  shows "spec_env (mergeEnvsBlock overlay block) k =
    (case spec_env block k of Some v \<Rightarrow> Some v | None \<Rightarrow> map_option JStr (map_of overlay k))"
proof (cases "overlay = []")
  case True
  then show ?thesis by (simp add: mergeEnvsBlock_def split: option.splits)
next
  case False
  show ?thesis by (rule mergeEnvs_lookup [OF False assms, of block]) (simp add: spec_env_def)
qed

lemma claimed_spec_parts:
  assumes m: "mutateClaimSpec cfg (RawJson (JObj spec)) jobID jobType = Inr (JObj doc)"
    and envs: "envs_of (assembleHydraOverlay (cc_HydraOverlays cfg) (JobType_String jobType) (cc_GlobalEnv cfg) jobType) = overlay"
      "distinct (map fst overlay)"
  shows "map_of doc ''job_id'' = Some (JStr jobID) \<and>
    (\<forall>k. spec_env doc k = (case spec_env spec k of Some v \<Rightarrow> Some v | None \<Rightarrow> map_option JStr (map_of overlay k))) \<and>
    (jobType \<noteq> JobTypeMig \<longrightarrow> map_of doc ''steps'' = map_of spec ''steps'') \<and>
    (\<forall>k. k \<notin> {''job_id'', ''envs'', ''steps'', ''bundle_map''} \<longrightarrow> map_of doc k = map_of spec k)"
proof -
  define spec1 where "spec1 = mergeEnvsBlock overlay (AList.update ''job_id'' (JStr jobID) spec)"
  from m obtain m' where m': "applyHydraOverlayMutator (cc_HydraOverlays cfg) (cc_GlobalEnv cfg) jobType
      (AList.update ''job_id'' (JStr jobID) spec) = Inr m'" and doc: "doc = applyBundleMapMutator (cc_BundleMap cfg) m'"
    by (auto simp: mutateClaimSpec_def parseSpecObjectStrict_def split: sum.splits)
  have doc_k: "map_of doc k = map_of m' k" if "k \<noteq> ''bundle_map''" for k
    using that by (simp add: doc applyBundleMapMutator_def Let_def update_conv')
  have steps: "map_of m' k = map_of spec1 k" if "k \<noteq> ''steps'' \<or> jobType \<noteq> JobTypeMig" for k
    using m' that envs(1) by (auto simp: applyHydraOverlayMutator_def applyOverlayToSteps_def Let_def res_bind_Inr_iff update_conv'
        spec1_def split: option.splits if_splits json.splits list.splits)
  have other: "map_of spec1 k = (if k = ''job_id'' then Some (JStr jobID) else map_of spec k)" if "k \<noteq> ''envs''" for k
    using that by (simp add: spec1_def mergeEnvs_other update_conv')
  have env: "spec_env (AList.update ''job_id'' (JStr jobID) spec) k = spec_env spec k" for k by (simp add: spec_env_def update_conv')
  have "spec_env doc k = spec_env spec1 k" for k using doc_k [of "''envs''"] steps [of "''envs''"] by (simp add: spec_env_def)
  then have "spec_env doc k = (case spec_env spec k of Some v \<Rightarrow> Some v | None \<Rightarrow> map_option JStr (map_of overlay k))" for k
    unfolding spec1_def spec_env_merge [OF envs(2)] env by simp
  then show ?thesis using doc_k steps other by auto
qed

end
