(* ===== verification/Nodes.thy ===== *)
theory Nodes
  imports Store_Safety
begin

text \<open>
  Worker nodes: the queries of \<^verbatim>\<open>internal/store/nodes.sql.go\<close>, the heartbeat
  (\<^verbatim>\<open>internal/server/handlers/nodes_heartbeat.go\<close>) and the drain switch (\<^verbatim>\<open>handlers/nodes.go\<close>).

  A request body of a handler is the decoded value, or the status its decoder has already written.
\<close>

section \<open>Queries\<close>

definition GetNode :: "node_id \<Rightarrow> db \<Rightarrow> store_error + node" where
  "GetNode i d = get_row node_ID i (db_nodes d)"

definition ListNodes :: "db \<Rightarrow> node list" where
  "ListNodes d = rev (sort_key (\<lambda>n. (node_CreatedAt n, node_ID n)) (db_nodes d))"

record CreateNodeParams =
  cn_ID :: node_id
  cn_Name :: string
  cn_IpAddress :: string
  cn_Version :: "string option"
  cn_Concurrency :: int

definition new_node :: "timestamp \<Rightarrow> CreateNodeParams \<Rightarrow> node" where
  "new_node now arg = \<lparr>
     node_ID = cn_ID arg, node_Name = cn_Name arg, node_IpAddress = cn_IpAddress arg,
     node_Version = cn_Version arg, node_Concurrency = cn_Concurrency arg,
     node_CpuTotalMillis = 0, node_CpuFreeMillis = 0, node_MemTotalBytes = 0, node_MemFreeBytes = 0,
     node_DiskTotalBytes = 0, node_DiskFreeBytes = 0, node_Drained = False, node_DrainRevision = 0,
     node_CertSerial = None, node_CertFingerprint = None, node_CertNotBefore = None, node_CertNotAfter = None,
     node_LastHeartbeat = None, node_CreatedAt = now\<rparr>"

text \<open>The primary key, then the unique constraints of \<^verbatim>\<open>name\<close> and \<^verbatim>\<open>ip_address\<close> (\<^verbatim>\<open>schema.sql\<close>).\<close>

definition CreateNode :: "timestamp \<Rightarrow> CreateNodeParams \<Rightarrow> db \<Rightarrow> store_error + node \<times> db" where
  "CreateNode now arg d =
     (if cn_Concurrency arg < 1 then Inl (ErrCheck ''nodes_concurrency_check'')
      else if find_by node_ID (cn_ID arg) (db_nodes d) \<noteq> None then Inl (ErrUniqueViolation ''nodes_pkey'')
      else if find_by node_Name (cn_Name arg) (db_nodes d) \<noteq> None then Inl (ErrUniqueViolation ''nodes_name_key'')
      else if find_by node_IpAddress (cn_IpAddress arg) (db_nodes d) \<noteq> None
        then Inl (ErrUniqueViolation ''nodes_ip_address_key'')
      else Inr (new_node now arg, d\<lparr>db_nodes := db_nodes d @ [new_node now arg]\<rparr>))"

record UpdateNodeHeartbeatParams =
  hb_ID :: node_id
  hb_LastHeartbeat :: timestamp
  hb_CpuTotalMillis :: int
  hb_CpuFreeMillis :: int
  hb_MemTotalBytes :: int
  hb_MemFreeBytes :: int
  hb_DiskTotalBytes :: int
  hb_DiskFreeBytes :: int
  hb_Version :: string

definition beat :: "UpdateNodeHeartbeatParams \<Rightarrow> node \<Rightarrow> node" where
  "beat arg n = n\<lparr>
     node_LastHeartbeat := Some (hb_LastHeartbeat arg),
     node_CpuTotalMillis := hb_CpuTotalMillis arg, node_CpuFreeMillis := hb_CpuFreeMillis arg,
     node_MemTotalBytes := hb_MemTotalBytes arg, node_MemFreeBytes := hb_MemFreeBytes arg,
     node_DiskTotalBytes := hb_DiskTotalBytes arg, node_DiskFreeBytes := hb_DiskFreeBytes arg,
     node_Version := (if hb_Version arg = [] then node_Version n else Some (hb_Version arg))\<rparr>"

text \<open>The check constraints of the resource columns.\<close>

definition node_resources_ok :: "node \<Rightarrow> bool" where
  "node_resources_ok n \<longleftrightarrow>
     0 \<le> node_CpuTotalMillis n \<and> 0 \<le> node_CpuFreeMillis n \<and> node_CpuFreeMillis n \<le> node_CpuTotalMillis n \<and>
     0 \<le> node_MemTotalBytes n \<and> 0 \<le> node_MemFreeBytes n \<and> node_MemFreeBytes n \<le> node_MemTotalBytes n \<and>
     0 \<le> node_DiskTotalBytes n \<and> 0 \<le> node_DiskFreeBytes n \<and> node_DiskFreeBytes n \<le> node_DiskTotalBytes n"

definition heartbeat_metric :: "UpdateNodeHeartbeatParams \<Rightarrow> node_metric" where
  "heartbeat_metric arg = \<lparr>nm_NodeID = hb_ID arg,
     nm_CpuTotalMillis = hb_CpuTotalMillis arg, nm_CpuFreeMillis = hb_CpuFreeMillis arg,
     nm_MemTotalBytes = hb_MemTotalBytes arg, nm_MemFreeBytes = hb_MemFreeBytes arg,
     nm_DiskTotalBytes = hb_DiskTotalBytes arg, nm_DiskFreeBytes = hb_DiskFreeBytes arg\<rparr>"

definition UpdateNodeHeartbeat :: "UpdateNodeHeartbeatParams \<Rightarrow> db \<Rightarrow> store_error + db" where
  "UpdateNodeHeartbeat arg d =
     (case find_by node_ID (hb_ID arg) (db_nodes d) of
        None \<Rightarrow> Inr d
      | Some n \<Rightarrow>
          if \<not> node_resources_ok (beat arg n) then Inl (ErrCheck ''nodes'')
          else Inr (d\<lparr>db_nodes := update_where (\<lambda>n. node_ID n = hb_ID arg) (beat arg) (db_nodes d),
                      db_node_metrics := db_node_metrics d @ [heartbeat_metric arg]\<rparr>))"

definition UpdateNodeCertMetadata ::
  "node_id \<Rightarrow> string option \<Rightarrow> string option \<Rightarrow> timestamp option \<Rightarrow> timestamp option \<Rightarrow> db \<Rightarrow> db" where
  "UpdateNodeCertMetadata i serial fingerprint notBefore notAfter d =
     d\<lparr>db_nodes := update_where (\<lambda>n. node_ID n = i)
        (\<lambda>n. n\<lparr>node_CertSerial := serial, node_CertFingerprint := fingerprint,
               node_CertNotBefore := notBefore, node_CertNotAfter := notAfter\<rparr>) (db_nodes d)\<rparr>"

definition set_drained :: "bool \<Rightarrow> node \<Rightarrow> node" where
  "set_drained drained n = n\<lparr>node_Drained := drained, node_DrainRevision := node_DrainRevision n + 1\<rparr>"

definition UpdateNodeDrained :: "bool \<Rightarrow> node_id \<Rightarrow> int option \<Rightarrow> db \<Rightarrow> store_error + node \<times> db" where
  "UpdateNodeDrained drained i expected d =
     (case find_by node_ID i (db_nodes d) of
        None \<Rightarrow> Inl ErrNoRows
      | Some n \<Rightarrow>
          if (case expected of None \<Rightarrow> True | Some v \<Rightarrow> node_DrainRevision n = v \<and> node_Drained n \<noteq> drained)
          then if node_DrainRevision n + 1 \<ge> 2 ^ 63 then Inl ErrIntegerRange
               else Inr (set_drained drained n,
                      d\<lparr>db_nodes := update_where (\<lambda>n. node_ID n = i) (set_drained drained) (db_nodes d)\<rparr>)
          else Inl ErrNoRows)"

section \<open>Heartbeat\<close>

record NodeHeartbeatRequest =
  hbr_CPUFreeMillis :: int
  hbr_CPUTotalMillis :: int
  hbr_MemFreeBytes :: int
  hbr_MemTotalBytes :: int
  hbr_DiskFreeBytes :: int
  hbr_DiskTotalBytes :: int
  hbr_Version :: string

definition MaxInt32 :: int where "MaxInt32 = 2147483647"

text \<open>The conversion \<^verbatim>\<open>int32(x)\<close> of an \<^verbatim>\<open>int64\<close>.\<close>

definition to_int32 :: "int \<Rightarrow> int" where "to_int32 x = sint (word_of_int x :: 32 word)"

definition validateHeartbeat :: "NodeHeartbeatRequest \<Rightarrow> string option" where
  "validateHeartbeat req =
     (if hbr_CPUFreeMillis req < 0 \<or> hbr_CPUTotalMillis req < 0 then Some ''cpu millis must be non-negative''
      else if hbr_CPUFreeMillis req > hbr_CPUTotalMillis req then Some ''cpu_free_millis must be <= cpu_total_millis''
      else if hbr_CPUFreeMillis req > MaxInt32 \<or> hbr_CPUTotalMillis req > MaxInt32 then Some ''cpu millis out of range''
      else if hbr_MemFreeBytes req < 0 \<or> hbr_MemTotalBytes req < 0 then Some ''mem bytes must be non-negative''
      else if hbr_MemFreeBytes req > hbr_MemTotalBytes req then Some ''mem_free_bytes must be <= mem_total_bytes''
      else if hbr_DiskFreeBytes req < 0 \<or> hbr_DiskTotalBytes req < 0 then Some ''disk bytes must be non-negative''
      else if hbr_DiskFreeBytes req > hbr_DiskTotalBytes req then Some ''disk_free_bytes must be <= disk_total_bytes''
      else None)"

definition heartbeat_params :: "timestamp \<Rightarrow> node_id \<Rightarrow> NodeHeartbeatRequest \<Rightarrow> UpdateNodeHeartbeatParams" where
  "heartbeat_params goNow nodeID req = \<lparr>
     hb_ID = nodeID, hb_LastHeartbeat = goNow,
     hb_CpuTotalMillis = to_int32 (hbr_CPUTotalMillis req), hb_CpuFreeMillis = to_int32 (hbr_CPUFreeMillis req),
     hb_MemTotalBytes = hbr_MemTotalBytes req, hb_MemFreeBytes = hbr_MemFreeBytes req,
     hb_DiskTotalBytes = hbr_DiskTotalBytes req, hb_DiskFreeBytes = hbr_DiskFreeBytes req,
     hb_Version = TrimSpace (hbr_Version req)\<rparr>"

definition heartbeatHandler ::
  "timestamp \<Rightarrow> node_id option \<Rightarrow> nat + NodeHeartbeatRequest \<Rightarrow> db \<Rightarrow> nat \<times> db" where
  "heartbeatHandler goNow pathID body d =
     (case pathID of
        None \<Rightarrow> (400, d)
      | Some nodeID \<Rightarrow>
          (case body of
             Inl status \<Rightarrow> (status, d)
           | Inr req \<Rightarrow>
               if validateHeartbeat req \<noteq> None then (400, d)
               else case GetNode nodeID d of
                   Inl _ \<Rightarrow> (404, d)
                 | Inr _ \<Rightarrow>
                     (case UpdateNodeHeartbeat (heartbeat_params goNow nodeID req) d of
                        Inl _ \<Rightarrow> (500, d)
                      | Inr d' \<Rightarrow> (204, d'))))"

section \<open>Drain\<close>

text \<open>\<^verbatim>\<open>strconv.ParseInt(s, 10, 64)\<close>.\<close>

definition digit_value :: "char \<Rightarrow> int option" where
  "digit_value c = (if CHR ''0'' \<le> c \<and> c \<le> CHR ''9'' then Some (int (of_char c) - 48) else None)"

fun parse_digits :: "int \<Rightarrow> string \<Rightarrow> int option" where
  "parse_digits acc [] = Some acc"
| "parse_digits acc (c # cs) =
     (case digit_value c of None \<Rightarrow> None | Some v \<Rightarrow> parse_digits (10 * acc + v) cs)"

definition ParseInt64 :: "string \<Rightarrow> int option" where
  "ParseInt64 s =
     (let (neg, ds) = (case s of CHR ''-'' # r \<Rightarrow> (True, r) | CHR ''+'' # r \<Rightarrow> (False, r) | _ \<Rightarrow> (False, s))
      in if ds = [] then None
         else case parse_digits 0 ds of
             None \<Rightarrow> None
           | Some v \<Rightarrow> let n = (if neg then - v else v) in if - (2 ^ 63) \<le> n \<and> n < 2 ^ 63 then Some n else None)"

text \<open>\<open>query\<close> is the first value of the parameter \<^verbatim>\<open>expected_revision\<close>, when present.\<close>

definition setNodeDrainHandler :: "bool \<Rightarrow> node_id option \<Rightarrow> string option \<Rightarrow> db \<Rightarrow> nat \<times> int option \<times> db" where
  "setNodeDrainHandler drain pathID query d =
     (case pathID of
        None \<Rightarrow> (400, None, d)
      | Some nodeID \<Rightarrow>
          (case (case query of
                   None \<Rightarrow> Inr None
                 | Some raw \<Rightarrow> (case ParseInt64 raw of
                       None \<Rightarrow> Inl ()
                     | Some v \<Rightarrow> if v < 0 then Inl () else Inr (Some v))) of
             Inl () \<Rightarrow> (400, None, d)
           | Inr revision \<Rightarrow>
               (case UpdateNodeDrained drain nodeID revision d of
                  Inl ErrNoRows \<Rightarrow> (case GetNode nodeID d of Inl _ \<Rightarrow> (404, None, d) | Inr _ \<Rightarrow> (409, None, d))
                | Inl _ \<Rightarrow> (500, None, d)
                | Inr (n, d') \<Rightarrow> (204, Some (node_DrainRevision n), d'))))"

section \<open>Lemmas\<close>

lemma GetNode_eq: "GetNode i d = (case find_by node_ID i (db_nodes d) of None \<Rightarrow> Inl ErrNoRows | Some n \<Rightarrow> Inr n)"
  by (simp add: GetNode_def get_row_def)

text \<open>A change of the nodes that drops no node keeps the invariant, whatever happens to the tables it does not read.\<close>

lemma db_inv_nodes:
  assumes inv: "db_inv d" and ids: "node_ID ` set (db_nodes d) \<subseteq> node_ID ` set (db_nodes d')" "distinct (map node_ID (db_nodes d'))"
    and same: "db_jobs d' = db_jobs d" "db_runs d' = db_runs d" "db_waves d' = db_waves d" "db_repos d' = db_repos d"
  shows "db_inv d'"
proof -
  have "keys_ok d'" using inv ids(2) same by (simp add: db_inv_def keys_ok_def)
  moreover have "refs_ok d'" using inv ids(1) unfolding db_inv_def refs_ok_def same by blast
  moreover have "active_runs_ok d'" using inv unfolding db_inv_def active_runs_ok_def same by (elim conjE) assumption
  ultimately show ?thesis using inv unfolding db_inv_def same by (elim conjE) (intro conjI)
qed

lemma map_key_update_where: "(\<And>x. key (f x) = key x) \<Longrightarrow> map key (update_where P f t) = map key t"
  by (simp add: update_where_def)

lemma db_inv_node_update:
  assumes inv: "db_inv d" and f: "\<And>n. node_ID (f n) = node_ID n"
    and d': "db_nodes d' = update_where P f (db_nodes d)"
      "db_jobs d' = db_jobs d" "db_runs d' = db_runs d" "db_waves d' = db_waves d" "db_repos d' = db_repos d"
  shows "db_inv d'"
proof (rule db_inv_nodes [OF inv _ _ d'(2-5)])
  have ids: "map node_ID (db_nodes d') = map node_ID (db_nodes d)" unfolding d'(1) using f by (rule map_key_update_where)
  show "distinct (map node_ID (db_nodes d'))" unfolding ids by (rule db_inv_keys(4) [OF inv])
  have "set (map node_ID (db_nodes d')) = set (map node_ID (db_nodes d))" by (simp only: ids)
  then show "node_ID ` set (db_nodes d) \<subseteq> node_ID ` set (db_nodes d')" by simp
qed

lemma UpdateNodeHeartbeat_inv:
  assumes inv: "db_inv d" and u: "UpdateNodeHeartbeat arg d = Inr d'"
  shows "db_inv d'"
proof (cases "find_by node_ID (hb_ID arg) (db_nodes d)")
  case None
  then show ?thesis using inv u by (simp add: UpdateNodeHeartbeat_def)
next
  case (Some n)
  then have d': "d' = d\<lparr>db_nodes := update_where (\<lambda>n. node_ID n = hb_ID arg) (beat arg) (db_nodes d),
      db_node_metrics := db_node_metrics d @ [heartbeat_metric arg]\<rparr>"
    using u by (simp add: UpdateNodeHeartbeat_def split: if_splits)
  show ?thesis
    by (rule db_inv_node_update [OF inv, where f = "beat arg" and P = "\<lambda>n. node_ID n = hb_ID arg"])
      (simp_all add: d' beat_def)
qed

lemma heartbeatHandler_inv: "db_inv d \<Longrightarrow> heartbeatHandler goNow pathID body d = (code, d') \<Longrightarrow> db_inv d'"
  by (auto simp: heartbeatHandler_def intro: UpdateNodeHeartbeat_inv split: option.splits sum.splits if_splits)

lemma UpdateNodeDrained_Inr:
  assumes "UpdateNodeDrained drained i expected d = Inr (n', d')"
  obtains n where "find_by node_ID i (db_nodes d) = Some n" "n' = set_drained drained n"
    "case expected of None \<Rightarrow> True | Some v \<Rightarrow> node_DrainRevision n = v \<and> node_Drained n \<noteq> drained"
    "d' = d\<lparr>db_nodes := update_where (\<lambda>n. node_ID n = i) (set_drained drained) (db_nodes d)\<rparr>"
  using assms by (auto simp: UpdateNodeDrained_def split: option.splits if_splits)

lemma UpdateNodeDrained_inv:
  assumes inv: "db_inv d" and u: "UpdateNodeDrained drained i expected d = Inr (n', d')"
  shows "db_inv d'"
proof -
  obtain n where "find_by node_ID i (db_nodes d) = Some n"
    and d': "d' = d\<lparr>db_nodes := update_where (\<lambda>n. node_ID n = i) (set_drained drained) (db_nodes d)\<rparr>"
    using u by (rule UpdateNodeDrained_Inr)
  show ?thesis
    by (rule db_inv_node_update [OF inv, where f = "set_drained drained" and P = "\<lambda>n. node_ID n = i"])
      (simp_all add: d' set_drained_def)
qed

text \<open>The range check makes the conversion of the handler exact.\<close>

lemma to_int32_id: "0 \<le> x \<Longrightarrow> x \<le> MaxInt32 \<Longrightarrow> to_int32 x = x"
  by (simp add: to_int32_def MaxInt32_def signed_of_int signed_take_bit_int_eq_self)

lemma validateHeartbeat_params:
  assumes "validateHeartbeat req = None"
  shows "hb_CpuTotalMillis (heartbeat_params goNow i req) = hbr_CPUTotalMillis req"
    "hb_CpuFreeMillis (heartbeat_params goNow i req) = hbr_CPUFreeMillis req"
    "node_resources_ok (beat (heartbeat_params goNow i req) n)"
  using assms to_int32_id [of "hbr_CPUTotalMillis req"] to_int32_id [of "hbr_CPUFreeMillis req"]
  by (simp_all add: validateHeartbeat_def heartbeat_params_def beat_def node_resources_ok_def split: if_splits)

lemma find_by_update_node:
  assumes "find_by node_ID i ns = Some n" "\<And>m. node_ID (f m) = node_ID m"
  shows "find_by node_ID i (update_where (\<lambda>m. node_ID m = i) f ns) = Some (f n)"
  using assms by (induction ns) (auto simp: find_by_def update_where_def)

text \<open>Requests of any number of callers, in the order they commit; one that is refused changes nothing.\<close>

definition run_drain :: "bool \<times> node_id \<times> int option \<Rightarrow> db \<Rightarrow> db" where
  "run_drain = (\<lambda>(drained, i, expected) d.
     case UpdateNodeDrained drained i expected d of Inl _ \<Rightarrow> d | Inr (_, d') \<Rightarrow> d')"

lemma find_by_update_other:
  assumes "i \<noteq> k" "\<And>m. node_ID (f m) = node_ID m"
  shows "find_by node_ID i (update_where (\<lambda>m. node_ID m = k) f ns) = find_by node_ID i ns"
  using assms by (induction ns) (auto simp: find_by_def update_where_def)

lemma run_drain_revision:
  assumes n: "find_by node_ID i (db_nodes d) = Some n"
  obtains n' where "find_by node_ID i (db_nodes (run_drain op d)) = Some n'" "node_DrainRevision n \<le> node_DrainRevision n'"
proof -
  obtain b k e where op: "op = (b, k, e)" by (cases op)
  have id: "node_ID (set_drained b m) = node_ID m" for m by (simp add: set_drained_def)
  show thesis
  proof (cases "UpdateNodeDrained b k e d")
    case (Inl err)
    then show thesis using n by (intro that [of n]) (simp_all add: op run_drain_def)
  next
    case (Inr r)
    obtain n1 d1 where r: "r = (n1, d1)" by (cases r)
    obtain n0 where n0: "find_by node_ID k (db_nodes d) = Some n0"
      and d1: "d1 = d\<lparr>db_nodes := update_where (\<lambda>n. node_ID n = k) (set_drained b) (db_nodes d)\<rparr>"
      using Inr [unfolded r] by (rule UpdateNodeDrained_Inr)
    have run: "run_drain op d = d1" using Inr r by (simp add: op run_drain_def)
    show thesis
    proof (cases "i = k")
      case True
      then have "find_by node_ID i (db_nodes d1) = Some (set_drained b n)"
        using find_by_update_node [OF n id] by (simp add: d1)
      then show thesis by (intro that [of "set_drained b n"]) (simp_all add: run set_drained_def)
    next
      case False
      then show thesis using n find_by_update_other [OF False id] by (intro that [of n]) (simp_all add: run d1)
    qed
  qed
qed

lemma run_drains_revision:
  assumes n: "find_by node_ID i (db_nodes d) = Some n"
  obtains n' where "find_by node_ID i (db_nodes (fold run_drain ops d)) = Some n'" "node_DrainRevision n \<le> node_DrainRevision n'"
proof -
  have "\<exists>n'. find_by node_ID i (db_nodes (fold run_drain ops d)) = Some n' \<and> node_DrainRevision n \<le> node_DrainRevision n'"
    using n
  proof (induction ops arbitrary: d n)
    case (Cons op ops)
    obtain n1 where n1: "find_by node_ID i (db_nodes (run_drain op d)) = Some n1" "node_DrainRevision n \<le> node_DrainRevision n1"
      using Cons.prems by (rule run_drain_revision)
    obtain n' where "find_by node_ID i (db_nodes (fold run_drain ops (run_drain op d))) = Some n'"
        "node_DrainRevision n1 \<le> node_DrainRevision n'" using Cons.IH [OF n1(1)] by blast
    then show ?case using n1(2) by (auto intro: order_trans)
  qed simp
  then show thesis using that by blast
qed

text \<open>A drained node is handed no job.\<close>

lemma drained_claims_nothing:
  assumes "find_by node_ID i (db_nodes d) = Some n" "node_Drained n"
  shows "ClaimJob_query now locked i d = Inl ErrNoRows"
  using assms by (simp add: ClaimJob_query_def claimable_def)

end
