(* ===== verification/Claim.thy ===== *)
theory Claim
  imports Completion_Safety Hydra Nodes
begin

text \<open>
  \<^verbatim>\<open>internal/server/handlers\<close>: a node claims a job (\<^verbatim>\<open>nodes_claim.go\<close>, \<^verbatim>\<open>nodes_claim_service.go\<close>,
  \<^verbatim>\<open>nodes_claim_response.go\<close>, \<^verbatim>\<open>claim_detected_stack.go\<close>).

  The claim is one statement; what follows it are separate statements, so an error after it leaves the
  job claimed unless the code gives it back. The result is therefore paired with the database.
  The configuration and the bodies of the specs are arguments. Timestamps of the response are kept
  as values, not as RFC 3339 text.
\<close>

section \<open>Detected stack\<close>

text \<open>
  \<^verbatim>\<open>ChainPredecessor\<close> returns some job of a Go map that points to the given one. In a chain there is at
  most one.
\<close>

definition ChainPredecessor :: "job_id \<Rightarrow> job list \<Rightarrow> job option" where
  "ChainPredecessor jobID jobs = List.find (\<lambda>c. job_NextID c = Some jobID) jobs"

definition gate_expectation :: "job \<Rightarrow> StackExpectation option" where
  "gate_expectation prev =
     (if \<not> IsGateJobType (job_JobType prev) then None
      else case UnmarshalJobMeta (RawJson (job_Meta prev)) of
          None \<Rightarrow> None
        | Some meta \<Rightarrow> (case jm_Gate meta of
              None \<Rightarrow> None
            | Some gate \<Rightarrow> NormalizeStackExpectation (DetectedStackExpectation gate)))"

fun resolveStackLoop :: "nat \<Rightarrow> job list \<Rightarrow> job_id \<Rightarrow> StackExpectation option" where
  "resolveStackLoop 0 jobs currentID = None"
| "resolveStackLoop (Suc n) jobs currentID =
     (case ChainPredecessor currentID jobs of
        None \<Rightarrow> None
      | Some prev \<Rightarrow> (case gate_expectation prev of
            Some e \<Rightarrow> Some e
          | None \<Rightarrow> resolveStackLoop n jobs (job_ID prev)))"

definition resolveDetectedStackExpectationFromJobs :: "job_id \<Rightarrow> job list \<Rightarrow> StackExpectation option" where
  "resolveDetectedStackExpectationFromJobs currentJobID jobs =
     (if IsEmpty currentJobID \<or> jobs = [] then None
      else resolveStackLoop (card (job_ID ` set jobs)) jobs currentJobID)"

definition resolveClaimDetectedStack :: "job \<Rightarrow> db \<Rightarrow> StackExpectation option" where
  "resolveClaimDetectedStack job d =
     resolveDetectedStackExpectationFromJobs (job_ID job) (ListJobsByRunAttempt (job_RunID job) (job_Attempt job) d)"

section \<open>The response\<close>

record NodeClaimResponse =
  ncr_RunID :: run_id
  ncr_ResumeCount :: int
  ncr_RepoID :: repo_id
  ncr_Attempt :: int
  ncr_JobID :: job_id
  ncr_JobName :: string
  ncr_JobType :: job_type
  ncr_JobImage :: string
  ncr_NextID :: "job_id option"
  ncr_RepoURL :: string
  ncr_Status :: run_status
  ncr_NodeID :: node_id
  ncr_BaseRef :: string
  ncr_CommitSHA :: string
  ncr_RepoSHAIn :: string
  ncr_StartedAt :: "timestamp option"
  ncr_CreatedAt :: timestamp
  ncr_Spec :: json
  ncr_MigContext :: "int option"
  ncr_GateContext :: "string option"
  ncr_DetectedStack :: "StackExpectation option"

text \<open>Errors of the payload; a terminal one fails the job, any other gives it back.\<close>

datatype payload_error = PayloadSpec spec_error | PayloadTerminal string

definition nodeIDPtrOrZero :: "node_id option \<Rightarrow> node_id" where
  "nodeIDPtrOrZero i = (case i of None \<Rightarrow> [] | Some n \<Rightarrow> n)"

definition mig_context :: "job \<Rightarrow> int option" where
  "mig_context job =
     (case UnmarshalJobMeta (RawJson (job_Meta job)) of
        None \<Rightarrow> None
      | Some m \<Rightarrow> if job_JobType job = JobTypeMig then jm_MigStepIndex m else None)"

definition gate_context :: "job \<Rightarrow> string option" where
  "gate_context job =
     (case UnmarshalJobMeta (RawJson (job_Meta job)) of
        None \<Rightarrow> None
      | Some m \<Rightarrow>
          if (job_JobType job = JobTypePreGate \<or> job_JobType job = JobTypePostGate) \<and> TrimSpace (jm_GateCycleName m) \<noteq> []
          then Some (TrimSpace (jm_GateCycleName m)) else None)"

definition buildJobClaimPayload ::
  "claim_config \<Rightarrow> run \<Rightarrow> raw_json \<Rightarrow> string \<Rightarrow> job \<Rightarrow> db \<Rightarrow> payload_error + NodeClaimResponse" where
  "buildJobClaimPayload cfg r spec repoURL job d =
     (case mutateClaimSpec cfg spec (job_ID job) (job_JobType job) of
        Inl e \<Rightarrow> Inl (PayloadSpec e)
      | Inr mergedSpec \<Rightarrow> Inr \<lparr>
          ncr_RunID = run_ID r, ncr_ResumeCount = ResumeCount (run_Stats r), ncr_RepoID = job_RepoID job,
          ncr_Attempt = job_Attempt job, ncr_JobID = job_ID job, ncr_JobName = TrimSpace (job_Name job),
          ncr_JobType = job_JobType job, ncr_JobImage = job_JobImage job, ncr_NextID = job_NextID job,
          ncr_RepoURL = repoURL, ncr_Status = run_Status r, ncr_NodeID = nodeIDPtrOrZero (job_NodeID job),
          ncr_BaseRef = job_RepoBaseRef job,
          ncr_CommitSHA = (let c = TrimSpace (run_SourceCommitSha r) in if c = [] then TrimSpace (job_RepoShaIn job) else c),
          ncr_RepoSHAIn = job_RepoShaIn job, ncr_StartedAt = run_StartedAt r, ncr_CreatedAt = run_CreatedAt r,
          ncr_Spec = mergedSpec, ncr_MigContext = mig_context job, ncr_GateContext = gate_context job,
          ncr_DetectedStack = resolveClaimDetectedStack job d\<rparr>)"

section \<open>The service\<close>

datatype claim_error = ClaimNotFound | ClaimNoWork | ClaimInternal string

definition repoURLForID :: "repo_id \<Rightarrow> db \<Rightarrow> store_error + string" where
  "repoURLForID i d = res_bind (get_row repo_ID i (db_repos d)) (\<lambda>r. Inr (repo_Url r))"

definition GetSpec :: "(string \<Rightarrow> raw_json) \<Rightarrow> string \<Rightarrow> db \<Rightarrow> store_error + raw_json" where
  "GetSpec specBody i d = (if i \<in> set (db_specs d) then Inr (specBody i) else Inl ErrNoRows)"

definition terminal_claim_input :: "job_id \<Rightarrow> node_id \<Rightarrow> string \<Rightarrow> completionInput" where
  "terminal_claim_input jobID nodeID msg = \<lparr>ci_JobID = jobID, ci_NodeID = nodeID, ci_Status = JobStatusError,
     ci_ExitCode = None, ci_StatsPayload = empty_stats\<lparr>sp_Error := msg\<rparr>, ci_RepoSHAOut = []\<rparr>"

text \<open>What happens to a claimed job whose payload cannot be built.\<close>

definition reject_claim ::
  "timestamp \<Rightarrow> timestamp \<Rightarrow> timestamp \<Rightarrow> payload_error \<Rightarrow> job \<Rightarrow> node_id \<Rightarrow> db \<Rightarrow> claim_error \<times> db" where
  "reject_claim now goNow now' e job nodeID d =
     (let unclaim = (ClaimInternal ''failed to build claim response'',
            case UnclaimJob (job_ID job) nodeID d of Inl _ \<Rightarrow> d | Inr d' \<Rightarrow> d')
      in case e of
           PayloadTerminal msg \<Rightarrow>
             (case Complete now goNow now' (terminal_claim_input (job_ID job) nodeID msg) d of
                Inr (_, d') \<Rightarrow> (ClaimNoWork, d')
              | Inl _ \<Rightarrow> unclaim)
         | PayloadSpec _ \<Rightarrow> unclaim)"

definition Claim ::
  "timestamp \<Rightarrow> timestamp \<Rightarrow> timestamp \<Rightarrow> (job_id \<Rightarrow> bool) \<Rightarrow> claim_config \<Rightarrow> (string \<Rightarrow> raw_json) \<Rightarrow> node_id \<Rightarrow> db \<Rightarrow>
   (claim_error + NodeClaimResponse) \<times> db" where
  "Claim now goNow now' locked cfg specBody nodeID d =
     (case GetNode nodeID d of
        Inl _ \<Rightarrow> (Inl ClaimNotFound, d)
      | Inr _ \<Rightarrow>
          (case ClaimJob now locked nodeID d of
             Inl ErrNoRows \<Rightarrow> (Inl ClaimNoWork, d)
           | Inl _ \<Rightarrow> (Inl (ClaimInternal ''failed to claim job''), d)
           | Inr (job, d1) \<Rightarrow>
               (case GetRun (job_RunID job) d1 of
                  Inl _ \<Rightarrow> (Inl (ClaimInternal ''failed to get run for claimed job''), d1)
                | Inr r \<Rightarrow>
                    (case repoURLForID (job_RepoID job) d1 of
                       Inl _ \<Rightarrow> (Inl (ClaimInternal ''failed to get repo for claimed job''), d1)
                     | Inr repoURL \<Rightarrow>
                         (case GetSpec specBody (run_SpecID r) d1 of
                            Inl _ \<Rightarrow> (Inl (ClaimInternal ''failed to get spec for claimed job''), d1)
                          | Inr spec \<Rightarrow>
                              (case buildJobClaimPayload cfg r spec repoURL job d1 of
                                 Inr payload \<Rightarrow> (Inr payload, d1)
                               | Inl e \<Rightarrow>
                                   let (err, d2) = reject_claim now goNow now' e job nodeID d1 in (Inl err, d2)))))))"

text \<open>The HTTP status of the handler.\<close>

fun claim_http_status :: "claim_error + NodeClaimResponse \<Rightarrow> nat" where
  "claim_http_status (Inl ClaimNotFound) = 404"
| "claim_http_status (Inl ClaimNoWork) = 204"
| "claim_http_status (Inl (ClaimInternal _)) = 500"
| "claim_http_status (Inr _) = 200"

section \<open>Lemmas\<close>

text \<open>No error that \<^const>\<open>buildJobClaimPayload\<close> returns is terminal.\<close>

lemma buildJobClaimPayload_Inl:
  "buildJobClaimPayload cfg r spec repoURL job d = Inl e \<longleftrightarrow>
     (\<exists>err. mutateClaimSpec cfg spec (job_ID job) (job_JobType job) = Inl err \<and> e = PayloadSpec err)"
  by (auto simp: buildJobClaimPayload_def split: sum.splits)

lemma Claim_cases:
  assumes "Claim now goNow now' locked cfg specBody nodeID d = (res, d')"
  obtains (idle) err where "d' = d" "res = Inl err"
  | (claimed) j where "ClaimJob now locked nodeID d = Inr (j, d')"
  | (rejected) j d1 r url body err where "ClaimJob now locked nodeID d = Inr (j, d1)"
      "GetRun (job_RunID j) d1 = Inr r" "repoURLForID (job_RepoID j) d1 = Inr url"
      "GetSpec specBody (run_SpecID r) d1 = Inr body"
      "mutateClaimSpec cfg body (job_ID j) (job_JobType j) = Inl err"
      "res = Inl (ClaimInternal ''failed to build claim response'')"
      "d' = (case UnclaimJob (job_ID j) nodeID d1 of Inl _ \<Rightarrow> d1 | Inr d2 \<Rightarrow> d2)"
proof (cases "GetNode nodeID d")
  case (Inl e)
  then show thesis using assms by (auto simp: Claim_def intro: idle)
next
  case (Inr n)
  note node = this
  show thesis
  proof (cases "ClaimJob now locked nodeID d")
    case (Inl e)
    then show thesis using assms node by (cases e) (auto simp: Claim_def intro: idle)
  next
    case (Inr jd)
    obtain j d1 where jd: "jd = (j, d1)" by (cases jd)
    note claim = Inr [unfolded jd]
    have mono: "d' = d1 \<Longrightarrow> thesis" using claimed [of j] claim by simp
    show thesis
    proof (cases "GetRun (job_RunID j) d1")
      case (Inr r)
      note r = this
      show thesis
      proof (cases "repoURLForID (job_RepoID j) d1")
        case (Inr url)
        note url = this
        show thesis
        proof (cases "GetSpec specBody (run_SpecID r) d1")
          case (Inr body)
          show thesis
          proof (cases "buildJobClaimPayload cfg r body url j d1")
            case (Inl e)
            then obtain err where err: "mutateClaimSpec cfg body (job_ID j) (job_JobType j) = Inl err" "e = PayloadSpec err"
              by (auto simp: buildJobClaimPayload_Inl)
            show thesis
              by (rule rejected [OF claim r url Inr err(1)])
                (use assms node claim r url Inr Inl err(2) in \<open>simp_all add: Claim_def reject_claim_def Let_def\<close>)
          qed (use assms node claim r url Inr mono in \<open>simp add: Claim_def\<close>)
        qed (use assms node claim r url mono in \<open>simp add: Claim_def\<close>)
      qed (use assms node claim r mono in \<open>simp add: Claim_def\<close>)
    qed (use assms node claim mono in \<open>simp add: Claim_def\<close>)
  qed
qed

lemma Claim_inv:
  assumes inv: "db_inv d" and c: "Claim now goNow now' locked cfg specBody nodeID d = (res, d')"
  shows "db_inv d'"
  using c
proof (cases rule: Claim_cases)
  case (claimed j)
  then show ?thesis by (rule ClaimJob_inv [OF inv])
next
  case (rejected j d1 r url body err)
  have d1: "db_inv d1" using rejected(1) by (rule ClaimJob_inv [OF inv])
  show ?thesis
  proof (cases "UnclaimJob (job_ID j) nodeID d1")
    case (Inr d2)
    then show ?thesis using rejected(7) UnclaimJob_inv [OF d1 Inr] by simp
  qed (use rejected(7) d1 in simp)
qed (use inv in simp)

text \<open>A claim hands out the ready job of a chain: what comes before it has succeeded.\<close>

lemma ClaimJob_focus:
  assumes inv: "db_inv d" and cl: "ClaimJob now locked nodeID d = Inr (j', d')"
  obtains j r pre post where "job_focus d j r pre post" "j' = start_job now nodeID j"
    "\<forall>k \<in> set pre. job_Status k = JobStatusSuccess" "\<forall>k \<in> set post. job_Status k = JobStatusCreated"
proof -
  obtain n j where j: "j \<in> set (db_jobs d)" "claimable d n j" "j' = start_job now nodeID j" using cl by (rule ClaimJob_Inr)
  obtain r pre post where foc: "job_focus d j r pre post" using inv j(1) by (rule job_focusE)
  have "ready_status (job_Status j)" using j(2) by (simp add: claimable_def ready_status_def)
  from chain_ok_ready [OF job_focusD(4) [OF foc] this] show thesis using that foc j(3) by blast
qed

lemma predecessor_focus:
  assumes inv: "db_inv d" and k: "k \<in> set (db_jobs d)" "job_NextID k = Some (job_ID j)" and j: "j \<in> set (db_jobs d)"
  obtains r pre ys where "job_focus d k r pre (j # ys)"
proof -
  obtain r pre post where foc: "job_focus d k r pre post" using inv k(1) by (rule job_focusE)
  have "is_chain job_ID job_NextID (pre @ k # post)" using job_focusD(4) [OF foc] by (simp add: chain_ok_def)
  then have "job_NextID k = (case post of [] \<Rightarrow> None | z # _ \<Rightarrow> Some (job_ID z))" by (rule is_chain_at)
  then obtain z zs where z: "post = z # zs" "job_ID z = job_ID j" using k(2) by (cases post) auto
  have "z \<in> set (pre @ k # post)" using z(1) by simp
  then have "z \<in> set (db_jobs d)" using job_focusD(5) [OF foc] by blast
  then have "z = j" using db_inv_keys(1) [OF inv] j z(2) by (auto dest: distinct_key_eq)
  then show thesis using that foc z(1) by blast
qed

text \<open>The predecessor of a ready job has succeeded, and its output is the input of the job.\<close>

lemma ready_predecessor:
  assumes inv: "db_inv d" and k: "k \<in> set (db_jobs d)" "job_NextID k = Some (job_ID j)"
    and j: "j \<in> set (db_jobs d)" "ready_status (job_Status j)"
  shows "job_Status k = JobStatusSuccess" "job_RepoShaOut k = job_RepoShaIn j" "IsCanonicalFullCommitSHA (job_RepoShaIn j)"
proof -
  obtain r pre ys where foc: "job_focus d k r pre (j # ys)" using inv k j(1) by (rule predecessor_focus)
  have ok: "chain_ok (run_RepoSha0 r) ((pre @ [k]) @ j # ys)" using job_focusD(4) [OF foc] by simp
  show s: "job_Status k = JobStatusSuccess" using chain_ok_ready(1) [OF ok j(2)] by simp
  have "sha_links (pre @ k # j # ys)" using ok by (simp add: chain_ok_def)
  then have "sha_links (k # j # ys)" using sha_links_append by blast
  then show "job_RepoShaOut k = job_RepoShaIn j" "IsCanonicalFullCommitSHA (job_RepoShaIn j)" using s by simp_all
qed

text \<open>Giving a claimed job back undoes the claim.\<close>

lemma unclaim_start:
  assumes "job_Status j = JobStatusQueued" "job_StartedAt j = None" "job_NodeID j = (if b then Some nodeID else None)"
  shows "unclaim_job b (start_job now nodeID j) = j"
  using assms by (cases j) (simp add: unclaim_job_def start_job_def)

lemma unclaim_claim:
  assumes inv: "db_inv d" and cl: "ClaimJob now locked nodeID d = Inr (j', d1)"
    and j: "find_by job_ID (job_ID j') (db_jobs d) = Some j"
    and r: "find_by run_ID (job_RunID j') (db_runs d) = Some r" and n: "sql_resume_count (run_Stats r) = Inr n"
    and node: "job_NodeID j = (if n > 0 then Some nodeID else None)"
  shows "UnclaimJob (job_ID j') nodeID d1 = Inr d"
proof -
  obtain nd j0 where nd: "\<not> IsEmpty nodeID" "find_by node_ID nodeID (db_nodes d) = Some nd"
    and j0: "j0 \<in> set (db_jobs d)" "claimable d nd j0" "j' = start_job now nodeID j0"
    and d1: "d1 = d\<lparr>db_jobs := map (at_id (job_ID j0) (start_job now nodeID)) (db_jobs d)\<rparr>"
    using cl by (rule ClaimJob_Inr)
  have ids: "job_ID j' = job_ID j0" "job_RunID j' = job_RunID j0" by (simp_all add: j0(3) start_job_def)
  note dist = db_inv_keys(1) [OF inv]
  have eq: "j = j0" using j find_by_in [OF dist j0(1)] by (simp add: ids)
  have f1: "find_by job_ID (job_ID j0) (db_jobs d1) = Some (start_job now nodeID j0)"
  proof -
    have "start_job now nodeID j0 \<in> set (db_jobs d1)" using j0(1) by (auto simp: d1 at_id_def)
    moreover have "distinct (map job_ID (db_jobs d1))"
      using db_inv_keys(1) [OF ClaimJob_inv [OF inv cl]] .
    ultimately show ?thesis using find_by_in [of job_ID "db_jobs d1" "start_job now nodeID j0"] by (simp add: start_job_def)
  qed
  have st: "job_Status j0 = JobStatusQueued" using j0(2) by (simp add: claimable_def)
  have started: "job_StartedAt j0 = None"
  proof -
    obtain r' pre post where foc: "job_focus d j0 r' pre post" using inv j0(1) by (rule job_focusE)
    then have "job_ok j0" using job_focusD(4) [OF foc] by (simp add: chain_ok_def)
    then show ?thesis using st by (simp add: job_ok_def)
  qed
  have undo: "unclaim_job (n > 0) (start_job now nodeID j0) = j0"
    by (rule unclaim_start) (use st started node eq in simp_all)
  have id: "job_ID (start_job now nodeID k) = job_ID k" for k by (simp add: start_job_def)
  have jobs1: "db_jobs d1 = map (at_id (job_ID j0) (start_job now nodeID)) (db_jobs d)" by (simp add: d1)
  have "map (at_id (job_ID j0) (unclaim_job (n > 0))) (db_jobs d1) = db_jobs d"
    unfolding jobs1 map_map
  proof (rule map_idI)
    fix k
    assume k: "k \<in> set (db_jobs d)"
    show "(at_id (job_ID j0) (unclaim_job (n > 0)) \<circ> at_id (job_ID j0) (start_job now nodeID)) k = k"
    proof (cases "job_ID k = job_ID j0")
      case True
      then have "k = j0" using dist k j0(1) by (auto dest: distinct_key_eq)
      then show ?thesis using undo id by (simp add: at_id_def)
    qed (simp add: at_id_def)
  qed
  then have "d1\<lparr>db_jobs := map (at_id (job_ID j0) (unclaim_job (n > 0))) (db_jobs d1)\<rparr> = d" by (simp add: d1)
  moreover have "nodeID \<noteq> []" using nd(1) by (auto simp: IsEmpty_def Normalize_def TrimSpace_def)
  moreover have "\<not> IsEmpty (job_ID j0)" using inv j0(1) by (rule db_inv_keys(5))
  moreover have "db_nodes d1 = db_nodes d" "db_runs d1 = db_runs d" by (simp_all add: d1)
  ultimately show ?thesis using nd f1 r n
    by (simp add: UnclaimJob_def UnclaimJob_query_def ids update_where_at_id start_job_def)
qed

text \<open>
  A job whose spec cannot be merged is handed back untouched by every claim: the database, and with
  it the job the next claim selects, does not change.
\<close>

lemma Claim_requeues:
  assumes inv: "db_inv d" and cl: "ClaimJob now locked nodeID d = Inr (j', d1)"
    and j: "find_by job_ID (job_ID j') (db_jobs d) = Some j"
    and r: "find_by run_ID (job_RunID j') (db_runs d) = Some r" and n: "sql_resume_count (run_Stats r) = Inr n"
    and node: "job_NodeID j = (if n > 0 then Some nodeID else None)"
    and url: "repoURLForID (job_RepoID j') d = Inr url" and body: "GetSpec specBody (run_SpecID r) d = Inr body"
    and err: "mutateClaimSpec cfg body (job_ID j') (job_JobType j') = Inl err"
  shows "Claim now goNow now' locked cfg specBody nodeID d = (Inl (ClaimInternal ''failed to build claim response''), d)"
proof -
  obtain nd and j0 :: job where nd: "find_by node_ID nodeID (db_nodes d) = Some nd"
    and d1: "d1 = d\<lparr>db_jobs := map (at_id (job_ID j0) (start_job now nodeID)) (db_jobs d)\<rparr>"
    using cl by (rule ClaimJob_Inr)
  have "GetRun (job_RunID j') d1 = Inr r" using r by (simp add: d1 GetRun_def get_row_def)
  moreover have "repoURLForID (job_RepoID j') d1 = Inr url" using url by (simp add: d1 repoURLForID_def)
  moreover have "GetSpec specBody (run_SpecID r) d1 = Inr body" using body by (simp add: d1 GetSpec_def)
  moreover have "buildJobClaimPayload cfg r body url j' d1 = Inl (PayloadSpec err)"
    using err by (simp add: buildJobClaimPayload_Inl)
  moreover have "UnclaimJob (job_ID j') nodeID d1 = Inr d" by (rule unclaim_claim [OF inv cl j r n node])
  ultimately show ?thesis using nd cl by (simp add: Claim_def GetNode_eq reject_claim_def Let_def)
qed

end
