(* ===== verification/Auth.thy ===== *)
theory Auth
  imports Nodes
begin

text \<open>
  Who may call what: \<^verbatim>\<open>internal/server/auth\<close> (roles, certificates, bearer tokens, middleware), the
  route table of \<^verbatim>\<open>handlers/register.go\<close>, the token queries (\<^verbatim>\<open>store/tokens.sql.go\<close>), the enrollment
  transaction (\<^verbatim>\<open>store/store.go\<close>) and the token and bootstrap handlers (\<^verbatim>\<open>handlers/tokens.go\<close>,
  \<^verbatim>\<open>handlers/bootstrap.go\<close>).

  A role is the Go string type. The JWT library is the argument \<open>parse\<close> (verify a token with a secret and return its
  claims) and \<open>sign\<close>; the certificate authority is the argument \<open>signCSR\<close>.
\<close>

section \<open>Roles\<close>

type_synonym role = string

definition RoleControlPlane :: role where "RoleControlPlane = ''control-plane''"
definition RoleWorker :: role where "RoleWorker = ''worker''"
definition RoleCLIAdmin :: role where "RoleCLIAdmin = ''cli-admin''"

lemmas role_defs = RoleControlPlane_def RoleWorker_def RoleCLIAdmin_def

definition roleIncludes :: "(role \<times> role list) list" where
  "roleIncludes = [(RoleCLIAdmin, [RoleControlPlane])]"

definition NormalizeRole :: "string \<Rightarrow> role" where
  "NormalizeRole raw =
     (let v = ToLower (TrimSpace raw) in
      if v \<in> {''beacon'', ''control'', ''control-plane'', ''controlplane'', ''client''} then RoleControlPlane
      else if v \<in> {''worker'', ''node''} then RoleWorker
      else if v \<in> {''cli-admin'', ''cliadmin'', ''admin''} then RoleCLIAdmin
      else [])"

definition allowlist :: "role list \<Rightarrow> role list" where
  "allowlist roles = filter (\<lambda>r. r \<noteq> []) roles"

definition expandRoles :: "role list \<Rightarrow> role list" where
  "expandRoles normalized =
     fold (\<lambda>(superRole, includes) acc. if list_ex (\<lambda>i. i \<in> set acc) includes then superRole # acc else acc)
       roleIncludes normalized"

section \<open>Identity\<close>

record Identity =
  id_Role :: role
  id_CommonName :: string
  id_Serial :: string
  id_TokenID :: string

record certificate =
  cert_OrganizationalUnit :: "string list"
  cert_CommonName :: string
  cert_SerialNumber :: string

fun ouRole :: "string list \<Rightarrow> role" where
  "ouRole [] = []"
| "ouRole (ou # ous) =
     (let candidate = NormalizeRole (TrimPrefix (TrimSpace (TrimPrefix (TrimSpace ou) ''Ploy'')) ''role='')
      in if candidate \<noteq> [] then candidate else ouRole ous)"

text \<open>The prefix before a separator found at a positive index.\<close>

definition before_sep :: "char \<Rightarrow> string \<Rightarrow> string option" where
  "before_sep c s = (if c \<in> set s \<and> takeWhile (\<lambda>x. x \<noteq> c) s \<noteq> [] then Some (takeWhile (\<lambda>x. x \<noteq> c) s) else None)"

definition cnRole :: "string \<Rightarrow> role" where
  "cnRole commonName =
     (let cn = TrimSpace commonName in
      if cn = [] then []
      else NormalizeRole (case before_sep CHR '':'' cn of
             Some r \<Rightarrow> r
           | None \<Rightarrow> (case before_sep CHR ''-'' cn of Some r \<Rightarrow> r | None \<Rightarrow> cn)))"

definition extractRole :: "certificate \<Rightarrow> role" where
  "extractRole cert =
     (let candidate = ouRole (cert_OrganizationalUnit cert)
      in if candidate \<noteq> [] then candidate else cnRole (cert_CommonName cert))"

section \<open>Bearer tokens\<close>

definition TokenTypeAPI :: string where "TokenTypeAPI = ''api''"
definition TokenTypeBootstrap :: string where "TokenTypeBootstrap = ''bootstrap''"

record TokenClaims =
  tc_Role :: string
  tc_TokenType :: string
  tc_NodeID :: node_id
  tc_ExpiresAt :: timestamp
  tc_IssuedAt :: timestamp
  tc_ID :: string

datatype auth_error =
    InvalidToken
  | TokenExpired
  | RevocationCheck string
  | TokenRevoked
  | NoCredentials
  | MissingRoleClaim

definition GenerateAPIToken :: "(string \<Rightarrow> TokenClaims \<Rightarrow> string) \<Rightarrow> timestamp \<Rightarrow> string \<Rightarrow> string \<Rightarrow> role \<Rightarrow> timestamp \<Rightarrow> string" where
  "GenerateAPIToken sign goNow tokenID secret r expiresAt =
     sign secret \<lparr>tc_Role = r, tc_TokenType = TokenTypeAPI, tc_NodeID = [], tc_ExpiresAt = expiresAt,
       tc_IssuedAt = goNow, tc_ID = tokenID\<rparr>"

definition GenerateBootstrapToken ::
  "(string \<Rightarrow> TokenClaims \<Rightarrow> string) \<Rightarrow> timestamp \<Rightarrow> string \<Rightarrow> string \<Rightarrow> node_id \<Rightarrow> timestamp \<Rightarrow> string option" where
  "GenerateBootstrapToken sign goNow tokenID secret nodeID expiresAt =
     (if IsEmpty nodeID then None
      else Some (sign secret \<lparr>tc_Role = RoleWorker, tc_TokenType = TokenTypeBootstrap, tc_NodeID = nodeID,
             tc_ExpiresAt = expiresAt, tc_IssuedAt = goNow, tc_ID = tokenID\<rparr>))"

definition CheckAPITokenRevoked :: "string \<Rightarrow> db \<Rightarrow> bool" where
  "CheckAPITokenRevoked i d = list_ex (\<lambda>t. at_TokenID t = i \<and> at_RevokedAt t \<noteq> None) (db_api_tokens d)"

definition CheckBootstrapTokenRevoked :: "string \<Rightarrow> db \<Rightarrow> bool" where
  "CheckBootstrapTokenRevoked i d = list_ex (\<lambda>t. bt_TokenID t = i \<and> bt_RevokedAt t \<noteq> None) (db_bootstrap_tokens d)"

definition isTokenRevoked :: "db option \<Rightarrow> string \<Rightarrow> string \<Rightarrow> string + bool" where
  "isTokenRevoked querier tokenID tokenType =
     (case querier of
        None \<Rightarrow> Inr False
      | Some d \<Rightarrow>
          if tokenType = TokenTypeAPI then Inr (CheckAPITokenRevoked tokenID d)
          else if tokenType = TokenTypeBootstrap then Inr (CheckBootstrapTokenRevoked tokenID d)
          else Inl (''unknown token type: '' @ tokenType))"

definition UpdateAPITokenLastUsed :: "timestamp \<Rightarrow> string \<Rightarrow> db \<Rightarrow> db" where
  "UpdateAPITokenLastUsed now i d =
     d\<lparr>db_api_tokens := update_where (\<lambda>t. at_TokenID t = i) (\<lambda>t. t\<lparr>at_LastUsedAt := Some now\<rparr>) (db_api_tokens d)\<rparr>"

text \<open>\<open>parse tok\<close> is \<^verbatim>\<open>ValidateToken(tok, secret)\<close>. The update of \<^verbatim>\<open>last_used_at\<close> runs in the background.\<close>

definition identityFromBearerToken ::
  "(string \<Rightarrow> TokenClaims option) \<Rightarrow> timestamp \<Rightarrow> db option \<Rightarrow> string \<Rightarrow> auth_error + Identity" where
  "identityFromBearerToken parse goNow querier tokenString =
     (case parse tokenString of
        None \<Rightarrow> Inl InvalidToken
      | Some claims \<Rightarrow>
          if goNow > tc_ExpiresAt claims then Inl TokenExpired
          else case isTokenRevoked querier (tc_ID claims) (tc_TokenType claims) of
              Inl e \<Rightarrow> Inl (RevocationCheck e)
            | Inr True \<Rightarrow> Inl TokenRevoked
            | Inr False \<Rightarrow> Inr \<lparr>id_Role = tc_Role claims, id_CommonName = tc_ID claims, id_Serial = [], id_TokenID = tc_ID claims\<rparr>)"

record http_request =
  rq_Authorization :: string
  rq_IsGet :: bool
  rq_QueryTokenAllowed :: bool
  rq_AuthToken :: string
  rq_PeerCertificate :: "certificate option"

record auth_options =
  ao_AllowInsecure :: bool
  ao_DefaultRole :: role

definition identityFromRequest ::
  "auth_options \<Rightarrow> (string \<Rightarrow> TokenClaims option) \<Rightarrow> timestamp \<Rightarrow> db option \<Rightarrow> http_request \<Rightarrow> auth_error + Identity" where
  "identityFromRequest opts parse goNow querier r =
     (let header = rq_Authorization r; queryToken = TrimSpace (rq_AuthToken r) in
      if header \<noteq> [] \<and> HasPrefix header ''Bearer ''
        then identityFromBearerToken parse goNow querier (TrimPrefix header ''Bearer '')
      else if rq_IsGet r \<and> rq_QueryTokenAllowed r \<and> queryToken \<noteq> []
        then identityFromBearerToken parse goNow querier queryToken
      else case rq_PeerCertificate r of
          None \<Rightarrow>
            if ao_AllowInsecure opts
            then Inr \<lparr>id_Role = (if ao_DefaultRole opts = [] then RoleControlPlane else ao_DefaultRole opts),
                   id_CommonName = [], id_Serial = [], id_TokenID = []\<rparr>
            else Inl NoCredentials
        | Some cert \<Rightarrow>
            if extractRole cert = [] then Inl MissingRoleClaim
            else Inr \<lparr>id_Role = extractRole cert, id_CommonName = cert_CommonName cert,
                   id_Serial = cert_SerialNumber cert, id_TokenID = []\<rparr>)"

text \<open>The request goes on with an identity, or is answered with a status.\<close>

definition Middleware ::
  "auth_options \<Rightarrow> (string \<Rightarrow> TokenClaims option) \<Rightarrow> timestamp \<Rightarrow> db option \<Rightarrow> role list \<Rightarrow> http_request \<Rightarrow> nat + Identity" where
  "Middleware opts parse goNow querier allowed r =
     (let normalized = expandRoles (allowlist allowed) in
      case identityFromRequest opts parse goNow querier r of
        Inl _ \<Rightarrow> Inl 401
      | Inr identity \<Rightarrow>
          if normalized \<noteq> [] \<and> id_Role identity \<notin> set normalized then Inl 403 else Inr identity)"

section \<open>Routes\<close>

text \<open>
  The patterns of \<^verbatim>\<open>RegisterRoutes\<close> in the order they are mounted, whether the route accepts a
  token in the query, and its allowlist. \<^verbatim>\<open>handle\<close> installs the middleware only when the
  allowlist is not empty.
\<close>

definition routes :: "(string \<times> bool \<times> role list) list" where
  "routes = [
    (''/health'', False, []),
    (''GET /healthz'', False, []),
    (''GET /readyz'', False, []),
    (''GET /v1/config/env'', False, [RoleCLIAdmin]),
    (''GET /v1/config/env/{key}'', False, [RoleCLIAdmin]),
    (''PUT /v1/config/env/{key}'', False, [RoleCLIAdmin]),
    (''DELETE /v1/config/env/{key}'', False, [RoleCLIAdmin]),
    (''POST /v1/tokens'', False, [RoleCLIAdmin]),
    (''GET /v1/tokens'', False, [RoleCLIAdmin]),
    (''DELETE /v1/tokens/{id}'', False, [RoleCLIAdmin]),
    (''POST /v1/bootstrap/tokens'', False, [RoleControlPlane, RoleCLIAdmin]),
    (''POST /v1/pki/bootstrap'', False, [RoleWorker]),
    (''POST /v1/runs'', False, [RoleControlPlane]),
    (''POST /v1/migs'', False, [RoleControlPlane]),
    (''GET /v1/migs'', False, [RoleControlPlane]),
    (''DELETE /v1/migs/{mig_ref}'', False, [RoleControlPlane]),
    (''PATCH /v1/migs/{mig_ref}/archive'', False, [RoleControlPlane]),
    (''PATCH /v1/migs/{mig_ref}/unarchive'', False, [RoleControlPlane]),
    (''POST /v1/migs/{mig_ref}/specs'', False, [RoleControlPlane]),
    (''GET /v1/migs/{mig_ref}/specs/latest'', True, [RoleControlPlane]),
    (''POST /v1/migs/{mig_id}/repos'', False, [RoleControlPlane]),
    (''GET /v1/migs/{mig_id}/repos'', False, [RoleControlPlane]),
    (''DELETE /v1/migs/{mig_id}/repos/{repo_id}'', False, [RoleControlPlane]),
    (''POST /v1/migs/{mig_id}/repos/bulk'', False, [RoleControlPlane]),
    (''POST /v1/migs/{mig_id}/waves'', False, [RoleControlPlane]),
    (''POST /v1/migs/{mig_id}/pull'', False, [RoleControlPlane]),
    (''GET /v1/artifacts'', False, [RoleControlPlane]),
    (''GET /v1/artifacts/{id}'', False, [RoleControlPlane, RoleWorker]),
    (''GET /v1/runs'', False, [RoleControlPlane]),
    (''GET /v1/runs/{run_id}'', False, [RoleControlPlane]),
    (''GET /v1/runs/{run_id}/status'', False, [RoleControlPlane]),
    (''POST /v1/runs/{run_id}/cancel'', False, [RoleControlPlane]),
    (''POST /v1/runs/{run_id}/restart'', False, [RoleControlPlane]),
    (''POST /v1/runs/{run_id}/pull'', False, [RoleControlPlane]),
    (''GET /v1/runs/{run_id}/snapshot'', False, [RoleWorker]),
    (''GET /v1/runs/{run_id}/diffs'', True, [RoleControlPlane, RoleWorker]),
    (''GET /v1/runs/{run_id}/logs'', True, [RoleControlPlane]),
    (''GET /v1/runs/{run_id}/artifacts'', False, [RoleControlPlane]),
    (''GET /v1/runs/{run_id}/jobs'', False, [RoleControlPlane]),
    (''GET /v1/runs/{run_id}/sbom/{view}'', False, [RoleControlPlane]),
    (''GET /v1/waves/{wave_id}'', False, [RoleControlPlane]),
    (''GET /v1/waves/{wave_id}/runs'', False, [RoleControlPlane]),
    (''POST /v1/waves/{wave_id}/cancel'', False, [RoleControlPlane]),
    (''POST /v1/repos/resolve'', False, [RoleControlPlane]),
    (''GET /v1/repos'', False, [RoleControlPlane]),
    (''GET /v1/repos/{repo_id}/runs'', False, [RoleControlPlane]),
    (''GET /v1/nodes'', False, [RoleControlPlane]),
    (''POST /v1/nodes/{id}/drain'', False, [RoleControlPlane]),
    (''POST /v1/nodes/{id}/undrain'', False, [RoleControlPlane]),
    (''POST /v1/nodes/{id}/heartbeat'', False, [RoleWorker]),
    (''POST /v1/nodes/{id}/claim'', False, [RoleWorker]),
    (''POST /v1/nodes/{id}/events'', False, [RoleWorker]),
    (''POST /v1/nodes/{id}/logs'', False, [RoleWorker]),
    (''POST /v1/nodes/{id}/diagnostics'', False, [RoleWorker, RoleControlPlane]),
    (''GET /v1/nodes/{id}/diagnostics'', False, [RoleControlPlane]),
    (''POST /v1/nodes/{id}/daemon-logs'', False, [RoleWorker, RoleControlPlane]),
    (''GET /v1/nodes/{id}/daemon-logs'', False, [RoleControlPlane]),
    (''HEAD /v1/spec-bundles'', False, [RoleControlPlane]),
    (''POST /v1/spec-bundles'', False, [RoleControlPlane]),
    (''GET /v1/spec-bundles/{id}'', False, [RoleWorker, RoleControlPlane]),
    (''GET /v1/specs'', False, [RoleControlPlane]),
    (''POST /v1/runs/{run_id}/jobs/{job_id}/artifact'', False, [RoleWorker]),
    (''POST /v1/runs/{run_id}/jobs/{job_id}/diff'', False, [RoleWorker]),
    (''GET /v1/jobs/{job_id}/sbom'', True, [RoleControlPlane]),
    (''GET /v1/jobs/{job_id}/cves'', True, [RoleControlPlane]),
    (''GET /v1/jobs/{job_id}/sbom-diff'', True, [RoleControlPlane]),
    (''GET /v1/jobs'', False, [RoleControlPlane]),
    (''GET /v1/jobs/{job_id}/logs'', True, [RoleControlPlane]),
    (''POST /v1/jobs/{job_id}/logs'', False, [RoleWorker]),
    (''POST /v1/jobs/{job_id}/complete'', False, [RoleWorker]),
    (''GET /v1/jobs/{job_id}/status'', False, [RoleWorker, RoleControlPlane]),
    (''POST /v1/jobs/{job_id}/image'', False, [RoleWorker]),
    (''POST /v1/jobs/{job_id}/sbom'', False, [RoleWorker])]"

text \<open>What \<^verbatim>\<open>Server.handle\<close> wraps around the handler of a pattern: \<open>None\<close> is a handler called with no identity.\<close>

definition admit ::
  "auth_options \<Rightarrow> (string \<Rightarrow> TokenClaims option) \<Rightarrow> timestamp \<Rightarrow> db option \<Rightarrow> string \<Rightarrow> http_request \<Rightarrow> nat + Identity option" where
  "admit opts parse goNow querier pattern r =
     (case map_of routes pattern of
        None \<Rightarrow> Inl 404
      | Some (allowQuery, roles) \<Rightarrow>
          if roles = [] then Inr None
          else case Middleware opts parse goNow querier roles (r\<lparr>rq_QueryTokenAllowed := allowQuery\<rparr>) of
              Inl code \<Rightarrow> Inl code
            | Inr identity \<Rightarrow> Inr (Some identity))"

section \<open>Token tables\<close>

definition InsertAPIToken :: "api_token \<Rightarrow> db \<Rightarrow> store_error + db" where
  "InsertAPIToken t d =
     (if find_by at_TokenHash (at_TokenHash t) (db_api_tokens d) \<noteq> None
        then Inl (ErrUniqueViolation ''api_tokens_token_hash_key'')
      else if find_by at_TokenID (at_TokenID t) (db_api_tokens d) \<noteq> None
        then Inl (ErrUniqueViolation ''api_tokens_token_id_key'')
      else Inr (d\<lparr>db_api_tokens := db_api_tokens d @ [t]\<rparr>))"

definition RevokeAPIToken :: "timestamp \<Rightarrow> string \<Rightarrow> db \<Rightarrow> db" where
  "RevokeAPIToken now i d =
     d\<lparr>db_api_tokens := update_where (\<lambda>t. at_TokenID t = i) (\<lambda>t. t\<lparr>at_RevokedAt := Some now\<rparr>) (db_api_tokens d)\<rparr>"

definition InsertBootstrapToken :: "bootstrap_token \<Rightarrow> db \<Rightarrow> store_error + db" where
  "InsertBootstrapToken t d =
     (if find_by bt_TokenHash (bt_TokenHash t) (db_bootstrap_tokens d) \<noteq> None
        then Inl (ErrUniqueViolation ''bootstrap_tokens_token_hash_key'')
      else if find_by bt_TokenID (bt_TokenID t) (db_bootstrap_tokens d) \<noteq> None
        then Inl (ErrUniqueViolation ''bootstrap_tokens_token_id_key'')
      else Inr (d\<lparr>db_bootstrap_tokens := db_bootstrap_tokens d @ [t]\<rparr>))"

definition GetBootstrapToken :: "string \<Rightarrow> db \<Rightarrow> store_error + bootstrap_token" where
  "GetBootstrapToken i d = get_row bt_TokenID i (db_bootstrap_tokens d)"

section \<open>Enrollment\<close>

datatype enroll_error = ErrBootstrapTokenInvalid | ErrBootstrapNodeExists | EnrollStore store_error

record CompleteBootstrapEnrollmentParams =
  be_TokenID :: string
  be_NodeID :: node_id
  be_CertSerial :: string
  be_CertFingerprint :: string
  be_CertNotBefore :: timestamp
  be_CertNotAfter :: timestamp

definition isNodeIdentityUniqueViolation :: "store_error \<Rightarrow> bool" where
  "isNodeIdentityUniqueViolation e \<longleftrightarrow>
     e = ErrUniqueViolation ''nodes_pkey'' \<or> e = ErrUniqueViolation ''nodes_name_key''"

definition bootstrap_node :: "node_id \<Rightarrow> CreateNodeParams" where
  "bootstrap_node nodeID = \<lparr>cn_ID = nodeID, cn_Name = ''node-'' @ nodeID, cn_IpAddress = ''0.0.0.0'',
     cn_Version = None, cn_Concurrency = 1\<rparr>"

definition CompleteBootstrapEnrollment ::
  "timestamp \<Rightarrow> CompleteBootstrapEnrollmentParams \<Rightarrow> db \<Rightarrow> enroll_error + db" where
  "CompleteBootstrapEnrollment now arg d =
     (if be_TokenID arg = [] \<or> IsEmpty (be_NodeID arg) then Inl ErrBootstrapTokenInvalid
      else case find_by bt_TokenID (be_TokenID arg) (db_bootstrap_tokens d) of
          None \<Rightarrow> Inl ErrBootstrapTokenInvalid
        | Some t \<Rightarrow>
            if bt_NodeID t \<noteq> Some (be_NodeID arg) \<or> bt_UsedAt t \<noteq> None \<or> bt_RevokedAt t \<noteq> None
              then Inl ErrBootstrapTokenInvalid
            else if find_by node_ID (be_NodeID arg) (db_nodes d) \<noteq> None then Inl ErrBootstrapNodeExists
            else case CreateNode now (bootstrap_node (be_NodeID arg)) d of
                Inl e \<Rightarrow> Inl (if isNodeIdentityUniqueViolation e then ErrBootstrapNodeExists else EnrollStore e)
              | Inr (_, d1) \<Rightarrow>
                  let d2 = UpdateNodeCertMetadata (be_NodeID arg) (Some (be_CertSerial arg)) (Some (be_CertFingerprint arg))
                        (Some (be_CertNotBefore arg)) (Some (be_CertNotAfter arg)) d1
                  in Inr (d2\<lparr>db_bootstrap_tokens := update_where (\<lambda>t. bt_TokenID t = be_TokenID arg)
                        (\<lambda>t. t\<lparr>bt_UsedAt := Some now, bt_CertIssuedAt := Some now\<rparr>) (db_bootstrap_tokens d2)\<rparr>))"

section \<open>Handlers\<close>

text \<open>
  \<open>parse\<close> and \<open>sign\<close> are the JWT library with the server's secret; \<open>tokenID\<close> is the fresh random id and
  \<open>hash\<close> the hex SHA-256.
\<close>

record CreateBootstrapTokenRequest =
  cb_NodeID :: node_id
  cb_ExpiresInMinutes :: int

text \<open>\<^verbatim>\<open>time.Duration(n) * time.Minute\<close>: 64-bit nanoseconds that wrap around, here in microseconds.\<close>

definition minutes_us :: "int \<Rightarrow> int" where
  "minutes_us n = sint (word_of_int (n * 60000000000) :: 64 word) div 1000"

definition createBootstrapTokenHandler ::
  "(string \<Rightarrow> TokenClaims option) \<Rightarrow> (string \<Rightarrow> TokenClaims \<Rightarrow> string) \<Rightarrow> (string \<Rightarrow> string) \<Rightarrow> string \<Rightarrow> timestamp \<Rightarrow> string \<Rightarrow>
   Identity option \<Rightarrow> nat + CreateBootstrapTokenRequest \<Rightarrow> db \<Rightarrow> nat \<times> string option \<times> db" where
  "createBootstrapTokenHandler parse sign hash secret goNow tokenID identity body d =
     (case body of
        Inl status \<Rightarrow> (status, None, d)
      | Inr req \<Rightarrow>
          (let nodeID = cb_NodeID req;
               minutes = (if cb_ExpiresInMinutes req \<le> 0 then 15 else cb_ExpiresInMinutes req);
               expiresAt = goNow + minutes_us minutes
           in case GetNode nodeID d of
                Inr _ \<Rightarrow> (409, None, d)
              | Inl _ \<Rightarrow>
                  (case GenerateBootstrapToken sign goNow tokenID secret nodeID expiresAt of
                     None \<Rightarrow> (500, None, d)
                   | Some tok \<Rightarrow>
                       (case parse tok of
                          None \<Rightarrow> (500, None, d)
                        | Some claims \<Rightarrow>
                            (case InsertBootstrapToken \<lparr>bt_TokenHash = hash tok, bt_TokenID = tc_ID claims,
                                 bt_NodeID = Some nodeID, bt_IssuedAt = goNow, bt_ExpiresAt = Some expiresAt,
                                 bt_UsedAt = None, bt_CertIssuedAt = None, bt_RevokedAt = None,
                                 bt_IssuedBy = map_option id_CommonName identity\<rparr> d of
                               Inl _ \<Rightarrow> (500, None, d)
                             | Inr d' \<Rightarrow> (200, Some tok, d'))))))"

definition validateBootstrapToken ::
  "(string \<Rightarrow> TokenClaims option) \<Rightarrow> timestamp \<Rightarrow> string \<Rightarrow> db \<Rightarrow> string + TokenClaims" where
  "validateBootstrapToken parse goNow header d =
     (if \<not> HasPrefix header ''Bearer '' then Inl ''missing or invalid Authorization header''
      else case parse (TrimPrefix header ''Bearer '') of
          None \<Rightarrow> Inl ''invalid token''
        | Some claims \<Rightarrow>
            if tc_TokenType claims \<noteq> TokenTypeBootstrap then Inl ''invalid token type: expected bootstrap token''
            else if goNow > tc_ExpiresAt claims then Inl ''token expired''
            else case GetBootstrapToken (tc_ID claims) d of
                Inl _ \<Rightarrow> Inl ''token not found or invalid''
              | Inr t \<Rightarrow>
                  if bt_RevokedAt t \<noteq> None then Inl ''token revoked''
                  else if bt_UsedAt t \<noteq> None then Inl ''token already used''
                  else if bt_NodeID t \<noteq> Some (tc_NodeID claims) then Inl ''token not found or invalid''
                  else Inr claims)"

datatype ca_state = CANotConfigured | CABroken | CALoaded

record signed_cert =
  sc_Serial :: string
  sc_Fingerprint :: string
  sc_NotBefore :: timestamp
  sc_NotAfter :: timestamp

text \<open>
  \<open>csrCN\<close> is the PEM, X.509 and signature check of the request with the common name it carries;
  \<open>signCSR\<close> the certificate authority; \<open>workerSecret\<close> the variable \<^verbatim>\<open>PLOY_AUTH_SECRET\<close>.
\<close>

definition bootstrapCertificateHandler ::
  "(string \<Rightarrow> TokenClaims option) \<Rightarrow> (string \<Rightarrow> TokenClaims \<Rightarrow> string) \<Rightarrow> (string \<Rightarrow> string option) \<Rightarrow> ca_state \<Rightarrow>
   (string \<Rightarrow> signed_cert option) \<Rightarrow> string \<Rightarrow> timestamp \<Rightarrow> timestamp \<Rightarrow> timestamp \<Rightarrow> string \<Rightarrow> string \<Rightarrow> nat + string \<Rightarrow> db \<Rightarrow>
   nat \<times> string option \<times> db" where
  "bootstrapCertificateHandler parse sign csrCN ca signCSR workerSecret now goNow yearLater tokenID header body d =
     (case validateBootstrapToken parse goNow header d of
        Inl _ \<Rightarrow> (401, None, d)
      | Inr claims \<Rightarrow>
          (case body of
             Inl status \<Rightarrow> (status, None, d)
           | Inr csr \<Rightarrow>
               if TrimSpace csr = [] \<or> map_option TrimSpace (csrCN csr) \<noteq> Some (''node:'' @ tc_NodeID claims)
               then (400, None, d)
               else case ca of
                   CANotConfigured \<Rightarrow> (503, None, d)
                 | CABroken \<Rightarrow> (500, None, d)
                 | CALoaded \<Rightarrow>
                     (case signCSR csr of
                        None \<Rightarrow> (400, None, d)
                      | Some cert \<Rightarrow>
                          if workerSecret = [] then (500, None, d)
                          else case CompleteBootstrapEnrollment now \<lparr>be_TokenID = tc_ID claims, be_NodeID = tc_NodeID claims,
                                be_CertSerial = sc_Serial cert, be_CertFingerprint = sc_Fingerprint cert,
                                be_CertNotBefore = sc_NotBefore cert, be_CertNotAfter = sc_NotAfter cert\<rparr> d of
                              Inl ErrBootstrapTokenInvalid \<Rightarrow> (401, None, d)
                            | Inl ErrBootstrapNodeExists \<Rightarrow> (409, None, d)
                            | Inl (EnrollStore _) \<Rightarrow> (500, None, d)
                            | Inr d' \<Rightarrow> (200, Some (GenerateAPIToken sign goNow tokenID workerSecret RoleWorker yearLater), d'))))"

record CreateAPITokenRequest =
  ca_Role :: string
  ca_Username :: string
  ca_Description :: string
  ca_ExpiresInDays :: int

definition stringPtrOrNil :: "string \<Rightarrow> string option" where
  "stringPtrOrNil v = (if TrimSpace v = [] then None else Some (TrimSpace v))"

text \<open>\<open>addDays\<close> is \<^verbatim>\<open>time.Time.AddDate(0, 0, n)\<close> in the server's time zone.\<close>

definition createAPITokenHandler ::
  "(string \<Rightarrow> TokenClaims option) \<Rightarrow> (string \<Rightarrow> TokenClaims \<Rightarrow> string) \<Rightarrow> (string \<Rightarrow> string) \<Rightarrow> (timestamp \<Rightarrow> int \<Rightarrow> timestamp) \<Rightarrow>
   string \<Rightarrow> timestamp \<Rightarrow> timestamp \<Rightarrow> string \<Rightarrow> Identity option \<Rightarrow> nat + CreateAPITokenRequest \<Rightarrow> db \<Rightarrow> nat \<times> string option \<times> db" where
  "createAPITokenHandler parse sign hash addDays secret now goNow tokenID identity body d =
     (case body of
        Inl status \<Rightarrow> (status, None, d)
      | Inr req \<Rightarrow>
          (let r = NormalizeRole (ca_Role req);
               username = TrimSpace (ca_Username req);
               days = (if ca_ExpiresInDays req \<le> 0 then 365 else ca_ExpiresInDays req);
               expiresAt = addDays goNow days;
               tok = GenerateAPIToken sign goNow tokenID secret r expiresAt
           in if r = [] then (400, None, d)
              else if r = RoleControlPlane \<and> username = [] then (400, None, d)
              else case parse tok of
                  None \<Rightarrow> (500, None, d)
                | Some claims \<Rightarrow>
                    (case InsertAPIToken \<lparr>at_TokenHash = hash tok, at_TokenID = tc_ID claims, at_Role = r,
                         at_Username = stringPtrOrNil username,
                         at_Description = (if ca_Description req = [] then None else Some (ca_Description req)),
                         at_IssuedAt = goNow, at_ExpiresAt = Some expiresAt, at_LastUsedAt = None, at_RevokedAt = None,
                         at_CreatedBy = map_option id_CommonName identity, at_CreatedAt = now\<rparr> d of
                       Inl _ \<Rightarrow> (500, None, d)
                     | Inr d' \<Rightarrow> (200, Some tok, d'))))"

definition revokeAPITokenHandler :: "timestamp \<Rightarrow> string option \<Rightarrow> db \<Rightarrow> nat \<times> db" where
  "revokeAPITokenHandler now pathID d =
     (case pathID of None \<Rightarrow> (400, d) | Some tokenID \<Rightarrow> (200, RevokeAPIToken now tokenID d))"

section \<open>Lemmas\<close>

lemma expandRoles_eq:
  "expandRoles rs = (if RoleControlPlane \<in> set rs then RoleCLIAdmin # rs else rs)"
  by (simp add: expandRoles_def roleIncludes_def)

text \<open>What an allowlist admits.\<close>

definition allows :: "role list \<Rightarrow> role \<Rightarrow> bool" where
  "allows roles r \<longleftrightarrow> r \<in> set roles \<or> (r = RoleCLIAdmin \<and> RoleControlPlane \<in> set roles)"

lemma Middleware_Inr:
  assumes "[] \<notin> set roles" "roles \<noteq> []"
  shows "Middleware opts parse goNow q roles r = Inr identity \<longleftrightarrow>
    identityFromRequest opts parse goNow q r = Inr identity \<and> allows roles (id_Role identity)"
proof -
  have "filter (\<lambda>r. r \<noteq> []) roles = roles" using assms(1) by (intro filter_True) auto
  then show ?thesis using assms(2)
    by (auto simp: Middleware_def allowlist_def expandRoles_eq allows_def Let_def split: sum.splits if_splits)
qed

text \<open>The allowlists hold no empty role.\<close>

lemma routes_roles: "list_all (\<lambda>(p, q, rs). [] \<notin> set rs) routes"
  by (simp add: routes_def role_defs)

lemma admit_Inr:
  assumes m: "map_of routes p = Some (q, rs)" "rs \<noteq> []"
  shows "admit opts parse goNow querier p r = Inr x \<longleftrightarrow>
    (\<exists>identity. x = Some identity \<and> allows rs (id_Role identity) \<and>
       identityFromRequest opts parse goNow querier (r\<lparr>rq_QueryTokenAllowed := q\<rparr>) = Inr identity)"
proof -
  have "(p, q, rs) \<in> set routes" using m(1) by (rule map_of_SomeD)
  then have "[] \<notin> set rs" using routes_roles by (auto simp: list_all_iff)
  note mw = Middleware_Inr [OF this m(2), where r = "r\<lparr>rq_QueryTokenAllowed := q\<rparr>"]
  show ?thesis
  proof (cases "Middleware opts parse goNow querier rs (r\<lparr>rq_QueryTokenAllowed := q\<rparr>)")
    case (Inl code)
    then show ?thesis using m mw [of opts parse goNow querier] by (auto simp: admit_def)
  next
    case (Inr identity)
    then show ?thesis using m mw [of opts parse goNow querier identity] by (auto simp: admit_def)
  qed
qed

lemma CreateNode_Inr:
  assumes "CreateNode now arg d = Inr (n, d')"
  shows "n = new_node now arg" "d' = d\<lparr>db_nodes := db_nodes d @ [new_node now arg]\<rparr>"
    "cn_ID arg \<notin> node_ID ` set (db_nodes d)" "cn_IpAddress arg \<notin> node_IpAddress ` set (db_nodes d)"
  using assms by (auto simp: CreateNode_def find_by_None_iff split: if_splits)

definition certify :: "CompleteBootstrapEnrollmentParams \<Rightarrow> node \<Rightarrow> node" where
  "certify arg n = n\<lparr>node_CertSerial := Some (be_CertSerial arg), node_CertFingerprint := Some (be_CertFingerprint arg),
     node_CertNotBefore := Some (be_CertNotBefore arg), node_CertNotAfter := Some (be_CertNotAfter arg)\<rparr>"

definition consume :: "timestamp \<Rightarrow> bootstrap_token \<Rightarrow> bootstrap_token" where
  "consume now t = t\<lparr>bt_UsedAt := Some now, bt_CertIssuedAt := Some now\<rparr>"

lemma update_where_absent: "(\<And>x. x \<in> set t \<Longrightarrow> \<not> P x) \<Longrightarrow> update_where P f t = t"
  by (induction t) (auto simp: update_where_def)

lemma enrollment_Inr:
  assumes "CompleteBootstrapEnrollment now arg d = Inr d'"
  obtains t where "find_by bt_TokenID (be_TokenID arg) (db_bootstrap_tokens d) = Some t"
    "bt_NodeID t = Some (be_NodeID arg)" "bt_UsedAt t = None" "bt_RevokedAt t = None"
    "be_NodeID arg \<notin> node_ID ` set (db_nodes d)" "''0.0.0.0'' \<notin> node_IpAddress ` set (db_nodes d)" "\<not> IsEmpty (be_NodeID arg)"
    "d' = d\<lparr>db_nodes := db_nodes d @ [certify arg (new_node now (bootstrap_node (be_NodeID arg)))],
        db_bootstrap_tokens := update_where (\<lambda>t. bt_TokenID t = be_TokenID arg) (consume now) (db_bootstrap_tokens d)\<rparr>"
proof -
  from assms obtain t n d1 where t: "find_by bt_TokenID (be_TokenID arg) (db_bootstrap_tokens d) = Some t"
      "bt_NodeID t = Some (be_NodeID arg)" "bt_UsedAt t = None" "bt_RevokedAt t = None" "\<not> IsEmpty (be_NodeID arg)"
    and c: "CreateNode now (bootstrap_node (be_NodeID arg)) d = Inr (n, d1)"
    and d': "d' = (let d2 = UpdateNodeCertMetadata (be_NodeID arg) (Some (be_CertSerial arg)) (Some (be_CertFingerprint arg))
            (Some (be_CertNotBefore arg)) (Some (be_CertNotAfter arg)) d1
          in d2\<lparr>db_bootstrap_tokens := update_where (\<lambda>t. bt_TokenID t = be_TokenID arg)
            (\<lambda>t. t\<lparr>bt_UsedAt := Some now, bt_CertIssuedAt := Some now\<rparr>) (db_bootstrap_tokens d2)\<rparr>)"
    by (auto simp: CompleteBootstrapEnrollment_def Let_def split: if_splits option.splits sum.splits prod.splits)
  note C = CreateNode_Inr [OF c]
  have fresh: "be_NodeID arg \<notin> node_ID ` set (db_nodes d)" "''0.0.0.0'' \<notin> node_IpAddress ` set (db_nodes d)"
    using C(3,4) by (simp_all add: bootstrap_node_def)
  have upd: "update_where (\<lambda>n. node_ID n = be_NodeID arg) f (db_nodes d @ [new_node now (bootstrap_node (be_NodeID arg))])
      = db_nodes d @ [f (new_node now (bootstrap_node (be_NodeID arg)))]" for f
  proof -
    have "update_where (\<lambda>n. node_ID n = be_NodeID arg) f (db_nodes d) = db_nodes d"
      using fresh(1) by (intro update_where_absent) (metis imageI)
    then show ?thesis by (simp add: update_where_def new_node_def bootstrap_node_def)
  qed
  show thesis
    by (rule that [OF t(1-4) fresh t(5)])
      (simp add: d' C(2) UpdateNodeCertMetadata_def upd Let_def consume_def [abs_def] certify_def)
qed

lemma enrollment_inv:
  assumes inv: "db_inv d" and c: "CompleteBootstrapEnrollment now arg d = Inr d'"
  shows "db_inv d'"
proof -
  obtain t where fresh: "be_NodeID arg \<notin> node_ID ` set (db_nodes d)" "''0.0.0.0'' \<notin> node_IpAddress ` set (db_nodes d)"
    and d': "d' = d\<lparr>db_nodes := db_nodes d @ [certify arg (new_node now (bootstrap_node (be_NodeID arg)))],
        db_bootstrap_tokens := update_where (\<lambda>t. bt_TokenID t = be_TokenID arg) (consume now) (db_bootstrap_tokens d)\<rparr>"
    and t: "find_by bt_TokenID (be_TokenID arg) (db_bootstrap_tokens d) = Some t"
    using c by (rule enrollment_Inr)
  show ?thesis
  proof (rule db_inv_nodes [OF inv])
    show "distinct (map node_ID (db_nodes d'))"
      using fresh(1) db_inv_keys(4) [OF inv] by (simp add: d' certify_def new_node_def bootstrap_node_def)
  qed (auto simp: d')
qed

lemma find_by_update_row:
  assumes "find_by key k t = Some x" "\<And>y. key (f y) = key y"
  shows "find_by key k (update_where (\<lambda>y. key y = k) f t) = Some (f x)"
  using assms by (induction t) (auto simp: find_by_def update_where_def)

lemma list_ex_revoke:
  "list_ex (\<lambda>t. at_TokenID t = i \<and> at_RevokedAt t \<noteq> None)
     (update_where (\<lambda>t. at_TokenID t = k) (\<lambda>t. t\<lparr>at_RevokedAt := Some now\<rparr>) ts) \<longleftrightarrow>
   list_ex (\<lambda>t. at_TokenID t = i \<and> at_RevokedAt t \<noteq> None) ts \<or> (i = k \<and> find_by at_TokenID k ts \<noteq> None)"
  by (induction ts) (auto simp: update_where_def find_by_def)

lemma revoke_check:
  "CheckAPITokenRevoked i (RevokeAPIToken now k d) \<longleftrightarrow>
     CheckAPITokenRevoked i d \<or> (i = k \<and> find_by at_TokenID k (db_api_tokens d) \<noteq> None)"
  using list_ex_revoke [of i k now "db_api_tokens d"] by (simp add: CheckAPITokenRevoked_def RevokeAPIToken_def)

end
