(* ===== verification/Control_Plane.thy ===== *)
theory Control_Plane
  imports Claim Auth
begin

text \<open>
  The control plane as a transition system. A state is the database; a step is one committed
  transaction of the server: submit a wave, cancel or restart a run, cancel a wave, claim a job or give it back,
  complete a job, reconcile a wave, one cycle of the recovery task, a heartbeat, a drain request, an
  enrollment. Steps of any number of requests and nodes interleave in any order.

  Two of the steps are no transactions in the code. The reconciliation of a wave reads and then writes, and
  the recovery cycle is a sequence of statements; here each is one step, and \<^verbatim>\<open>Run_Properties\<close> states what an
  interleaving inside the reconciliation does.
\<close>

section \<open>Steps\<close>

text \<open>Before the first submission there is no wave, run or job.\<close>

definition cp_init :: "db \<Rightarrow> bool" where
  "cp_init d \<longleftrightarrow> db_jobs d = [] \<and> db_runs d = [] \<and> db_waves d = [] \<and> distinct (map node_ID (db_nodes d))"

inductive cp_step :: "db \<Rightarrow> db \<Rightarrow> bool" where
  submit: "CreateWaveWithRuns now newJobID wv plans d = Inr (res, d') \<Longrightarrow> \<forall>k i. \<not> IsEmpty (newJobID k i) \<Longrightarrow> cp_step d d'"
| cancel_run: "CancelRun now runID d = Inr d' \<Longrightarrow> cp_step d d'"
| cancel_wave: "CancelWave now waveID d = Inr d' \<Longrightarrow> cp_step d d'"
| restart: "RestartRun now nowText newID arg d = Inr (r, d') \<Longrightarrow> \<forall>i. \<not> IsEmpty (newID i) \<Longrightarrow> cp_step d d'"
| claim: "ClaimJob now locked nodeID d = Inr (j, d') \<Longrightarrow> cp_step d d'"
| unclaim: "UnclaimJob jobID nodeID d = Inr d' \<Longrightarrow> cp_step d d'"
| complete: "WithJobExecution StoreFailure (ci_JobID inp) (sp_ResumeCount (ci_StatsPayload inp)) (complete now goNow inp) d =
    Inr (ro, d') \<Longrightarrow> terminal_job_status (ci_Status inp) \<Longrightarrow> cp_step d d'"
| reconcile: "r \<in> set (db_runs d) \<Longrightarrow> length (db_runs d) < 2 ^ 31 \<Longrightarrow> reconcileWave now r d = (b, d') \<Longrightarrow> cp_step d d'"
| recover: "StaleJobRecoveryTask_Run now goNow staleAfter d = (fin, d') \<Longrightarrow> length (db_runs d) < 2 ^ 31 \<Longrightarrow> cp_step d d'"
| heartbeat: "UpdateNodeHeartbeat hb d = Inr d' \<Longrightarrow> cp_step d d'"
| drain: "UpdateNodeDrained drained nodeID expected d = Inr (n, d') \<Longrightarrow> cp_step d d'"
| enroll: "CompleteBootstrapEnrollment now be d = Inr d' \<Longrightarrow> cp_step d d'"

inductive_cases cp_stepE: "cp_step d d'"

section \<open>The invariant\<close>

lemma cp_init_inv: "cp_init d \<Longrightarrow> db_inv d"
  by (simp add: cp_init_def db_inv_def keys_ok_def refs_ok_def active_runs_ok_def)

lemma cp_step_inv: "cp_step d d' \<Longrightarrow> db_inv d \<Longrightarrow> db_inv d'"
proof (induction rule: cp_step.induct)
  case (complete inp now goNow d ro d')
  obtain j where "GetJob (ci_JobID inp) d = Inr j" "complete now goNow inp j d = Inr (ro, d')"
    using complete(1) by (rule WithJobExecution_Inr)
  then show ?case using complete_inv [OF complete(3) _ complete(2)] GetJob_Inr by blast
qed (blast intro: CreateWaveWithRuns_inv CancelRun_inv CancelWave_inv RestartRun_inv ClaimJob_inv UnclaimJob_inv
      reconcileWave_inv(1) StaleJobRecovery_spec(1) UpdateNodeHeartbeat_inv UpdateNodeDrained_inv enrollment_inv)+

interpretation cp: invariant_system cp_init cp_step db_inv
  by unfold_locales (auto intro: cp_init_inv cp_step_inv)

section \<open>What the invariant says of a job that is out\<close>

lemma ready_job_unique:
  assumes inv: "db_inv d" and j: "j \<in> set (db_jobs d)" "ready_status (job_Status j)"
    and k: "k \<in> set (db_jobs d)" "ready_status (job_Status k)" and same: "job_RunID k = job_RunID j"
  shows "k = j"
proof -
  obtain r pre post where foc: "job_focus d j r pre post" using inv j(1) by (rule job_focusE)
  obtain r' pre' post' where foc': "job_focus d k r' pre' post'" using inv k(1) by (rule job_focusE)
  note D = job_focusD [OF foc] and D' = job_focusD [OF foc']
  have act: "is_active_job j" "is_active_job k" using j(2) k(2) by (auto simp: status_sets)
  have "run_ID r' = run_ID r" using D(3) D'(3) same by metis
  then have "r' = r" by (rule distinct_key_eq [OF db_inv_keys(2) [OF inv] D'(2) D(2)])
  then have "job_Attempt k = job_Attempt j"
    using active_job_run(1) [OF inv foc act(1)] active_job_run(1) [OF inv foc' act(2)] by simp
  then have "k \<in> set (pre @ j # post)" using D(3,5) k(1) same by simp
  moreover have "\<not> ready_status (job_Status x)" if "x \<in> set pre \<union> set post" for x
    using that chain_ok_ready [OF D(4) j(2)] by (auto simp: ready_status_def)
  ultimately show ?thesis using k(2) by auto
qed

lemma active_job_context:
  assumes inv: "db_inv d" and j: "j \<in> set (db_jobs d)" "is_active_job j"
  obtains r w where "r \<in> set (db_runs d)" "run_ID r = job_RunID j" "run_Status r = RunStatusRunning"
    "run_Attempt r = job_Attempt j" "w \<in> set (db_waves d)" "wave_ID w = run_WaveID r" "wave_Status w = WaveStatusStarted"
proof -
  obtain r pre post where foc: "job_focus d j r pre post" using inv j(1) by (rule job_focusE)
  note D = job_focusD [OF foc] and act = active_job_run [OF inv foc j(2)]
  have "run_Status r \<noteq> RunStatusQueued" using db_inv_run_ok [OF inv D(2)] by (simp add: run_ok_def)
  then have run: "run_Status r = RunStatusRunning" using act(2) by (auto simp: is_active_run_def)
  have "run_WaveID r \<in> wave_ID ` set (db_waves d)" using inv D(2) by (simp add: db_inv_def refs_ok_def)
  then obtain w where w: "w \<in> set (db_waves d)" "wave_ID w = run_WaveID r" by (metis imageE)
  show thesis using that [OF D(2) _ run _ w] act(1) D(3) db_inv_active(2) [OF inv D(2) act(2) w] by simp
qed

text \<open>A run is never left running with nothing to run, and never ended with something running.\<close>

lemma run_has_work:
  assumes inv: "db_inv d" and r: "r \<in> set (db_runs d)"
  shows "run_Status r = RunStatusRunning \<longleftrightarrow> (\<exists>j \<in> set (db_jobs d). job_RunID j = run_ID r \<and> ready_status (job_Status j))"
proof
  assume "run_Status r = RunStatusRunning"
  then have "is_active_run r" by (simp add: is_active_run_def)
  then obtain j where j: "j \<in> set (db_jobs d)" "job_RunID j = run_ID r" "is_active_job j"
    using db_inv_run_ok [OF inv r] by (auto simp: run_ok_def)
  obtain r' pre post where foc: "job_focus d j r' pre post" using inv j(1) by (rule job_focusE)
  note D = job_focusD [OF foc]
  have "chain_shape (map job_Status (pre @ j # post))" using D(4) by (simp add: chain_ok_def)
  moreover have "job_Status j \<in> set (map job_Status (pre @ j # post))" by simp
  ultimately obtain t where "t \<in> set (map job_Status (pre @ j # post))" "ready_status t"
    using j(3) chain_shape_has_ready unfolding is_active_job_status by blast
  then obtain k where k: "k \<in> set (pre @ j # post)" "ready_status (job_Status k)" by auto
  then show "\<exists>j \<in> set (db_jobs d). job_RunID j = run_ID r \<and> ready_status (job_Status j)" using D(3,5) j(2) by metis
next
  assume "\<exists>j \<in> set (db_jobs d). job_RunID j = run_ID r \<and> ready_status (job_Status j)"
  then obtain j where j: "j \<in> set (db_jobs d)" "job_RunID j = run_ID r" "is_active_job j" by (auto simp: status_sets)
  obtain r' where r': "r' \<in> set (db_runs d)" "run_ID r' = job_RunID j" "run_Status r' = RunStatusRunning"
    using active_job_context [OF inv j(1,3)] by metis
  then have "run_ID r' = run_ID r" using j(2) by metis
  then have "r' = r" by (rule distinct_key_eq [OF db_inv_keys(2) [OF inv] r'(1) r])
  then show "run_Status r = RunStatusRunning" using r'(3) by simp
qed

section \<open>A cancelled wave stays cancelled\<close>

definition wave_cancelled :: "wave_id \<Rightarrow> db \<Rightarrow> bool" where
  "wave_cancelled i d \<longleftrightarrow> (\<exists>w \<in> set (db_waves d). wave_ID w = i \<and> wave_Status w = WaveStatusCancelled)"

lemma wave_cancelled_same: "db_waves d' = db_waves d \<Longrightarrow> wave_cancelled i d' = wave_cancelled i d"
  by (simp add: wave_cancelled_def)

lemma wave_cancelled_map:
  assumes "db_waves d' = map f (db_waves d)"
    "\<And>w. w \<in> set (db_waves d) \<Longrightarrow> wave_Status w = WaveStatusCancelled \<Longrightarrow> wave_ID (f w) = wave_ID w \<and> wave_Status (f w) = WaveStatusCancelled"
    "wave_cancelled i d"
  shows "wave_cancelled i d'"
  using assms unfolding wave_cancelled_def by (metis imageI list.set_map)

text \<open>Another wave than the cancelled one.\<close>

lemma wave_cancelled_update:
  assumes keys: "distinct (map wave_ID (db_waves d))" and w: "w \<in> set (db_waves d)" "wave_Status w \<noteq> WaveStatusCancelled"
    and c: "wave_cancelled i d"
  shows "wave_cancelled i (UpdateWaveStatus now (wave_ID w) s d)"
proof (rule wave_cancelled_map [OF _ _ c])
  show "db_waves (UpdateWaveStatus now (wave_ID w) s d) =
      map (\<lambda>v. if wave_ID v = wave_ID w then set_wave_status now s v else v) (db_waves d)"
    by (simp add: UpdateWaveStatus_def update_where_def)
  fix v
  assume "v \<in> set (db_waves d)" "wave_Status v = WaveStatusCancelled"
  moreover from this have "wave_ID v \<noteq> wave_ID w" using distinct_key_eq [OF keys _ w(1)] w(2) by metis
  ultimately show "wave_ID (if wave_ID v = wave_ID w then set_wave_status now s v else v) = wave_ID v \<and>
      wave_Status (if wave_ID v = wave_ID w then set_wave_status now s v else v) = WaveStatusCancelled" by simp
qed

lemma CreateWaveWithRuns_waves:
  assumes "CreateWaveWithRuns now newJobID wv plans d = Inr ((w, ms), d')"
  shows "db_waves d' = db_waves d @ [w]" "w = new_wave now wv"
proof -
  from assms obtain d1 where cw: "CreateWave now wv d = Inr (w, d1)"
      and it: "res_iter (materializeRun now newJobID wv) (enumerate 0 plans) ([], d1) = Inr (ms, d')"
    by (auto simp: CreateWaveWithRuns_def res_bind_Inr_iff split: if_splits)
  have "(\<lambda>(ms, e). db_waves e = db_waves d1) (ms, d')"
  proof (rule res_iter_invariant [OF it])
    fix x s t
    assume a: "(\<lambda>(ms, e). db_waves e = db_waves d1) s" "materializeRun now newJobID wv x s = Inr t"
    obtain k plan ms0 d0 ms1 d2 where xst: "x = (k, plan)" "s = (ms0, d0)" "t = (ms1, d2)" by (metis surj_pair)
    from a(2) obtain r e js where ins: "insertRun now wv plan d0 = Inr (r, e)"
        and cp: "createPlannedJobs (newJobID k) r (rp_Jobs plan) e = Inr (js, d2)"
      unfolding xst by (auto simp: materializeRun_def res_bind_Inr_iff split: prod.splits)
    have "db_waves e = db_waves d0" using ins by (rule insertRun_Inr) simp
    then show "(\<lambda>(ms, e). db_waves e = db_waves d1) t" using a(1) createPlannedJobs_Inr(3) [OF cp] by (simp add: xst)
  qed simp
  moreover have "db_waves d1 = db_waves d @ [w]" "w = new_wave now wv" using cw by (auto simp: CreateWave_def split: if_splits)
  ultimately show "db_waves d' = db_waves d @ [w]" "w = new_wave now wv" by simp_all
qed

lemma CancelRun_waves: "CancelRun now i d = Inr d' \<Longrightarrow> db_waves d' = db_waves d"
  by (auto simp: CancelRun_def res_bind_Inr_iff CancelActiveJobsByRun_def UpdateRunStatus_def Let_def split: if_splits)

lemma RestartRun_cancelled:
  assumes inv: "db_inv d" and rs: "RestartRun now nowText newJobID arg d = Inr (u, d')" and c: "wave_cancelled i d"
  shows "wave_cancelled i d'"
proof -
  obtain r w d1 where r: "r \<in> set (db_runs d)" "run_ID r = rr_RunID arg" "\<not> is_active_run r"
    and w: "w \<in> set (db_waves d)" "wave_Status w \<noteq> WaveStatusCancelled"
    and d1: "(if rr_FromFailed arg then resumeFailedJobs nowText r arg d
      else incrementRunAttempt now (rr_RunID arg) (rr_Stats arg)
        (snd (CancelActiveJobsByRunAttempt now (rr_RunID arg) (run_Attempt r) d))) = Inr d1"
    and d': "if rr_FromFailed arg then d' = revive now w d1
     else \<exists>js. createPlannedJobs newJobID u (rr_Jobs arg) (revive now w d1) = Inr (js, d')"
    using rs by (rule RestartRun_Inr)
  have waves1: "db_waves d1 = db_waves d"
  proof (cases "rr_FromFailed arg")
    case True
    then have "resumeFailedJobs nowText r arg d = Inr d1" using d1 by simp
    then show ?thesis by (rule resumeFailedJobs_Inr [OF inv r(1)])
  next
    case False
    then show ?thesis using d1
      by (auto simp: incrementRunAttempt_def CancelActiveJobsByRunAttempt_def res_bind_Inr_iff Let_def split: if_splits)
  qed
  have "wave_cancelled i (revive now w d1)"
  proof (cases "wave_Status w = WaveStatusFinished")
    case True
    have "wave_cancelled i (UpdateWaveStatus now (wave_ID w) WaveStatusStarted d1)"
      by (rule wave_cancelled_update) (use db_inv_keys(3) [OF inv] w c waves1 in \<open>simp_all add: wave_cancelled_def\<close>)
    then show ?thesis using True by (simp add: revive_def)
  qed (use c waves1 in \<open>simp add: revive_def wave_cancelled_def\<close>)
  moreover have "db_waves d' = db_waves (revive now w d1)"
    using d' by (auto split: if_splits dest: createPlannedJobs_Inr(3))
  ultimately show ?thesis by (simp add: wave_cancelled_def)
qed

text \<open>The reconciliation only finishes a wave it has found started.\<close>

lemma MaybeComplete_waves:
  assumes "MaybeCompleteRunIfAllReposTerminal now r d = Inr (b, d')"
  obtains "d' = d" | w where "w \<in> set (db_waves d)" "wave_ID w = run_WaveID r" "wave_Status w = WaveStatusStarted"
    "d' = UpdateWaveStatus now (run_WaveID r) WaveStatusFinished d"
proof (cases "MaybeCompleteRun_reads r d d = Inr True")
  case True
  then obtain w where "GetWave (run_WaveID r) d = Inr w" "\<not> IsTerminalWaveStatus (wave_Status w)"
    by (auto simp: MaybeCompleteRun_reads_def res_bind_Inr_iff split: if_splits)
  then show thesis using assms True that(2) [of w] GetWave_Inr
    by (auto simp: MaybeCompleteRunIfAllReposTerminal_def IsTerminalWaveStatus_iff)
next
  case False
  then show thesis using assms that(1) by (auto simp: MaybeCompleteRunIfAllReposTerminal_def res_bind_Inr_iff split: if_splits)
qed

lemma MaybeComplete_cancelled:
  assumes "MaybeCompleteRunIfAllReposTerminal now r d = Inr (b, d')" "distinct (map wave_ID (db_waves d))"
  shows "distinct (map wave_ID (db_waves d'))" "wave_cancelled i d \<Longrightarrow> wave_cancelled i d'"
proof -
  have ids: "map wave_ID (db_waves (UpdateWaveStatus now k s d)) = map wave_ID (db_waves d)" for k s
    by (simp add: UpdateWaveStatus_def update_where_def set_wave_status_def comp_def if_distrib cong: if_cong)
  from assms(1) show "distinct (map wave_ID (db_waves d'))" by (rule MaybeComplete_waves) (use assms(2) ids in simp_all)
  assume c: "wave_cancelled i d"
  from assms(1) show "wave_cancelled i d'"
  proof (rule MaybeComplete_waves)
    fix w
    assume "w \<in> set (db_waves d)" "wave_ID w = run_WaveID r" "wave_Status w = WaveStatusStarted"
      "d' = UpdateWaveStatus now (run_WaveID r) WaveStatusFinished d"
    then show ?thesis using wave_cancelled_update [OF assms(2) _ _ c, of w now WaveStatusFinished] by simp
  qed (use c in simp)
qed

lemma recoverRow_cancelled:
  assumes keys: "distinct (map wave_ID (db_waves d))" and c: "wave_cancelled i d"
    and row: "recoverRow now (k, a, n) (fin, d) = (fin', d')"
  shows "distinct (map wave_ID (db_waves d'))" "wave_cancelled i d'"
proof -
  define d1 where "d1 = snd (CancelActiveJobsByRunAttempt now k a d)"
  have w1: "db_waves d1 = db_waves d" by (simp add: d1_def CancelActiveJobsByRunAttempt_def Let_def)
  have same: "distinct (map wave_ID (db_waves e))" "wave_cancelled i e" if "db_waves e = db_waves d" for e
    using that keys c by (simp_all add: wave_cancelled_def)
  have "distinct (map wave_ID (db_waves d')) \<and> wave_cancelled i d'"
  proof (cases "MaybeUpdateRunStatus now k a d1")
    case (Inl e)
    then show ?thesis using row same [OF w1] by (simp add: recoverRow_def d1_def Let_def)
  next
    case (Inr bd)
    obtain b d2 where bd: "bd = (b, d2)" by (cases bd)
    have w2: "db_waves d2 = db_waves d"
      using Inr w1 by (auto simp: bd MaybeUpdateRunStatus_def res_bind_Inr_iff UpdateRunStatus_def split: option.splits if_splits)
    consider "d' = d2" | r b' where "MaybeCompleteRunIfAllReposTerminal now r d2 = Inr (b', d')"
      using row Inr by (auto simp: recoverRow_def d1_def [symmetric] bd Let_def split: if_splits sum.splits prod.splits)
    then show ?thesis
    proof cases
      case 2
      then show ?thesis using MaybeComplete_cancelled [OF 2 same(1) [OF w2]] same(2) [OF w2] by simp
    qed (use same [OF w2] in simp)
  qed
  then show "distinct (map wave_ID (db_waves d'))" "wave_cancelled i d'" by simp_all
qed

lemma recover_cancelled:
  assumes "distinct (map wave_ID (db_waves d))" "wave_cancelled i d"
    and "StaleJobRecoveryTask_Run now goNow staleAfter d = (fin, d')"
  shows "wave_cancelled i d'"
proof -
  have "wave_cancelled i d'" if "fold (recoverRow now) rows (f0, d0) = (fin, d')" "distinct (map wave_ID (db_waves d0))"
    "wave_cancelled i d0" for rows f0 d0
    using that
  proof (induction rows arbitrary: f0 d0)
    case (Cons row rows)
    obtain k a n where row: "row = (k, a, n)" by (cases row)
    obtain f1 d1 where s: "recoverRow now (k, a, n) (f0, d0) = (f1, d1)" by (cases "recoverRow now (k, a, n) (f0, d0)")
    show ?case using Cons.IH [of f1 d1] Cons.prems(1) recoverRow_cancelled [OF Cons.prems(2,3) s] s by (simp add: row)
  qed simp
  then show ?thesis using assms by (simp add: StaleJobRecoveryTask_Run_def)
qed

lemma complete_waves:
  assumes inv: "db_inv d" and j: "j \<in> set (db_jobs d)" and st: "terminal_job_status (ci_Status inp)"
    and c: "complete now goNow inp j d = Inr (ro, d')"
  shows "db_waves d' = db_waves d"
proof -
  obtain r pre post where foc: "job_focus d j r pre post" using inv j by (rule job_focusE)
  consider "ci_Status inp \<noteq> JobStatusSuccess" | "ci_Status inp = JobStatusSuccess" "post = []"
    | y ys where "ci_Status inp = JobStatusSuccess" "post = y # ys" by (cases post) auto
  then show ?thesis
  proof cases
    case 1
    show ?thesis by (rule complete_fail [OF inv foc st 1 c])
  next
    case 2
    show ?thesis by (rule complete_last [OF inv foc [unfolded 2(2)] 2(1) c])
  next
    case 3
    show ?thesis using complete_advance [OF inv foc [unfolded 3(2)] 3(1) c] by simp
  qed
qed

lemma UnclaimJob_waves: "UnclaimJob i n d = Inr d' \<Longrightarrow> db_waves d' = db_waves d"
  by (erule UnclaimJob_Inr) simp_all

lemma node_waves:
  "UpdateNodeHeartbeat hb d = Inr d' \<Longrightarrow> db_waves d' = db_waves d"
  "UpdateNodeDrained b i e d = Inr (n, d') \<Longrightarrow> db_waves d' = db_waves d"
  "CompleteBootstrapEnrollment now be d = Inr d' \<Longrightarrow> db_waves d' = db_waves d"
  by (auto simp: UpdateNodeHeartbeat_def split: option.splits if_splits elim: UpdateNodeDrained_Inr enrollment_Inr)

lemma cp_step_cancelled:
  assumes "cp_step d d'" and inv: "db_inv d" and c: "wave_cancelled i d"
  shows "wave_cancelled i d'"
  using assms
proof (cases rule: cp_step.cases)
  case (submit now newJobID wv plans res)
  obtain w ms where "res = (w, ms)" by (cases res)
  then have "db_waves d' = db_waves d @ [w]" using submit(1) CreateWaveWithRuns_waves(1) by metis
  then show ?thesis using c by (auto simp: wave_cancelled_def)
next
  case (cancel_wave now waveID)
  obtain w :: wave where "db_waves d' = map (\<lambda>v. if wave_ID v = waveID \<and> wave_Status w = WaveStatusStarted
       then set_wave_status now WaveStatusCancelled v else v) (db_waves d)"
    using cancel_wave by (rule CancelWave_tables)
  then show ?thesis by (rule wave_cancelled_map [OF _ _ c]) (simp add: set_wave_status_def)
next
  case (restart now nowText newID arg r)
  then show ?thesis using RestartRun_cancelled [OF inv _ c] by blast
next
  case (claim now locked nodeID j)
  have "db_waves d' = db_waves d" using claim by (rule ClaimJob_Inr) simp
  then show ?thesis using c by (simp add: wave_cancelled_def)
next
  case (complete inp now goNow ro)
  obtain j where "GetJob (ci_JobID inp) d = Inr j" "complete now goNow inp j d = Inr (ro, d')"
    using complete(1) by (rule WithJobExecution_Inr)
  then have "db_waves d' = db_waves d" using complete_waves [OF inv _ complete(2)] GetJob_Inr by blast
  then show ?thesis using c by (simp add: wave_cancelled_def)
next
  case (reconcile r now b)
  then show ?thesis using MaybeComplete_cancelled(2) [OF _ db_inv_keys(3) [OF inv] c] c
    by (cases "MaybeCompleteRunIfAllReposTerminal now r d") (auto simp: reconcileWave_def)
next
  case (recover now goNow staleAfter fin)
  then show ?thesis using recover_cancelled [OF db_inv_keys(3) [OF inv] c] by blast
qed (use c in \<open>simp_all add: wave_cancelled_def CancelRun_waves UnclaimJob_waves node_waves\<close>)

lemma cp_steps_cancelled: "cp_step\<^sup>*\<^sup>* d d' \<Longrightarrow> db_inv d \<Longrightarrow> wave_cancelled i d \<Longrightarrow> wave_cancelled i d'"
  by (rule cp.steps_stable [where Q = "wave_cancelled i"]) (auto intro: cp_step_cancelled)

section \<open>Completions as steps\<close>

lemma reachable_steps: "step\<^sup>*\<^sup>* s t \<Longrightarrow> reachable init step s \<Longrightarrow> reachable init step t"
  by (induction rule: rtranclp_induct) (auto intro: reachable.step)

text \<open>The transaction of a completion and the reconciliation after it.\<close>

lemma Complete_parts:
  assumes inv: "db_inv d" and st: "terminal_job_status (ci_Status inp)" and small: "length (db_runs d) < 2 ^ 31"
    and c: "Complete now goNow now' inp d = Inr (b, d')" and j: "GetJob (ci_JobID inp) d = Inr j"
  obtains ro d1 where "complete now goNow inp j d = Inr (ro, d1)" "db_inv d'" "db_jobs d' = db_jobs d1" "db_runs d' = db_runs d1"
    "ro = None \<Longrightarrow> d' = d1"
proof -
  obtain j0 ro d1 where j0: "GetJob (ci_JobID inp) d = Inr j0" and cj: "complete now goNow inp j0 d = Inr (ro, d1)"
      and e: "(b, d') = (case ro of None \<Rightarrow> (False, d1) | Some q \<Rightarrow> reconcileWave now' q d1)"
    using c by (rule Complete_Inr)
  have eq: "j0 = j" using j j0 by simp
  have jd: "j \<in> set (db_jobs d)" using j by (auto dest: GetJob_Inr)
  note inv1 = complete_inv [OF inv jd st cj [unfolded eq]]
  have "db_jobs d' = db_jobs d1 \<and> db_runs d' = db_runs d1"
  proof (cases ro)
    case (Some q)
    then show ?thesis using e inv1 small reconcileWave_inv(2,3) [of d1 q now' b d'] by simp
  qed (use e in simp)
  then show thesis using that [OF cj [unfolded eq] Complete_inv [OF inv st small c]] e by (cases ro) auto
qed

lemma GetJob_row:
  assumes "db_inv d" "k \<in> set (db_jobs d)"
  shows "GetJob (job_ID k) d = Inr k"
  using find_by_in [OF db_inv_keys(1) [OF assms(1)] assms(2)] by (simp add: GetJob_def get_row_def)

lemma GetRun_row:
  assumes "db_inv d" "r \<in> set (db_runs d)"
  shows "GetRun (run_ID r) d = Inr r"
  using find_by_in [OF db_inv_keys(2) [OF assms(1)] assms(2)] by (simp add: GetRun_def get_row_def)

lemma Complete_steps:
  assumes inv: "db_inv d" and st: "terminal_job_status (ci_Status inp)" and small: "length (db_runs d) < 2 ^ 31"
    and c: "Complete now goNow now' inp d = Inr (b, d')"
  shows "cp_step\<^sup>*\<^sup>* d d'"
proof -
  obtain ro d1 where w: "WithJobExecution StoreFailure (ci_JobID inp) (sp_ResumeCount (ci_StatsPayload inp)) (complete now goNow inp) d = Inr (ro, d1)"
      and e: "(b, d') = (case ro of None \<Rightarrow> (False, d1) | Some q \<Rightarrow> reconcileWave now' q d1)"
    using c by (auto simp: Complete_def split: sum.splits prod.splits option.splits if_splits)
  have s1: "cp_step d d1" using w st by (rule cp_step.complete)
  obtain j where "GetJob (ci_JobID inp) d = Inr j" "complete now goNow inp j d = Inr (ro, d1)" using w by (rule WithJobExecution_Inr)
  then have i1: "length (db_runs d1) = length (db_runs d) \<and> (\<forall>r. ro = Some r \<longrightarrow> r \<in> set (db_runs d1))"
    using complete_inv [OF inv _ st] GetJob_Inr by blast
  show ?thesis
  proof (cases ro)
    case None
    then show ?thesis using s1 e by auto
  next
    case (Some q)
    then have "cp_step d1 d'" using i1 small e by (intro cp_step.reconcile [of q d1 now' b]) auto
    then show ?thesis using s1 by auto
  qed
qed

end
