(* ===== verification/Pipeline.thy ===== *)
theory Pipeline
  imports Control_Plane
begin

text \<open>
  What a run promises, without the tables. A pipeline is an attempt number, a number of jobs and a
  phase: waiting for a node at position \<open>i\<close>, executing position \<open>i\<close>, or ended. \<open>pipeline_of\<close> reads the
  pipeline of a run off the database, and every step of the control plane is, for every run, either no step or one
  step of its pipeline.

  A run that ended is \<^verbatim>\<open>Success\<close> or \<^verbatim>\<open>Fail\<close> only through its last job. This needs that no job's metadata
  carries the key \<^verbatim>\<open>next_id\<close>, which \<^verbatim>\<open>EvaluateRunAttemptTerminalStatus\<close> still prefers over the links of
  the chain; the planner never writes it.
\<close>

section \<open>The abstract pipeline\<close>

datatype phase = Waiting nat | Executing nat | Ended run_status

type_synonym pipeline = "int \<times> nat \<times> phase"

inductive pipe_step :: "pipeline \<Rightarrow> pipeline \<Rightarrow> bool" where
  take: "i < n \<Longrightarrow> pipe_step (a, n, Waiting i) (a, n, Executing i)"
| release: "i < n \<Longrightarrow> pipe_step (a, n, Executing i) (a, n, Waiting i)"
| advance: "i + 1 < n \<Longrightarrow> pipe_step (a, n, Executing i) (a, n, Waiting (i + 1))"
| succeed: "i + 1 = n \<Longrightarrow> pipe_step (a, n, Executing i) (a, n, Ended RunStatusSuccess)"
| fail: "i + 1 = n \<Longrightarrow> pipe_step (a, n, Executing i) (a, n, Ended RunStatusFail)"
| cancel: "i < n \<Longrightarrow> p = Waiting i \<or> p = Executing i \<Longrightarrow> pipe_step (a, n, p) (a, n, Ended RunStatusCancelled)"
| resume: "i < n \<Longrightarrow> s = RunStatusFail \<or> s = RunStatusCancelled \<Longrightarrow> pipe_step (a, n, Ended s) (a, n, Waiting i)"
| restart: "0 < m \<Longrightarrow> pipe_step (a, n, Ended s) (a + 1, m, Waiting 0)"

inductive_cases pipe_stepE: "pipe_step p q"

section \<open>The pipeline of a run\<close>

definition current_chain :: "db \<Rightarrow> run \<Rightarrow> job list" where
  "current_chain d r = Order job_ID job_NextID (ListJobsByRunAttempt (run_ID r) (run_Attempt r) d)"

definition phase_of :: "run_status \<Rightarrow> job_status list \<Rightarrow> phase" where
  "phase_of rs ss =
     (if IsTerminalRunStatus rs then Ended rs
      else let i = length (takeWhile (\<lambda>s. s = JobStatusSuccess) ss)
           in if i < length ss \<and> ss ! i = JobStatusRunning then Executing i else Waiting i)"

definition pipeline_of :: "db \<Rightarrow> run \<Rightarrow> pipeline" where
  "pipeline_of d r = (run_Attempt r, length (current_chain d r), phase_of (run_Status r) (map job_Status (current_chain d r)))"

definition no_legacy_order :: "db \<Rightarrow> bool" where
  "no_legacy_order d \<longleftrightarrow> (\<forall>k \<in> set (db_jobs d). nextIDFromMeta (job_Meta k) = None)"

lemma phase_of_ended [simp]: "IsTerminalRunStatus rs \<Longrightarrow> phase_of rs ss = Ended rs"
  by (simp add: phase_of_def)

lemma phase_of_active:
  assumes "\<not> IsTerminalRunStatus rs" "\<forall>s \<in> set pre. s = JobStatusSuccess" "s \<noteq> JobStatusSuccess"
  shows "phase_of rs (pre @ s # post) = (if s = JobStatusRunning then Executing (length pre) else Waiting (length pre))"
proof -
  have "takeWhile (\<lambda>s. s = JobStatusSuccess) (pre @ s # post) = pre" using assms(2,3) by simp
  then show ?thesis using assms(1) by (simp add: phase_of_def Let_def)
qed

lemma current_chain:
  assumes inv: "db_inv d" and r: "r \<in> set (db_runs d)"
  shows "chain_ok (run_RepoSha0 r) (current_chain d r)" "current_chain d r \<noteq> []"
    "\<forall>k \<in> set (current_chain d r). \<not> IsEmpty (job_ID k)"
    "mset (current_chain d r) = mset (attempt_of (run_Attempt r) (run_jobs (run_ID r) (db_jobs d)))"
proof -
  obtain j where j: "j \<in> set (db_jobs d)" "job_RunID j = run_ID r" "job_Attempt j = run_Attempt r"
    using inv r by (rule current_job)
  obtain r' pre post where foc: "job_focus d j r' pre post" using inv j(1) by (rule job_focusE)
  note D = job_focusD [OF foc]
  have "r' = r" using distinct_key_eq [OF db_inv_keys(2) [OF inv] D(2) r] D(3) j(2) by simp
  moreover have "Order job_ID job_NextID (ListJobsByRunAttempt (run_ID r') (job_Attempt j) d) = pre @ j # post"
    using inv foc by (rule job_focus_Order)
  ultimately have c: "current_chain d r = pre @ j # post" using j(3) by (simp add: current_chain_def)
  show "chain_ok (run_RepoSha0 r) (current_chain d r)" "current_chain d r \<noteq> []" using D(4) \<open>r' = r\<close> by (simp_all add: c)
  show "\<forall>k \<in> set (current_chain d r). \<not> IsEmpty (job_ID k)" unfolding c using D(5) db_inv_keys(5) [OF inv] by blast
  show "mset (current_chain d r) = mset (attempt_of (run_Attempt r) (run_jobs (run_ID r) (db_jobs d)))"
    using foc \<open>r' = r\<close> j(3) by (simp add: c job_focus_def)
qed

lemma current_chain_focus:
  assumes inv: "db_inv d" and foc: "job_focus d j r pre post" and a: "job_Attempt j = run_Attempt r"
  shows "current_chain d r = pre @ j # post"
  using job_focus_Order [OF inv foc] a by (simp add: current_chain_def)

lemma current_chain_set:
  assumes inv: "db_inv d" and r: "r \<in> set (db_runs d)"
  shows "k \<in> set (current_chain d r) \<longleftrightarrow> k \<in> set (db_jobs d) \<and> job_RunID k = run_ID r \<and> job_Attempt k = run_Attempt r"
  using mset_eq_setD [OF current_chain(4) [OF assms]] by auto

text \<open>An update of the rows updates the chain.\<close>

lemma current_chain_map:
  assumes inv: "db_inv d" and r: "r \<in> set (db_runs d)" and f: "keeps_key f" and d': "db_jobs d' = map f (db_jobs d)"
    and r': "run_ID r' = run_ID r" "run_Attempt r' = run_Attempt r"
  shows "current_chain d' r' = map f (current_chain d r)"
  unfolding current_chain_def [of d' r']
proof (rule Order_chain)
  note c = current_chain [OF inv r] and k = keeps_keyD [OF f]
  have ids: "map job_ID (map f (current_chain d r)) = map job_ID (current_chain d r)" using k by simp
  show "is_chain job_ID job_NextID (map f (current_chain d r))"
    using c(1) k by (simp add: is_chain_map chain_ok_def)
  show "distinct (map job_ID (map f (current_chain d r)))" unfolding ids using c(1) by (simp add: chain_ok_def)
  show "\<forall>x \<in> set (map f (current_chain d r)). \<not> IsEmpty (job_ID x)" using c(3) k by simp
  have "mset (ListJobsByRunAttempt (run_ID r') (run_Attempt r') d') =
      mset (attempt_of (run_Attempt r) (run_jobs (run_ID r) (map f (db_jobs d))))"
    using r' by (simp add: ListJobsByRunAttempt_def d' attempt_of_def run_jobs_def conj_commute)
  then show "mset (ListJobsByRunAttempt (run_ID r') (run_Attempt r') d') = mset (map f (current_chain d r))"
    using c(4) by (simp add: run_jobs_map [OF f] attempt_of_map [OF f])
qed

lemma pipeline_map:
  assumes "db_inv d" "r \<in> set (db_runs d)" "keeps_key f" "db_jobs d' = map f (db_jobs d)"
    "run_ID r' = run_ID r" "run_Attempt r' = run_Attempt r"
  shows "pipeline_of d' r' = (run_Attempt r, length (current_chain d r),
    phase_of (run_Status r') (map (\<lambda>k. job_Status (f k)) (current_chain d r)))"
  using current_chain_map [OF assms] assms(6) by (simp add: pipeline_of_def comp_def)

lemma pipeline_frame:
  assumes "ListJobsByRunAttempt (run_ID r) (run_Attempt r) d' = ListJobsByRunAttempt (run_ID r) (run_Attempt r) d"
  shows "pipeline_of d' r = pipeline_of d r"
  using assms by (simp add: pipeline_of_def current_chain_def)

text \<open>The chain of an active run: successes, the job that is out, jobs not started.\<close>

lemma active_chain:
  assumes inv: "db_inv d" and r: "r \<in> set (db_runs d)" "is_active_run r"
  obtains pre j post where "current_chain d r = pre @ j # post" "ready_status (job_Status j)"
    "\<forall>k \<in> set pre. job_Status k = JobStatusSuccess" "\<forall>k \<in> set post. job_Status k = JobStatusCreated"
    "pipeline_of d r = (run_Attempt r, length (current_chain d r),
       if job_Status j = JobStatusRunning then Executing (length pre) else Waiting (length pre))"
proof -
  note c = current_chain [OF inv r(1)]
  obtain k where k: "k \<in> set (current_chain d r)" "is_active_job k"
    using db_inv_run_ok [OF inv r(1)] r(2) mset_eq_setD [OF c(4)] by (auto simp: run_ok_def)
  have shape: "chain_shape (map job_Status (current_chain d r))" using c(1) by (simp add: chain_ok_def)
  have "job_Status k \<in> set (map job_Status (current_chain d r))" using k(1) by simp
  then obtain t where "t \<in> set (map job_Status (current_chain d r))" "ready_status t"
    using chain_shape_has_ready [OF shape] k(2) unfolding is_active_job_status by blast
  then obtain j where j: "j \<in> set (current_chain d r)" "ready_status (job_Status j)" by auto
  then obtain pre post where s: "current_chain d r = pre @ j # post" by (meson split_list)
  note rd = chain_ok_ready [OF c(1) [unfolded s] j(2)]
  have "\<not> IsTerminalRunStatus (run_Status r)" using r(2) by (simp add: active_run_iff)
  then have "phase_of (run_Status r) (map job_Status (pre @ j # post)) =
      (if job_Status j = JobStatusRunning then Executing (length pre) else Waiting (length pre))"
    using phase_of_active [of "run_Status r" "map job_Status pre" "job_Status j" "map job_Status post"] rd j(2)
    by (auto simp: ready_status_def)
  then show thesis using that [OF s j(2)] rd by (simp add: pipeline_of_def s)
qed

section \<open>Simulation\<close>

definition simulates :: "db \<Rightarrow> db \<Rightarrow> run \<Rightarrow> bool" where
  "simulates d d' r \<longleftrightarrow> (\<exists>r' \<in> set (db_runs d'). run_ID r' = run_ID r \<and>
     (pipeline_of d' r' = pipeline_of d r \<or> pipe_step (pipeline_of d r) (pipeline_of d' r')))"

lemma simulates_same:
  assumes "r' \<in> set (db_runs d')" "run_ID r' = run_ID r" "run_Attempt r' = run_Attempt r" "run_Status r' = run_Status r"
    and "ListJobsByRunAttempt (run_ID r) (run_Attempt r) d' = ListJobsByRunAttempt (run_ID r) (run_Attempt r) d"
  shows "simulates d d' r"
  using assms by (auto simp: simulates_def pipeline_of_def current_chain_def)

lemma jobs_frame:
  assumes "keeps_key f" "db_jobs d' = map f (db_jobs d)"
    and "\<And>k. k \<in> set (db_jobs d) \<Longrightarrow> job_RunID k = i \<Longrightarrow> job_Attempt k = a \<Longrightarrow> f k = k"
  shows "ListJobsByRunAttempt i a d' = ListJobsByRunAttempt i a d"
proof -
  have "filter (\<lambda>j. job_RunID j = i \<and> job_Attempt j = a) (map f js) = filter (\<lambda>j. job_RunID j = i \<and> job_Attempt j = a) js"
    if "\<And>k. k \<in> set js \<Longrightarrow> job_RunID k = i \<Longrightarrow> job_Attempt k = a \<Longrightarrow> f k = k" for js
    using that by (induction js) (auto simp: keeps_keyD [OF assms(1)])
  then show ?thesis using assms(2,3) by (simp add: ListJobsByRunAttempt_def)
qed

text \<open>Operations that cancel the active jobs of some runs and end those runs.\<close>

lemma simulates_cancel:
  assumes inv: "db_inv d" and r: "r \<in> set (db_runs d)" and d': "db_jobs d' = map (cancel_jobs_of now R) (db_jobs d)"
    and r': "r' \<in> set (db_runs d')" "run_ID r' = run_ID r" "run_Attempt r' = run_Attempt r"
      "run_Status r' = (if run_ID r \<in> R \<and> is_active_run r then RunStatusCancelled else run_Status r)"
  shows "simulates d d' r"
proof (cases "run_ID r \<in> R \<and> is_active_run r")
  case True
  obtain pre j post where c: "current_chain d r = pre @ j # post"
    and p: "pipeline_of d r = (run_Attempt r, length (current_chain d r),
       if job_Status j = JobStatusRunning then Executing (length pre) else Waiting (length pre))"
    using active_chain [OF inv r] True by metis
  have "pipeline_of d' r' = (run_Attempt r, length (current_chain d r), Ended RunStatusCancelled)"
    using pipeline_map [OF inv r keeps_key_cancel_jobs_of d' r'(2,3)] r'(4) True by simp
  then have "pipe_step (pipeline_of d r) (pipeline_of d' r')" unfolding p using pipe_step.cancel [of "length pre"] by (simp add: c)
  then show ?thesis using r'(1,2) by (auto simp: simulates_def)
next
  case False
  have "cancel_jobs_of now R k = k" if "k \<in> set (db_jobs d)" "job_RunID k = run_ID r" for k
    using False db_inv_run_ok [OF inv r] that by (auto simp: cancel_jobs_of_def cancel_if_active_def run_ok_def)
  then show ?thesis using False r' jobs_frame [OF keeps_key_cancel_jobs_of d'] by (intro simulates_same [OF r'(1-3)]) auto
qed

text \<open>Operations on the chain of one active job.\<close>

lemma simulates_focus:
  assumes inv: "db_inv d" and r: "r \<in> set (db_runs d)" and foc: "job_focus d j q pre post" and st: "ready_status (job_Status j)"
    and f: "keeps_key f" "\<And>k. k \<in> set (db_jobs d) \<Longrightarrow> k \<notin> set (pre @ j # post) \<Longrightarrow> f k = k"
    and d': "db_jobs d' = map f (db_jobs d)" "db_runs d' = set_run q' (db_runs d)"
    and q': "run_ID q' = run_ID q" "run_Attempt q' = run_Attempt q"
    and step: "pipe_step (run_Attempt q, length (pre @ j # post),
        if job_Status j = JobStatusRunning then Executing (length pre) else Waiting (length pre))
      (run_Attempt q, length (pre @ j # post), phase_of (run_Status q') (map job_Status (map f (pre @ j # post))))"
  shows "simulates d d' r"
proof (cases "run_ID r = run_ID q")
  case True
  note D = job_focusD [OF foc]
  have act: "is_active_job j" using st by (auto simp: status_sets)
  note a = active_job_run [OF inv foc act]
  have rq: "r = q" using distinct_key_eq [OF db_inv_keys(2) [OF inv] r D(2) True] .
  have c: "current_chain d q = pre @ j # post" using inv foc a(1) by (rule current_chain_focus)
  have "phase_of (run_Status q) (map job_Status pre @ job_Status j # map job_Status post) =
      (if job_Status j = JobStatusRunning then Executing (length (map job_Status pre)) else Waiting (length (map job_Status pre)))"
    by (rule phase_of_active) (use a(2) st chain_ok_ready(1) [OF D(4) st] in \<open>auto simp: active_run_iff ready_status_def\<close>)
  then have "pipeline_of d q = (run_Attempt q, length (pre @ j # post),
      if job_Status j = JobStatusRunning then Executing (length pre) else Waiting (length pre))"
    by (simp add: pipeline_of_def c)
  moreover have "pipeline_of d' q' = (run_Attempt q, length (pre @ j # post), phase_of (run_Status q') (map job_Status (map f (pre @ j # post))))"
    using pipeline_map [OF inv D(2) f(1) d'(1) q'] by (simp add: c comp_def)
  moreover have "q' \<in> set (db_runs d')" using D(2) q'(1) unfolding d'(2) in_set_run by (metis imageI)
  ultimately show ?thesis using step q'(1) unfolding simulates_def rq by (intro bexI [of _ q']) simp_all
next
  case False
  have "f k = k" if "k \<in> set (db_jobs d)" "job_RunID k = run_ID r" for k
    using f(2) [OF that(1)] job_focusD(5) [OF foc] False that by metis
  then have "ListJobsByRunAttempt (run_ID r) (run_Attempt r) d' = ListJobsByRunAttempt (run_ID r) (run_Attempt r) d"
    by (intro jobs_frame [OF f(1) d'(1)]) auto
  moreover have "r \<in> set (db_runs d')" using r False q'(1) by (simp add: d'(2) in_set_run)
  ultimately show ?thesis by (intro simulates_same [of r]) simp_all
qed

text \<open>The status a finished attempt gives its run is that of the last job of the chain.\<close>

lemma outcome_last:
  assumes inv: "db_inv d" and r: "r \<in> set (db_runs d)" "\<not> is_active_run r" and m: "no_legacy_order d"
    and ev: "EvaluateRunAttemptTerminalStatus (ListJobsByRunAttempt (run_ID r) (run_Attempt r) d) = Inr (finish_eval l)"
  shows "run_status_of (job_Status l) = run_status_of (job_Status (last (current_chain d r)))"
proof -
  note c = current_chain [OF inv r(1)] and s = current_chain_set [OF inv r(1)]
  have "mset (ListJobsByRunAttempt (run_ID r) (run_Attempt r) d) = mset (current_chain d r)"
    using c(4) by (simp add: ListJobsByRunAttempt_def attempt_of_def run_jobs_def conj_commute)
  moreover have "\<forall>j \<in> set (current_chain d r). \<not> active_status (job_Status j)"
    using db_inv_run_ok [OF inv r(1)] r(2) s by (auto simp: run_ok_def is_active_job_status)
  moreover have "\<forall>j \<in> set (current_chain d r). nextIDFromMeta (job_Meta j) = None"
    using m s unfolding no_legacy_order_def by blast
  ultimately have "EvaluateRunAttemptTerminalStatus (ListJobsByRunAttempt (run_ID r) (run_Attempt r) d) =
      Inr (finish_eval (last (current_chain d r)))"
    using Evaluate_chain [OF c(1,3) _ c(2)] by blast
  then show ?thesis using ev by (simp add: finish_eval_def)
qed

section \<open>Claims and completions\<close>

lemma focus_phase:
  assumes inv: "db_inv d" and foc: "job_focus d j q pre post" and st: "ready_status (job_Status j)" and s: "s \<noteq> JobStatusSuccess"
  shows "phase_of (run_Status q) (map job_Status pre @ s # ss) =
    (if s = JobStatusRunning then Executing (length pre) else Waiting (length pre))"
proof -
  have "is_active_job j" using st by (auto simp: status_sets)
  then have "\<not> IsTerminalRunStatus (run_Status q)" using active_job_run(2) [OF inv foc] by (simp add: active_run_iff)
  then show ?thesis
    using phase_of_active [of "run_Status q" "map job_Status pre" s ss] chain_ok_ready(1) [OF job_focusD(4) [OF foc] st] s by simp
qed

lemma simulates_claim:
  assumes inv: "db_inv d" and r: "r \<in> set (db_runs d)" and cl: "ClaimJob now locked nodeID d = Inr (j', d')"
  shows "simulates d d' r"
proof -
  obtain n j where j: "j \<in> set (db_jobs d)" "claimable d n j"
      and d': "d' = d\<lparr>db_jobs := map (at_id (job_ID j) (start_job now nodeID)) (db_jobs d)\<rparr>"
    using cl by (rule ClaimJob_Inr)
  obtain q pre post where foc: "job_focus d j q pre post" using inv j(1) by (rule job_focusE)
  have q: "job_Status j = JobStatusQueued" using j(2) by (simp add: claimable_def)
  then have st: "ready_status (job_Status j)" by (simp add: ready_status_def)
  let ?f = "at_id (job_ID j) (start_job now nodeID)"
  have chain: "map ?f (pre @ j # post) = pre @ start_job now nodeID j # post" by (rule map_at_id [OF job_focus_distinct [OF foc]])
  show ?thesis
  proof (rule simulates_focus [OF inv r foc st, where f = ?f and q' = q])
    show "keeps_key ?f" by (rule keeps_key_at_id) (simp add: keeps_key_def start_job_def)
    show "?f k = k" if "k \<in> set (db_jobs d)" "k \<notin> set (pre @ j # post)" for k
      using that by (intro at_id_frame [OF db_inv_keys(1) [OF inv] j(1)]) auto
    show "db_runs d' = set_run q (db_runs d)" using set_run_id [OF db_inv_keys(2) [OF inv] job_focusD(2) [OF foc]] by (simp add: d')
    show "pipe_step (run_Attempt q, length (pre @ j # post),
        if job_Status j = JobStatusRunning then Executing (length pre) else Waiting (length pre))
      (run_Attempt q, length (pre @ j # post), phase_of (run_Status q) (map job_Status (map ?f (pre @ j # post))))"
      using focus_phase [OF inv foc st, of JobStatusRunning] pipe_step.take [of "length pre"]
      unfolding chain by (simp add: q start_job_def)
  qed (simp_all add: d')
qed

lemma simulates_unclaim:
  assumes inv: "db_inv d" and r: "r \<in> set (db_runs d)" and un: "UnclaimJob i nodeID d = Inr d'"
  shows "simulates d d' r"
  using un
proof (cases rule: UnclaimJob_Inr)
  case 1
  then show ?thesis using r by (intro simulates_same [of r]) simp_all
next
  case (2 j b)
  have j: "j \<in> set (db_jobs d)" "job_ID j = i" using find_by_SomeD [OF 2(1)] by simp_all
  obtain q pre post where foc: "job_focus d j q pre post" using inv j(1) by (rule job_focusE)
  have st: "ready_status (job_Status j)" using 2(3) by (simp add: ready_status_def)
  let ?f = "at_id (job_ID j) (unclaim_job b)"
  have chain: "map ?f (pre @ j # post) = pre @ unclaim_job b j # post" by (rule map_at_id [OF job_focus_distinct [OF foc]])
  show ?thesis
  proof (rule simulates_focus [OF inv r foc st, where f = ?f and q' = q])
    show "keeps_key ?f" by (rule keeps_key_at_id) (simp add: keeps_key_def unclaim_job_def)
    show "?f k = k" if "k \<in> set (db_jobs d)" "k \<notin> set (pre @ j # post)" for k
      using that by (intro at_id_frame [OF db_inv_keys(1) [OF inv] j(1)]) auto
    show "db_runs d' = set_run q (db_runs d)" using set_run_id [OF db_inv_keys(2) [OF inv] job_focusD(2) [OF foc]] by (simp add: 2(4))
    show "pipe_step (run_Attempt q, length (pre @ j # post),
        if job_Status j = JobStatusRunning then Executing (length pre) else Waiting (length pre))
      (run_Attempt q, length (pre @ j # post), phase_of (run_Status q) (map job_Status (map ?f (pre @ j # post))))"
      using focus_phase [OF inv foc st, of JobStatusQueued] pipe_step.release [of "length pre"]
      unfolding chain by (simp add: 2(3) unclaim_job_def)
  qed (simp_all add: 2(4) j(2))
qed

lemma complete_running:
  assumes "db_inv d" "j \<in> set (db_jobs d)" "complete now goNow inp j d = Inr (ro, d')"
  shows "job_Status j = JobStatusRunning" "ready_status (job_Status j)" "is_active_job j"
  using complete_Inr [OF assms(3) db_inv_keys(1) [OF assms(1)] assms(2)] by (auto simp: ready_status_def is_active_job_def)

text \<open>What a completion makes of the run when it ends the attempt.\<close>

definition ended_status :: "job_status \<Rightarrow> job list \<Rightarrow> run_status" where
  "ended_status s post = (if post = [] then run_status_of s else RunStatusCancelled)"

lemma complete_fail_status:
  assumes inv: "db_inv d" and foc: "job_focus d j q pre post"
    and st: "terminal_job_status (ci_Status inp)" "ci_Status inp \<noteq> JobStatusSuccess"
    and c: "complete now goNow inp j d = Inr (ro, d')" and m: "no_legacy_order d'"
  obtains e where "db_jobs d' = map (fail_rows now goNow inp j post) (db_jobs d)" "db_inv d'"
    "db_runs d' = set_run (set_run_status now (ended_status (ci_Status inp) post) (q\<lparr>run_LastError := e\<rparr>)) (db_runs d)"
proof -
  note D = job_focusD [OF foc] and run = complete_running [OF inv job_focusD(1) [OF foc] c]
  note a = active_job_run [OF inv foc run(3)]
  let ?f = "fail_rows now goNow inp j post"
  obtain l e where L: "db_inv d'" "db_jobs d' = map ?f (db_jobs d)"
      "EvaluateRunAttemptTerminalStatus (ListJobsByRunAttempt (run_ID q) (run_Attempt q) d') = Inr (finish_eval l)"
      "db_runs d' = set_run (set_run_status now (run_status_of (job_Status l)) (q\<lparr>run_LastError := e\<rparr>)) (db_runs d)"
    using complete_fail [OF inv foc st c] by metis
  define q' where "q' = set_run_status now (run_status_of (job_Status l)) (q\<lparr>run_LastError := e\<rparr>)"
  have q': "run_ID q' = run_ID q" "run_Attempt q' = run_Attempt q" "\<not> is_active_run q'" by (simp_all add: q'_def active_run_iff)
  have "q' \<in> set (db_runs d')" using D(2) q'(1) unfolding L(4) q'_def [symmetric] in_set_run by (metis imageI)
  then have "run_status_of (job_Status l) = run_status_of (job_Status (last (current_chain d' q')))"
    by (rule outcome_last [OF L(1) _ q'(3) m]) (use L(3) q' in simp)
  also have "current_chain d' q' = map ?f (pre @ j # post)"
    using current_chain_map [OF inv D(2) keeps_key_fail_rows L(2) q'(1,2)] current_chain_focus [OF inv foc a(1)] by simp
  also have "run_status_of (job_Status (last \<dots>)) = ended_status (ci_Status inp) post"
    unfolding fail_rows_chain [OF D(4)] by (simp add: ended_status_def last_map)
  finally show thesis using L by (intro that [of e]) simp_all
qed

lemma complete_last_status:
  assumes inv: "db_inv d" and foc: "job_focus d j q pre []" and st: "ci_Status inp = JobStatusSuccess"
    and c: "complete now goNow inp j d = Inr (ro, d')"
  shows "db_jobs d' = map (completion_rows now inp j) (db_jobs d)" "db_inv d'"
    "db_runs d' = set_run (set_run_status now RunStatusSuccess q) (db_runs d)"
proof -
  note D = job_focusD [OF foc] and run = complete_running [OF inv job_focusD(1) [OF foc] c]
  obtain l where L: "db_inv d'" "db_jobs d' = map (completion_rows now inp j) (db_jobs d)" "l \<in> set (pre @ [completed_row now inp j])"
      "db_runs d' = set_run (set_run_status now (run_status_of (job_Status l)) q) (db_runs d)"
    using complete_last [OF inv foc st c] by metis
  have "job_Status l = JobStatusSuccess" using L(3) chain_ok_ready(1) [OF D(4) run(2)] st by auto
  then show "db_jobs d' = map (completion_rows now inp j) (db_jobs d)" "db_inv d'"
    "db_runs d' = set_run (set_run_status now RunStatusSuccess q) (db_runs d)" using L by simp_all
qed

lemma simulates_fail:
  assumes inv: "db_inv d" and r: "r \<in> set (db_runs d)" and foc: "job_focus d j q pre post"
    and st: "terminal_job_status (ci_Status inp)" "ci_Status inp \<noteq> JobStatusSuccess"
    and c: "complete now goNow inp j d = Inr (ro, d')" and m: "no_legacy_order d'"
  shows "simulates d d' r"
proof -
  note run = complete_running [OF inv job_focusD(1) [OF foc] c]
  obtain e where d': "db_jobs d' = map (fail_rows now goNow inp j post) (db_jobs d)"
      "db_runs d' = set_run (set_run_status now (ended_status (ci_Status inp) post) (q\<lparr>run_LastError := e\<rparr>)) (db_runs d)"
    using complete_fail_status [OF inv foc st c m] by metis
  show ?thesis
  proof (rule simulates_focus [OF inv r foc run(2) keeps_key_fail_rows fail_rows_frame(2) [OF foc db_inv_keys(1) [OF inv]] d'])
    have t: "IsTerminalRunStatus (ended_status (ci_Status inp) post)" by (simp add: ended_status_def)
    have e: "ended_status (ci_Status inp) post = RunStatusCancelled \<or>
        ended_status (ci_Status inp) post = RunStatusFail \<and> post = []"
      using st by (cases "ci_Status inp") (simp_all add: ended_status_def terminal_job_status_def)
    show "pipe_step (run_Attempt q, length (pre @ j # post),
        if job_Status j = JobStatusRunning then Executing (length pre) else Waiting (length pre))
      (run_Attempt q, length (pre @ j # post),
        phase_of (run_Status (set_run_status now (ended_status (ci_Status inp) post) (q\<lparr>run_LastError := e\<rparr>)))
          (map job_Status (map (fail_rows now goNow inp j post) (pre @ j # post))))"
      using e t pipe_step.cancel [of "length pre"] pipe_step.fail [of "length pre"] run(1) by auto
  qed simp_all
qed

lemma simulates_last:
  assumes inv: "db_inv d" and r: "r \<in> set (db_runs d)" and foc: "job_focus d j q pre []"
    and st: "ci_Status inp = JobStatusSuccess" and c: "complete now goNow inp j d = Inr (ro, d')"
  shows "simulates d d' r"
proof -
  note run = complete_running [OF inv job_focusD(1) [OF foc] c] and d' = complete_last_status [OF inv foc st c]
  show ?thesis
  proof (rule simulates_focus [OF inv r foc run(2) keeps_key_completion_rows fail_rows_frame(1) [OF foc db_inv_keys(1) [OF inv]] d'(1,3)])
    show "pipe_step (run_Attempt q, length (pre @ [j]),
        if job_Status j = JobStatusRunning then Executing (length pre) else Waiting (length pre))
      (run_Attempt q, length (pre @ [j]), phase_of (run_Status (set_run_status now RunStatusSuccess q))
          (map job_Status (map (completion_rows now inp j) (pre @ [j]))))"
      using pipe_step.succeed [of "length pre"] run(1) by simp
  qed simp_all
qed

lemma advance_rows_frame:
  assumes inv: "db_inv d" and foc: "job_focus d j r pre (y # ys)" and k: "k \<in> set (db_jobs d)" "k \<notin> set (pre @ j # y # ys)"
  shows "advance_rows now inp j y k = k"
proof -
  have "y \<in> set (pre @ j # y # ys)" by simp
  then have "y \<in> set (db_jobs d)" using job_focusD(5) [OF foc] by blast
  then have "job_ID k \<noteq> job_ID y" using distinct_key_eq [OF db_inv_keys(1) [OF inv] k(1)] k(2) by auto
  then show ?thesis
    using fail_rows_frame(1) [OF foc db_inv_keys(1) [OF inv] k] by (simp add: advance_rows_def at_id_def)
qed

lemma simulates_advance:
  assumes inv: "db_inv d" and r: "r \<in> set (db_runs d)" and foc: "job_focus d j q pre (y # ys)"
    and st: "ci_Status inp = JobStatusSuccess" and c: "complete now goNow inp j d = Inr (ro, d')"
  shows "simulates d d' r"
proof -
  note D = job_focusD [OF foc] and run = complete_running [OF inv job_focusD(1) [OF foc] c]
  note A = complete_advance [OF inv foc st c] and a = active_job_run [OF inv foc run(3)]
  let ?f = "advance_rows now inp j y"
  have ss: "map job_Status (map ?f (pre @ j # y # ys)) = (map job_Status pre @ [JobStatusSuccess]) @ JobStatusQueued # map job_Status ys"
    unfolding advance_rows_chain [OF D(4)] using st by simp
  have ph: "phase_of (run_Status q) (map job_Status (map ?f (pre @ j # y # ys))) = Waiting (length pre + 1)"
    unfolding ss using phase_of_active [of "run_Status q" "map job_Status pre @ [JobStatusSuccess]" JobStatusQueued "map job_Status ys"]
      chain_ok_ready(1) [OF D(4) run(2)] a(2) by (simp add: active_run_iff)
  have runs: "db_runs d' = set_run q (db_runs d)" using A(4) set_run_id [OF db_inv_keys(2) [OF inv] D(2)] by simp
  show ?thesis
  proof (rule simulates_focus [OF inv r foc run(2) keeps_key_advance_rows advance_rows_frame [OF inv foc] A(3) runs])
    show "pipe_step (run_Attempt q, length (pre @ j # y # ys),
        if job_Status j = JobStatusRunning then Executing (length pre) else Waiting (length pre))
      (run_Attempt q, length (pre @ j # y # ys), phase_of (run_Status q) (map job_Status (map ?f (pre @ j # y # ys))))"
      unfolding ph using pipe_step.advance [of "length pre" "length (pre @ j # y # ys)"] run(1) by simp
  qed simp_all
qed

lemma simulates_complete:
  assumes inv: "db_inv d" and r: "r \<in> set (db_runs d)" and j: "j \<in> set (db_jobs d)"
    and st: "terminal_job_status (ci_Status inp)" and c: "complete now goNow inp j d = Inr (ro, d')" and m: "no_legacy_order d'"
  shows "simulates d d' r"
proof -
  obtain q pre post where foc: "job_focus d j q pre post" using inv j by (rule job_focusE)
  show ?thesis
  proof (cases "ci_Status inp = JobStatusSuccess")
    case True
    show ?thesis
    proof (cases post)
      case Nil
      then show ?thesis using simulates_last [OF inv r _ True c] foc by simp
    next
      case (Cons y ys)
      then show ?thesis using simulates_advance [OF inv r _ True c] foc by simp
    qed
  qed (rule simulates_fail [OF inv r foc st _ c m])
qed

section \<open>Submissions and restarts\<close>

lemma materializeRun_frame:
  assumes "materializeRun now newJobID wv (k, plan) (ms, d) = Inr (ms', d')" "r \<in> set (db_runs d)"
  shows "r \<in> set (db_runs d') \<and> ListJobsByRunAttempt (run_ID r) a d' = ListJobsByRunAttempt (run_ID r) a d"
proof -
  from assms(1) obtain q d1 js where ins: "insertRun now wv plan d = Inr (q, d1)"
      and cp: "createPlannedJobs (newJobID k) q (rp_Jobs plan) d1 = Inr (js, d')"
    by (auto simp: materializeRun_def res_bind_Inr_iff split: prod.splits)
  obtain stats where q: "q = new_run now wv plan stats" and d1: "d1 = d\<lparr>db_runs := db_runs d @ [q]\<rparr>"
      and fresh: "rp_ID plan \<notin> run_ID ` set (db_runs d)"
    using ins by (rule insertRun_Inr)
  note c = createPlannedJobs_Inr [OF cp]
  have "run_ID q \<noteq> run_ID r" using fresh assms(2) by (metis (no_types, lifting) q imageI new_run_def run.select_convs(1))
  then have "filter (\<lambda>j. job_RunID j = run_ID r \<and> job_Attempt j = a) (rev js) = []"
    unfolding c(2) by (auto simp: filter_empty_conv)
  then show ?thesis using assms(2) by (simp add: c(3) d1 ListJobsByRunAttempt_def)
qed

lemma simulates_submit:
  assumes c: "CreateWaveWithRuns now newJobID wv plans d = Inr (res, d')" and r: "r \<in> set (db_runs d)"
  shows "simulates d d' r"
proof -
  from c obtain w d1 ms where cw: "CreateWave now wv d = Inr (w, d1)"
      and it: "res_iter (materializeRun now newJobID wv) (enumerate 0 plans) ([], d1) = Inr (ms, d')"
    by (auto simp: CreateWaveWithRuns_def res_bind_Inr_iff split: if_splits)
  have d1: "db_jobs d1 = db_jobs d" "db_runs d1 = db_runs d" using cw by (auto simp: CreateWave_def split: if_splits)
  let ?P = "\<lambda>(ms :: (run \<times> job list) list, e). r \<in> set (db_runs e) \<and>
    ListJobsByRunAttempt (run_ID r) (run_Attempt r) e = ListJobsByRunAttempt (run_ID r) (run_Attempt r) d"
  have "?P (ms, d')"
  proof (rule res_iter_invariant [OF it])
    show "?P ([], d1)" using r d1 by (simp add: ListJobsByRunAttempt_def)
    fix x s t assume a: "?P s" "materializeRun now newJobID wv x s = Inr t"
    obtain k plan ms0 e0 ms1 e1 where xst: "x = (k, plan)" "s = (ms0, e0)" "t = (ms1, e1)" by (metis surj_pair)
    show "?P t" using a materializeRun_frame [of now newJobID wv k plan ms0 e0 ms1 e1] unfolding xst by auto
  qed
  then show ?thesis by (intro simulates_same [of r]) simp_all
qed

text \<open>The run that is restarted moves; every other run keeps its jobs and its row.\<close>

lemma planned_chain:
  assumes cp: "createPlannedJobs newJobID u jobs e = Inr (js, d')" and ids: "\<forall>i. \<not> IsEmpty (newJobID i)"
    and old: "filter (\<lambda>j. job_RunID j = run_ID u \<and> job_Attempt j = run_Attempt u) (db_jobs e) = []"
  shows "current_chain d' u = js"
  unfolding current_chain_def
proof (rule Order_chain)
  note c = createPlannedJobs_Inr [OF cp]
  have "chain_ok (run_RepoSha0 u) js" using c(2,4) chain_ok_planned [of newJobID u jobs] c(1) by simp
  then show "is_chain job_ID job_NextID js" "distinct (map job_ID js)" by (simp_all add: chain_ok_def)
  show "\<forall>x \<in> set js. \<not> IsEmpty (job_ID x)" using ids by (simp add: c(2))
  have "filter (\<lambda>j. job_RunID j = run_ID u \<and> job_Attempt j = run_Attempt u) (rev js) = rev js" by (simp add: c(2))
  then show "mset (ListJobsByRunAttempt (run_ID u) (run_Attempt u) d') = mset js"
    using old by (simp add: ListJobsByRunAttempt_def c(3))
qed

lemma no_jobs_of_next_attempt:
  assumes "db_inv d" "r \<in> set (db_runs d)"
  shows "filter (\<lambda>j. job_RunID j = run_ID r \<and> job_Attempt j = run_Attempt r + 1) (db_jobs d) = []"
proof -
  have "job_Attempt j \<le> run_Attempt r" if "j \<in> set (db_jobs d)" "job_RunID j = run_ID r" for j
    using db_inv_run_ok [OF assms] that by (auto simp: run_ok_def)
  then show ?thesis unfolding filter_empty_conv by force
qed

lemma simulates_restart_full:
  assumes inv: "db_inv d" and r: "r \<in> set (db_runs d)" and full: "\<not> rr_FromFailed arg" and ids: "\<forall>i. \<not> IsEmpty (newJobID i)"
    and rs: "RestartRun now nowText newJobID arg d = Inr (u, d')"
  shows "simulates d d' r"
proof -
  obtain q w v js where q: "q \<in> set (db_runs d)" "\<not> is_active_run q" and u: "u = increment_attempt now v q"
    and cp: "createPlannedJobs newJobID u (rr_Jobs arg) (revive now w (d\<lparr>db_runs := set_run u (db_runs d)\<rparr>)) = Inr (js, d')"
    using RestartRun_full [OF inv full rs] by metis
  note c = createPlannedJobs_Inr [OF cp]
  have d': "db_jobs d' = db_jobs d @ rev js" "db_runs d' = set_run u (db_runs d)" using c(3) by simp_all
  have uf: "run_ID u = run_ID q" "run_Attempt u = run_Attempt q + 1" "run_Status u = RunStatusRunning"
    by (simp_all add: u increment_attempt_def)
  show ?thesis
  proof (cases "run_ID r = run_ID q")
    case True
    then have rq: "r = q" using distinct_key_eq [OF db_inv_keys(2) [OF inv] r q(1)] by simp
    have chain: "current_chain d' u = js"
      by (rule planned_chain [OF cp ids]) (simp add: uf no_jobs_of_next_attempt [OF inv q(1)])
    have "map job_Status js = [] @ JobStatusQueued # map job_Status (map (new_planned newJobID u (rr_Jobs arg)) [1..<length (rr_Jobs arg)])"
      using c(1) by (simp add: c(2) upt_conv_Cons)
    then have "phase_of (run_Status u) (map job_Status js) = Waiting 0"
      using phase_of_active [of RunStatusRunning "[]" JobStatusQueued] by (simp add: uf(3))
    then have "pipeline_of d' u = (run_Attempt q + 1, length js, Waiting 0)" by (simp add: pipeline_of_def chain uf(2))
    moreover have "pipeline_of d q = (run_Attempt q, length (current_chain d q), Ended (run_Status q))"
      using q(2) by (simp add: pipeline_of_def active_run_iff)
    moreover have "0 < length js" using c(1,2) by simp
    moreover have "u \<in> set (db_runs d')" using q(1) uf(1) unfolding d'(2) in_set_run by (metis imageI)
    ultimately show ?thesis unfolding simulates_def rq using uf(1) by (intro bexI [of _ u]) (auto intro: pipe_step.restart)
  next
    case False
    have "r \<in> set (db_runs d')" using r False uf(1) by (simp add: d'(2) in_set_run)
    moreover have "filter (\<lambda>j. job_RunID j = run_ID r \<and> job_Attempt j = run_Attempt r) (rev js) = []"
      using False uf(1) by (auto simp: filter_empty_conv c(2))
    ultimately show ?thesis by (intro simulates_same [of r]) (simp_all add: ListJobsByRunAttempt_def d'(1))
  qed
qed

lemma resume_updates_chain:
  assumes "chain_ok sha0 (pre @ j # post)"
  shows "map (resume_updates plans j post) (pre @ j # post) =
    pre @ reset_job True (resume_meta plans j) j # map (\<lambda>k. reset_job False (resume_meta plans k) k) post"
  unfolding resume_updates_def using assms by (rule reset_chain)

lemma simulates_resume:
  assumes inv: "db_inv d" and r: "r \<in> set (db_runs d)" and res: "rr_FromFailed arg"
    and rs: "RestartRun now nowText newJobID arg d = Inr (u, d')"
  shows "simulates d d' r"
proof -
  obtain q j pre post stats where q: "q \<in> set (db_runs d)" "\<not> is_active_run q"
    and foc: "job_focus d j q pre post" "job_Attempt j = run_Attempt q" and pre: "\<forall>k \<in> set pre. job_Status k = JobStatusSuccess"
    and d': "db_jobs d' = map (resume_updates (rr_Jobs arg) j post) (db_jobs d)"
      "db_runs d' = set_run (resume_run nowText (rr_ExpectedResumeCount arg + 1) stats q) (db_runs d)"
    and st: "run_Status q = RunStatusFail \<or> run_Status q = RunStatusCancelled"
    using RestartRun_resume [OF inv res rs] by metis
  define q' where "q' = resume_run nowText (rr_ExpectedResumeCount arg + 1) stats q"
  have qf: "run_ID q' = run_ID q" "run_Attempt q' = run_Attempt q" "run_Status q' = RunStatusRunning"
    by (simp_all add: q'_def resume_run_def)
  let ?f = "resume_updates (rr_Jobs arg) j post"
  show ?thesis
  proof (cases "run_ID r = run_ID q")
    case True
    then have rq: "r = q" using distinct_key_eq [OF db_inv_keys(2) [OF inv] r q(1)] by simp
    have c: "current_chain d q = pre @ j # post" using inv foc by (rule current_chain_focus)
    have "phase_of (run_Status q') (map job_Status (map ?f (pre @ j # post))) = Waiting (length pre)"
      unfolding resume_updates_chain [OF job_focusD(4) [OF foc(1)]]
      using phase_of_active [of "run_Status q'" "map job_Status pre" JobStatusQueued] pre by (simp add: qf(3))
    then have "pipeline_of d' q' = (run_Attempt q, length (pre @ j # post), Waiting (length pre))"
      using pipeline_map [OF inv q(1) keeps_key_resume_updates d'(1) qf(1,2)] by (simp add: c comp_def)
    moreover have "pipeline_of d q = (run_Attempt q, length (pre @ j # post), Ended (run_Status q))"
      using q(2) by (simp add: pipeline_of_def active_run_iff c)
    moreover have "q' \<in> set (db_runs d')" using q(1) qf(1) unfolding d'(2) q'_def [symmetric] in_set_run by (metis imageI)
    ultimately show ?thesis unfolding simulates_def rq using qf(1) st pipe_step.resume [of "length pre"]
      by (intro bexI [of _ q']) simp_all
  next
    case False
    have "r \<in> set (db_runs d')" using r False qf(1) unfolding d'(2) q'_def [symmetric] by (simp add: in_set_run)
    moreover have "?f k = k" if "k \<in> set (db_jobs d)" "job_RunID k = run_ID r" for k
      using resume_updates_frame [OF inv foc(1) that(1)] job_focusD(5) [OF foc(1)] False that by metis
    ultimately show ?thesis
      by (intro simulates_same [of r] jobs_frame [OF keeps_key_resume_updates d'(1)]) auto
  qed
qed

section \<open>Cancellation and recovery\<close>

lemma simulates_cancel_run:
  assumes inv: "db_inv d" and r: "r \<in> set (db_runs d)" and c: "CancelRun now i d = Inr d'"
  shows "simulates d d' r"
proof -
  obtain q where q: "q \<in> set (db_runs d)" "run_ID q = i" and jobs: "db_jobs d' = map (cancel_jobs_of now {i}) (db_jobs d)"
    and runs: "db_runs d' = map (\<lambda>s. if run_ID s = i \<and> is_active_run q then set_run_status now RunStatusCancelled s else s) (db_runs d)"
    using c by (rule CancelRun_tables)
  define r' where "r' = (if run_ID r = i \<and> is_active_run q then set_run_status now RunStatusCancelled r else r)"
  have "r' \<in> set (db_runs d')" using r by (simp add: runs r'_def)
  moreover have "run_ID r = i \<Longrightarrow> r = q" using distinct_key_eq [OF db_inv_keys(2) [OF inv] r q(1)] q(2) by simp
  ultimately show ?thesis by (intro simulates_cancel [OF inv r jobs, of r']) (auto simp: r'_def)
qed

lemma simulates_cancel_wave:
  assumes inv: "db_inv d" and r: "r \<in> set (db_runs d)" and c: "CancelWave now i d = Inr d'"
  shows "simulates d d' r"
proof -
  obtain w :: wave where
    jobs: "db_jobs d' = map (cancel_jobs_of now {run_ID r | r. r \<in> set (db_runs d) \<and> run_WaveID r = i}) (db_jobs d)"
    and runs: "db_runs d' = map (\<lambda>r. if run_WaveID r = i \<and> is_active_run r then r\<lparr>run_Status := RunStatusCancelled,
           run_FinishedAt := Some (coalesce (run_FinishedAt r) now)\<rparr> else r) (db_runs d)"
    using c by (rule CancelWave_tables)
  define r' where "r' = (if run_WaveID r = i \<and> is_active_run r then r\<lparr>run_Status := RunStatusCancelled,
           run_FinishedAt := Some (coalesce (run_FinishedAt r) now)\<rparr> else r)"
  have "r' \<in> set (db_runs d')" using r by (simp add: runs r'_def)
  moreover have "run_ID r \<in> {run_ID r | r. r \<in> set (db_runs d) \<and> run_WaveID r = i} \<longleftrightarrow> run_WaveID r = i"
    using r distinct_key_eq [OF db_inv_keys(2) [OF inv]] by blast
  ultimately show ?thesis by (intro simulates_cancel [OF inv r jobs, of r']) (auto simp: r'_def)
qed

lemma stale_run_active:
  assumes "db_inv d" "r \<in> set (db_runs d)" "run_ID r \<in> stale_runs cutoff d"
  shows "is_active_run r"
proof -
  obtain j where "j \<in> set (db_jobs d)" "job_RunID j = run_ID r" "is_active_job j"
    using assms(3) by (auto simp: stale_runs_def stale_running_def is_active_job_def)
  then show ?thesis using db_inv_run_ok [OF assms(1,2)] by (auto simp: run_ok_def)
qed

lemma recovered_status:
  assumes inv: "db_inv d" "db_inv d'" and r: "r \<in> set (db_runs d)" "run_ID r \<in> R" "is_active_run r"
    and jobs: "db_jobs d' = map (cancel_jobs_of now R) (db_jobs d)"
    and r': "r' \<in> set (db_runs d')" "run_ID r' = run_ID r" "run_Attempt r' = run_Attempt r"
    and o: "attempt_outcome r d' (run_Status r')" and m: "no_legacy_order d'"
  shows "run_Status r' = RunStatusCancelled"
proof -
  obtain l where l: "run_Status r' = run_status_of (job_Status l)"
      "EvaluateRunAttemptTerminalStatus (ListJobsByRunAttempt (run_ID r') (run_Attempt r') d') = Inr (finish_eval l)"
    using o r'(2,3) by (auto simp: attempt_outcome_def)
  have "\<not> is_active_run r'" by (simp add: active_run_iff l(1))
  then have s: "run_Status r' = run_status_of (job_Status (last (current_chain d' r')))"
    unfolding l(1) by (rule outcome_last [OF inv(2) r'(1) _ m l(2)])
  obtain pre j post where c: "current_chain d r = pre @ j # post" "ready_status (job_Status j)"
      "\<forall>k \<in> set post. job_Status k = JobStatusCreated"
    using active_chain [OF inv(1) r(1,3)] by metis
  have "is_active_job (last (j # post))" using c(2,3) last_in_set [of post] by (auto simp: status_sets)
  moreover have "last (current_chain d r) = last (j # post)" by (simp add: c(1))
  moreover have "job_RunID (last (current_chain d r)) = run_ID r"
    using current_chain_set [OF inv(1) r(1)] last_in_set [OF current_chain(2) [OF inv(1) r(1)]] by blast
  ultimately have "job_Status (cancel_jobs_of now R (last (current_chain d r))) = JobStatusCancelled"
    using r(2) by (simp add: cancel_jobs_of_def cancel_if_active_def cancel_active_job_def)
  moreover have "last (current_chain d' r') = cancel_jobs_of now R (last (current_chain d r))"
    using current_chain_map [OF inv(1) r(1) keeps_key_cancel_jobs_of jobs r'(2,3)] current_chain(2) [OF inv(1) r(1)]
    by (simp add: last_map)
  ultimately show ?thesis using s by simp
qed

lemma simulates_recover:
  assumes inv: "db_inv d" and r: "r \<in> set (db_runs d)" and small: "length (db_runs d) < 2 ^ 31"
    and rec: "StaleJobRecoveryTask_Run now goNow staleAfter d = (fin, d')" and m: "no_legacy_order d'"
  shows "simulates d d' r"
proof (cases "run_ID r \<in> stale_runs (goNow - staleAfter) d")
  case True
  note S = StaleJobRecovery_spec [OF inv small rec] and act = stale_run_active [OF inv r True]
  obtain r' where r': "r' \<in> set (db_runs d')" "run_ID r' = run_ID r" "run_Attempt r' = run_Attempt r"
      "attempt_outcome r d' (run_Status r')" using S(5) [OF r True] by blast
  have "run_Status r' = RunStatusCancelled" by (rule recovered_status [OF inv S(1) r True act S(2) r' m])
  then show ?thesis using True act by (intro simulates_cancel [OF inv r S(2) r'(1-3)]) simp
next
  case False
  note S = StaleJobRecovery_spec [OF inv small rec]
  show ?thesis by (rule simulates_cancel [OF inv r S(2), of r]) (use False S(4) r in auto)
qed

section \<open>The control plane refines the pipelines\<close>

lemma cp_step_simulates:
  assumes "cp_step d d'" and inv: "db_inv d" and r: "r \<in> set (db_runs d)" and m: "no_legacy_order d'"
  shows "simulates d d' r"
  using assms(1)
proof (cases rule: cp_step.cases)
  case (restart now nowText newID arg u)
  then show ?thesis using simulates_restart_full [OF inv r] simulates_resume [OF inv r] by blast
next
  case (complete inp now goNow ro)
  obtain j where "GetJob (ci_JobID inp) d = Inr j" "complete now goNow inp j d = Inr (ro, d')"
    using complete(1) by (rule WithJobExecution_Inr)
  then show ?thesis using simulates_complete [OF inv r _ complete(2) _ m] GetJob_Inr by blast
next
  case (reconcile q now b)
  note S = reconcileWave_inv(2,3) [OF inv reconcile]
  show ?thesis by (rule simulates_same [of r]) (use S r in \<open>simp_all add: ListJobsByRunAttempt_def\<close>)
next
  case (recover now goNow staleAfter fin)
  then show ?thesis using simulates_recover [OF inv r _ _ m] by blast
next
  case (heartbeat hb)
  then have "db_jobs d' = db_jobs d" "db_runs d' = db_runs d"
    by (auto simp: UpdateNodeHeartbeat_def split: option.splits if_splits)
  then show ?thesis using r by (intro simulates_same [of r]) (simp_all add: ListJobsByRunAttempt_def)
next
  case (drain drained nodeID expected n)
  then have "db_jobs d' = db_jobs d" "db_runs d' = db_runs d" by (auto elim: UpdateNodeDrained_Inr)
  then show ?thesis using r by (intro simulates_same [of r]) (simp_all add: ListJobsByRunAttempt_def)
next
  case (enroll now be)
  then have "db_jobs d' = db_jobs d" "db_runs d' = db_runs d" by (auto elim: enrollment_Inr)
  then show ?thesis using r by (intro simulates_same [of r]) (simp_all add: ListJobsByRunAttempt_def)
qed (blast intro: simulates_submit [OF _ r] simulates_cancel_run [OF inv r] simulates_cancel_wave [OF inv r]
      simulates_claim [OF inv r] simulates_unclaim [OF inv r])+

definition run_pipeline :: "db \<Rightarrow> run_id \<Rightarrow> pipeline option" where
  "run_pipeline d i = map_option (pipeline_of d) (find_by run_ID i (db_runs d))"

lemma run_pipeline_row:
  assumes "db_inv d" "r \<in> set (db_runs d)"
  shows "run_pipeline d (run_ID r) = Some (pipeline_of d r)"
  using find_by_in [OF db_inv_keys(2) [OF assms(1)] assms(2)] by (simp add: run_pipeline_def)

text \<open>
  A forward simulation, for any number of components \<open>i\<close> that are observed one at a time: a step between invariant
  states whose target is \<open>good\<close> is matched by at most one abstract step of each component.
\<close>

locale forward_simulation = invariant_system +
  fixes good :: "'s \<Rightarrow> bool" and view :: "'s \<Rightarrow> 'i \<Rightarrow> 'a option" and astep :: "'a \<Rightarrow> 'a \<Rightarrow> bool"
  assumes matched: "inv s \<Longrightarrow> step s t \<Longrightarrow> good t \<Longrightarrow> view s i = Some a \<Longrightarrow> \<exists>b. view t i = Some b \<and> (b = a \<or> astep a b)"
begin

lemma steps_matched:
  assumes "(\<lambda>s t. step s t \<and> good t)\<^sup>*\<^sup>* s t" "inv s" "view s i = Some a"
  shows "\<exists>b. view t i = Some b \<and> astep\<^sup>*\<^sup>* a b"
proof -
  have "inv t \<and> (\<exists>b. view t i = Some b \<and> astep\<^sup>*\<^sup>* a b)"
    using assms(1)
  proof (induction rule: rtranclp_induct)
    case base
    then show ?case using assms(2,3) by blast
  next
    case (step t u)
    then obtain b where b: "inv t" "view t i = Some b" "astep\<^sup>*\<^sup>* a b" by blast
    obtain c where "view u i = Some c" "c = b \<or> astep b c" using matched [OF b(1) _ _ b(2)] step.hyps(2) by blast
    then show ?case using b inv_step step.hyps(2) by (metis rtranclp.rtrancl_into_rtrancl)
  qed
  then show ?thesis by blast
qed

end

interpretation pipe: forward_simulation cp_init cp_step db_inv no_legacy_order run_pipeline pipe_step
proof
  fix d d' i p assume d: "db_inv d" "cp_step d d'" "no_legacy_order d'" "run_pipeline d i = Some p"
  then obtain r where r: "r \<in> set (db_runs d)" "run_ID r = i" "p = pipeline_of d r"
    by (auto simp: run_pipeline_def dest: find_by_SomeD)
  obtain r' where "r' \<in> set (db_runs d')" "run_ID r' = i" "pipeline_of d' r' = p \<or> pipe_step p (pipeline_of d' r')"
    using cp_step_simulates [OF d(2,1) r(1) d(3)] r unfolding simulates_def by auto
  then show "\<exists>q. run_pipeline d' i = Some q \<and> (q = p \<or> pipe_step p q)"
    using run_pipeline_row [OF cp.inv_step [OF d(1,2)]] by metis
qed

text \<open>What the pipelines themselves guarantee.\<close>

lemma pipe_step_attempt: "pipe_step p q \<Longrightarrow> fst p \<le> fst q"
  by (cases p q rule: pipe_step.cases) auto

lemma pipe_steps_attempt: "pipe_step\<^sup>*\<^sup>* p q \<Longrightarrow> fst p \<le> fst q"
  by (induction rule: rtranclp_induct) (auto dest: pipe_step_attempt)

lemma pipe_success_final:
  assumes "pipe_step\<^sup>*\<^sup>* (a, n, Ended RunStatusSuccess) (b, m, p)" "b = a"
  shows "(b, m, p) = (a, n, Ended RunStatusSuccess)"
  using assms(1)
proof (cases rule: converse_rtranclpE)
  case (step q)
  then have "fst q = a + 1" by (auto elim: pipe_step.cases)
  then show ?thesis using pipe_steps_attempt [OF step(2)] assms(2) by simp
qed simp

end
