(* ===== verification/Progress.thy ===== *)
theory Progress
  imports Pipeline
begin

text \<open>
  Progress: a queued job can be claimed by any eligible node, the holder of a running job can complete it, and
  so from every reachable state an active run can be driven to success.
\<close>

section \<open>Claiming\<close>

text \<open>An eligible node for a run: enrolled, not drained, and no other node holds a job of the attempt.\<close>

definition eligible :: "db \<Rightarrow> run \<Rightarrow> node_id \<Rightarrow> bool" where
  "eligible d r n \<longleftrightarrow> \<not> IsEmpty n \<and> n \<noteq> [] \<and> (\<exists>nd \<in> set (db_nodes d). node_ID nd = n \<and> \<not> node_Drained nd) \<and>
     (\<forall>k \<in> set (db_jobs d). job_RunID k = run_ID r \<longrightarrow> job_Attempt k = run_Attempt r \<longrightarrow> job_NodeID k = None \<or> job_NodeID k = Some n)"

lemma eligible_claimable:
  assumes inv: "db_inv d" and j: "j \<in> set (db_jobs d)" "job_Status j = JobStatusQueued"
    and r: "r \<in> set (db_runs d)" "run_ID r = job_RunID j" "eligible d r n"
    and nd: "nd \<in> set (db_nodes d)" "node_ID nd = n" "\<not> node_Drained nd"
  shows "claimable d nd j"
proof -
  obtain q w where q: "q \<in> set (db_runs d)" "run_ID q = job_RunID j" "run_Status q = RunStatusRunning" "run_Attempt q = job_Attempt j"
      and w: "w \<in> set (db_waves d)" "wave_ID w = run_WaveID q" "wave_Status w = WaveStatusStarted"
    by (rule active_job_context [OF inv j(1)]) (simp add: j(2) is_active_job_def)
  have "q = r" using distinct_key_eq [OF db_inv_keys(2) [OF inv] q(1) r(1)] q(2) r(2) by simp
  have "find_by run_ID (job_RunID j) (db_runs d) = Some q" using find_by_in [OF db_inv_keys(2) [OF inv] q(1)] q(2) by simp
  moreover have "find_by wave_ID (run_WaveID q) (db_waves d) = Some w" using find_by_in [OF db_inv_keys(3) [OF inv] w(1)] w(2) by simp
  moreover have "job_NodeID k = None \<or> job_NodeID k = Some n"
    if "k \<in> set (db_jobs d)" "job_RunID k = job_RunID j" "job_Attempt k = job_Attempt j" for k
    using r(3) that q(2,4) \<open>q = r\<close> unfolding eligible_def by metis
  ultimately show ?thesis using j q(3) w(3) r(3) nd unfolding claimable_def eligible_def by auto
qed

lemma queued_job_claimed:
  assumes inv: "db_inv d" and j: "j \<in> set (db_jobs d)" "job_Status j = JobStatusQueued"
    and r: "r \<in> set (db_runs d)" "run_ID r = job_RunID j" "eligible d r n"
  shows "ClaimJob now (\<lambda>i. i \<noteq> job_ID j) n d =
    Inr (start_job now n j, d\<lparr>db_jobs := map (at_id (job_ID j) (start_job now n)) (db_jobs d)\<rparr>)"
proof -
  obtain nd where nd: "nd \<in> set (db_nodes d)" "node_ID nd = n" "\<not> node_Drained nd" using r(3) by (auto simp: eligible_def)
  note c = eligible_claimable [OF inv j r nd]
  have "filter (\<lambda>k. claimable d nd k \<and> \<not> job_ID k \<noteq> job_ID j) (db_jobs d) = [j]"
  proof -
    have "filter (\<lambda>k. claimable d nd k \<and> \<not> job_ID k \<noteq> job_ID j) xs = filter (\<lambda>k. k = j) xs" if "set xs \<subseteq> set (db_jobs d)" for xs
      using that c distinct_key_eq [OF db_inv_keys(1) [OF inv] _ j(1)] by (intro filter_cong) auto
    moreover have "filter (\<lambda>k. k = j) xs = [j]" if "distinct xs" "j \<in> set xs" for xs :: "job list"
      using that by (induction xs) (auto simp: filter_empty_conv)
    moreover have "distinct (db_jobs d)" using db_inv_keys(1) [OF inv] by (simp add: distinct_map)
    ultimately show ?thesis using j(1) by simp
  qed
  moreover have "find_by node_ID n (db_nodes d) = Some nd" using find_by_in [OF db_inv_keys(4) [OF inv] nd(1)] nd(2) by simp
  ultimately show ?thesis using r(3) by (simp add: ClaimJob_def ClaimJob_query_def eligible_def update_where_at_id)
qed

section \<open>Completing\<close>

text \<open>The holder of a running job can report its end, whatever the outcome is.\<close>

lemma persist_completion_accepts:
  assumes keys: "distinct (map job_ID (db_jobs d))" and j: "j \<in> set (db_jobs d)" and dur: "0 \<le> completion_duration now j"
    and stats: "sp_JobMeta (ci_StatsPayload inp) = RawEmpty"
  shows "persist_completion now inp (output_sha inp j) j d =
    Inr (RawJson (job_Meta j), d\<lparr>db_jobs := map (completion_rows now inp j) (db_jobs d)\<rparr>)"
proof -
  have f: "find_by job_ID (job_ID j) (db_jobs d) = Some j" using keys j by (rule find_by_in)
  have row: "complete_job now (ci_Status inp) (ci_ExitCode inp) (output_sha inp j) None = complete_by now inp j"
    using stats by (simp add: complete_by_def completed_meta_def HasJobMeta_def)
  have "\<not> job_DurationMs (complete_by now inp j j) < 0" using dur completed_row_fields(10) [of now inp j] by (simp add: completed_row_def)
  then have "UpdateJobCompletion now (ci_Status inp) (ci_ExitCode inp) (output_sha inp j) (job_ID j) d =
      Inr (d\<lparr>db_jobs := map (completion_rows now inp j) (db_jobs d)\<rparr>)"
    using f by (simp add: UpdateJobCompletion_def complete_rows_def Let_def row completed_row_def [symmetric] update_where_at_id
        update_where_def completion_rows_def hand_over_def comp_def)
  then show ?thesis using stats by (simp add: persist_completion_def Let_def HasJobMeta_def)
qed

lemma complete_accepts:
  assumes inv: "db_inv d" and foc: "job_focus d j r pre post" and run: "job_Status j = JobStatusRunning"
    and node: "job_NodeID j = Some (ci_NodeID inp)" and dur: "0 \<le> completion_duration now j" and st: "terminal_job_status (ci_Status inp)"
    and sha: "ci_Status inp = JobStatusSuccess \<Longrightarrow> post \<noteq> [] \<Longrightarrow> IsCanonicalFullCommitSHA (job_RepoShaIn j) \<and> output_sha inp j \<noteq> []"
    and stats: "sp_JobMeta (ci_StatsPayload inp) = RawEmpty" "sp_JobResources (ci_StatsPayload inp) = None"
  shows "\<exists>ro d'. complete now goNow inp j d = Inr (ro, d')"
proof -
  note D = job_focusD [OF foc] and K = db_inv_keys [OF inv]
  define d2 where "d2 = d\<lparr>db_jobs := map (completion_rows now inp j) (db_jobs d)\<rparr>"
  have nxt: "job_NextID j = (case post of [] \<Rightarrow> None | y # _ \<Rightarrow> Some (job_ID y))"
    using D(4) by (intro is_chain_at [of job_ID job_NextID pre]) (simp add: chain_ok_def)
  have "complete now goNow inp j d = post_actions now goNow inp j (RawJson (job_Meta j)) d2"
    using run node sha nxt persist_completion_accepts [OF K(1) D(1) dur stats(1)] stats(2)
    by (cases post) (auto simp: complete_def post_actions_def persist_metrics_def d2_def Let_def)
  moreover have "\<exists>x. post_actions now goNow inp j (RawJson (job_Meta j)) d2 = Inr x"
  proof (cases "ci_Status inp = JobStatusSuccess")
    case True
    show ?thesis
    proof (cases post)
      case Nil
      then show ?thesis using post_actions_last [OF True] nxt by simp
    next
      case (Cons y ys)
      obtain y' where "PromoteJobByIDIfUnblocked (\<lambda>_. False) (job_ID y) d2 =
          Inr (y', d2\<lparr>db_jobs := map (advance_rows now inp j y) (db_jobs d)\<rparr>)"
        using promote_successor [OF inv foc [unfolded Cons] run True, of d2] by (auto simp: d2_def)
      then show ?thesis using nxt Cons by (simp add: post_actions_def onFail_def onCancelled_def onSuccess_def lift_store_def True)
    qed
  next
    case False
    have "post_actions now goNow inp j (RawJson (job_Meta j)) d2 = Inr (reconcileRepoRun now j
        ((set_error (job_RunID j) (completion_error_text inp j (RawJson (job_Meta j))) d2)
          \<lparr>db_jobs := map (fail_rows now goNow inp j post) (db_jobs d)\<rparr>))"
      by (rule post_actions_fail [OF st False], rule complete_fail_cancel [OF inv foc run]) (simp add: d2_def)
    then show ?thesis by blast
  qed
  ultimately show ?thesis by (metis surj_pair)
qed

section \<open>Driving a run to success\<close>

text \<open>One more job: claim it if it is queued, then complete it.\<close>

definition success_report :: "run \<Rightarrow> job \<Rightarrow> node_id \<Rightarrow> string \<Rightarrow> completionInput" where
  "success_report r j n sha = \<lparr>ci_JobID = job_ID j, ci_NodeID = n, ci_Status = JobStatusSuccess, ci_ExitCode = Some 0,
     ci_StatsPayload = empty_stats\<lparr>sp_ResumeCount := ResumeCount (run_Stats r)\<rparr>, ci_RepoSHAOut = sha\<rparr>"

lemma success_report_fields [simp]:
  "ci_JobID (success_report r j n sha) = job_ID j" "ci_NodeID (success_report r j n sha) = n"
  "ci_Status (success_report r j n sha) = JobStatusSuccess"
  "ci_StatsPayload (success_report r j n sha) = empty_stats\<lparr>sp_ResumeCount := ResumeCount (run_Stats r)\<rparr>"
  "IsCanonicalFullCommitSHA sha \<Longrightarrow> output_sha (success_report r j n sha) k \<noteq> []"
  by (auto simp: success_report_def output_sha_def normalizeRepoSHA_def IsCanonicalFullCommitSHA_def NormalizeFullCommitSHA_def
      Let_def split: if_splits)

text \<open>The commits that reach a job are full hashes once the run starts from one.\<close>

lemma ready_sha_in:
  assumes ok: "chain_ok sha0 (pre @ j # post)" and sha: "IsCanonicalFullCommitSHA sha0" and st: "ready_status (job_Status j)"
  shows "IsCanonicalFullCommitSHA (job_RepoShaIn j)"
proof (cases pre rule: rev_cases)
  case Nil
  then show ?thesis using ok sha by (simp add: chain_ok_def)
next
  case (snoc p k)
  have "sha_links (p @ k # j # post)" using ok snoc by (simp add: chain_ok_def)
  then have "sha_links (k # j # post)" using sha_links_append by blast
  moreover have "job_Status k = JobStatusSuccess" using chain_ok_ready(1) [OF ok st] snoc by simp
  ultimately show ?thesis by simp
qed

lemma running_job_advances:
  assumes inv: "db_inv d" and foc: "job_focus d j r pre post" and run: "job_Status j = JobStatusRunning" and n: "job_NodeID j = Some n"
    and sha0: "IsCanonicalFullCommitSHA (run_RepoSha0 r)" and sha: "IsCanonicalFullCommitSHA sha"
  obtains now ro d' where "cp_step d d'" "complete now 0 (success_report r j n sha) j d = Inr (ro, d')"
proof -
  note D = job_focusD [OF foc]
  have st: "ready_status (job_Status j)" "is_active_job j" by (simp_all add: run ready_status_def is_active_job_def)
  obtain s where s: "job_StartedAt j = Some s" using D(4) run by (auto simp: chain_ok_def job_ok_def)
  let ?inp = "success_report r j n sha"
  obtain ro d' where c: "complete s 0 ?inp j d = Inr (ro, d')"
    using complete_accepts [OF inv foc run, of ?inp s 0] ready_sha_in [OF D(4) sha0 st(1)] sha n
    by (auto simp: completion_duration_def s pg_interval_ms_nonneg terminal_job_status_def empty_stats_def)
  have "GetJob (job_ID j) d = Inr j" "GetRun (job_RunID j) d = Inr r"
    using GetJob_row [OF inv D(1)] GetRun_row [OF inv D(2)] D(3) by simp_all
  then have "WithJobExecution StoreFailure (ci_JobID ?inp) (sp_ResumeCount (ci_StatsPayload ?inp)) (complete s 0 ?inp) d = Inr (ro, d')"
    using c active_job_run(1) [OF inv foc st(2)] by (simp add: WithJobExecution_def)
  then have "cp_step d d'" by (rule cp_step.complete) (simp add: terminal_job_status_def)
  then show thesis using c by (rule that)
qed

lemma chain_focus:
  assumes "db_inv d" "r \<in> set (db_runs d)" "current_chain d r = pre @ j # post"
  shows "job_focus d j r pre post" "job_Attempt j = run_Attempt r"
proof -
  have j: "j \<in> set (db_jobs d)" "job_RunID j = run_ID r" "job_Attempt j = run_Attempt r"
    using current_chain_set [OF assms(1,2), of j] assms(3) by simp_all
  then show "job_focus d j r pre post" "job_Attempt j = run_Attempt r"
    using current_chain(1,4) [OF assms(1,2)] assms(2,3) by (simp_all add: job_focus_def)
qed

lemma eligible_map:
  assumes "eligible d r n" "db_jobs d' = map f (db_jobs d)" "db_nodes d' = db_nodes d" "keeps_key f"
    and "\<And>k. job_NodeID (f k) = job_NodeID k \<or> job_NodeID (f k) = Some n"
  shows "eligible d' r n"
  using assms keeps_keyD [OF assms(4)] unfolding eligible_def by (auto simp: assms(2,3)) metis

lemma start_job_status [simp]: "job_Status (start_job now n j) = JobStatusRunning"
  by (simp add: start_job_def)

lemma claim_step:
  assumes inv: "db_inv d" and r: "r \<in> set (db_runs d)" and el: "eligible d r n"
    and c: "current_chain d r = pre @ j # post" and q: "job_Status j = JobStatusQueued"
  obtains d' where "cp_step d d'" "db_runs d' = db_runs d" "eligible d' r n" "current_chain d' r = pre @ start_job 0 n j # post"
proof -
  note foc = chain_focus [OF inv r c] and D = job_focusD [OF chain_focus(1) [OF inv r c]]
  let ?f = "at_id (job_ID j) (start_job 0 n)"
  define d' where "d' = d\<lparr>db_jobs := map ?f (db_jobs d)\<rparr>"
  have cl: "ClaimJob 0 (\<lambda>i. i \<noteq> job_ID j) n d = Inr (start_job 0 n j, d')"
    unfolding d'_def using queued_job_claimed [OF inv D(1) q r D(3) [symmetric] el] .
  have key: "keeps_key ?f" by (rule keeps_key_at_id) (simp add: keeps_key_def start_job_def)
  have "current_chain d' r = map ?f (pre @ j # post)" using current_chain_map [OF inv r key, of d' r] c by (simp add: d'_def)
  also have "\<dots> = pre @ start_job 0 n j # post" by (rule map_at_id [OF job_focus_distinct [OF foc(1)]])
  finally have "current_chain d' r = pre @ start_job 0 n j # post" .
  moreover have "eligible d' r n"
    by (rule eligible_map [OF el _ _ key]) (auto simp: d'_def at_id_def start_job_def)
  ultimately show thesis using that cp_step.claim [OF cl] by (simp add: d'_def)
qed

lemma holder:
  assumes "db_inv d" "r \<in> set (db_runs d)" "eligible d r n" "current_chain d r = pre @ j # post" "job_Status j = JobStatusRunning"
  shows "job_NodeID j = Some n"
proof -
  have "job_NodeID j \<noteq> None" using current_chain(1) [OF assms(1,2)] assms(4,5) by (auto simp: chain_ok_def job_ok_def)
  moreover have "j \<in> set (db_jobs d)" "job_RunID j = run_ID r" "job_Attempt j = run_Attempt r"
    using current_chain_set [OF assms(1,2), of j] assms(4) by simp_all
  then have "job_NodeID j = None \<or> job_NodeID j = Some n" using assms(3) unfolding eligible_def by blast
  ultimately show ?thesis by (cases "job_NodeID j") auto
qed

lemma last_job_succeeds:
  assumes inv: "db_inv d" and r: "r \<in> set (db_runs d)" and el: "eligible d r n" and sha0: "IsCanonicalFullCommitSHA (run_RepoSha0 r)"
    and c: "current_chain d r = pre @ [j]" and run: "job_Status j = JobStatusRunning"
  shows "\<exists>d' r'. cp_step d d' \<and> r' \<in> set (db_runs d') \<and> run_ID r' = run_ID r \<and> run_Status r' = RunStatusSuccess"
proof -
  note foc = chain_focus(1) [OF inv r c]
  obtain now ro d' where st: "cp_step d d'" and co: "complete now 0 (success_report r j n (run_RepoSha0 r)) j d = Inr (ro, d')"
    using running_job_advances [OF inv foc run holder [OF inv r el c run] sha0 sha0] by blast
  have "db_runs d' = set_run (set_run_status now RunStatusSuccess r) (db_runs d)"
    using complete_last_status(3) [OF inv foc _ co] by simp
  then have "set_run_status now RunStatusSuccess r \<in> set (db_runs d')" using r by (auto simp: in_set_run)
  then show ?thesis using st by (metis set_run_status_fields(1,6))
qed

lemma next_job_queued:
  assumes inv: "db_inv d" and r: "r \<in> set (db_runs d)" and el: "eligible d r n" and sha0: "IsCanonicalFullCommitSHA (run_RepoSha0 r)"
    and c: "current_chain d r = pre @ j # y # ys" and run: "job_Status j = JobStatusRunning"
  obtains d' pre' y' where "cp_step d d'" "db_runs d' = db_runs d" "eligible d' r n" "current_chain d' r = pre' @ y' # ys"
    "job_Status y' = JobStatusQueued"
proof -
  note foc = chain_focus(1) [OF inv r c] and D = job_focusD [OF chain_focus(1) [OF inv r c]]
  let ?inp = "success_report r j n (run_RepoSha0 r)"
  obtain now ro d' where st: "cp_step d d'" and co: "complete now 0 ?inp j d = Inr (ro, d')"
    using running_job_advances [OF inv foc run holder [OF inv r el c run] sha0 sha0] by blast
  note A = complete_advance [OF inv foc _ co, simplified]
  let ?f = "advance_rows now ?inp j y" and ?y = "(hand_over (completed_row now ?inp j) y)\<lparr>job_Status := JobStatusQueued\<rparr>"
  have "current_chain d' r = map ?f (pre @ j # y # ys)" using current_chain_map [OF inv r keeps_key_advance_rows A(3)] c by simp
  also have "\<dots> = pre @ completed_row now ?inp j # ?y # ys" by (rule advance_rows_chain [OF D(4)])
  finally have "current_chain d' r = (pre @ [completed_row now ?inp j]) @ ?y # ys" by simp
  moreover have "eligible d' r n"
    by (rule eligible_map [OF el A(3) _ keeps_key_advance_rows])
      (simp_all add: A advance_rows_def at_id_def completion_rows_node)
  ultimately show thesis using that [OF st A(4)] by simp
qed

lemma make_running:
  assumes inv: "db_inv d" "r \<in> set (db_runs d)" "eligible d r n" and c: "current_chain d r = pre @ j # post" and st: "ready_status (job_Status j)"
  obtains e k where "cp_step\<^sup>*\<^sup>* d e" "db_runs e = db_runs d" "eligible e r n" "current_chain e r = pre @ k # post"
    "job_Status k = JobStatusRunning" "db_inv e"
proof (cases "job_Status j = JobStatusRunning")
  case True
  then show thesis using that [of d j] inv c by simp
next
  case False
  then have "job_Status j = JobStatusQueued" using st by (simp add: ready_status_def)
  then obtain e where "cp_step d e" "db_runs e = db_runs d" "eligible e r n" "current_chain e r = pre @ start_job 0 n j # post"
    using claim_step [OF inv c] by blast
  then show thesis using that [OF r_into_rtranclp] cp.inv_step [OF inv(1)] start_job_status by blast
qed

lemma run_can_succeed:
  assumes "db_inv d" "r \<in> set (db_runs d)" "eligible d r n" "IsCanonicalFullCommitSHA (run_RepoSha0 r)"
    and "current_chain d r = pre @ j # post" "ready_status (job_Status j)"
  shows "\<exists>d' r'. cp_step\<^sup>*\<^sup>* d d' \<and> r' \<in> set (db_runs d') \<and> run_ID r' = run_ID r \<and> run_Status r' = RunStatusSuccess"
  using assms
proof (induction post arbitrary: d pre j)
  case Nil
  obtain e k where e: "cp_step\<^sup>*\<^sup>* d e" "db_runs e = db_runs d" "eligible e r n" "current_chain e r = pre @ [k]"
      "job_Status k = JobStatusRunning" "db_inv e"
    using Nil.prems(1-3,5,6) by (rule make_running)
  obtain d' r' where "cp_step e d'" "r' \<in> set (db_runs d')" "run_ID r' = run_ID r" "run_Status r' = RunStatusSuccess"
    using last_job_succeeds [OF e(6) _ e(3) Nil.prems(4) e(4,5)] e(2) Nil.prems(2) by auto
  then show ?case using e(1) by (meson rtranclp.rtrancl_into_rtrancl)
next
  case (Cons y ys)
  obtain e k where e: "cp_step\<^sup>*\<^sup>* d e" "db_runs e = db_runs d" "eligible e r n" "current_chain e r = pre @ k # y # ys"
      "job_Status k = JobStatusRunning" "db_inv e"
    using Cons.prems(1-3,5,6) by (rule make_running)
  have r: "r \<in> set (db_runs e)" using e(2) Cons.prems(2) by simp
  obtain d' pre' y' where d': "cp_step e d'" "db_runs d' = db_runs e" "eligible d' r n" "current_chain d' r = pre' @ y' # ys"
      "job_Status y' = JobStatusQueued"
    using e(6) r e(3) Cons.prems(4) e(4,5) by (rule next_job_queued)
  have "ready_status (job_Status y')" by (simp add: d'(5) ready_status_def)
  then obtain d'' r' where "cp_step\<^sup>*\<^sup>* d' d''" "r' \<in> set (db_runs d'')" "run_ID r' = run_ID r" "run_Status r' = RunStatusSuccess"
    using Cons.IH [OF cp.inv_step [OF e(6) d'(1)] _ d'(3) Cons.prems(4) d'(4)] r d'(2) by auto
  moreover have "cp_step\<^sup>*\<^sup>* d d'" using e(1) d'(1) by (rule rtranclp.rtrancl_into_rtrancl)
  ultimately show ?case by (meson rtranclp_trans)
qed

end
