(* ===== verification/Sample_Run.thy ===== *)
theory Sample_Run
  imports Progress
begin

text \<open>
  A concrete run of the control plane, for instantiating the theorems: one node, one repository, a wave
  with one run of two jobs. The states follow the operations; that each is invariant follows from the
  operations, not from the data.
\<close>

definition sample_node :: "node_id \<Rightarrow> string \<Rightarrow> node" where
  "sample_node i ip = certify \<lparr>be_TokenID = ''t'', be_NodeID = i, be_CertSerial = ''1'', be_CertFingerprint = ''f'',
       be_CertNotBefore = 0, be_CertNotAfter = 100\<rparr>
     (new_node 0 \<lparr>cn_ID = i, cn_Name = ''node-'' @ i, cn_IpAddress = ip, cn_Version = None, cn_Concurrency = 1\<rparr>)"

definition sample_sha :: "char \<Rightarrow> string" where
  "sample_sha c = replicate 40 c"

definition sample_init :: db where
  "sample_init = \<lparr>db_jobs = [], db_runs = [], db_waves = [],
     db_nodes = [sample_node ''n1'' ''10.0.0.1'', sample_node ''n2'' ''10.0.0.2''],
     db_repos = [\<lparr>repo_ID = ''p1'', repo_Url = ''https://git/p1''\<rparr>], db_migs = [''m1''], db_specs = [''s1''],
     db_mig_repos = [(''m1'', ''p1'')], db_logs = [], db_sboms = [], db_job_metrics = [], db_node_metrics = [],
     db_bootstrap_tokens = [], db_api_tokens = []\<rparr>"

definition sample_ids :: "nat \<Rightarrow> nat \<Rightarrow> job_id" where
  "sample_ids k i = replicate k CHR ''r'' @ CHR ''j'' # replicate i CHR ''x''"

definition sample_wave :: CreateWaveParams where
  "sample_wave = \<lparr>cw_ID = ''w1'', cw_MigID = ''m1'', cw_SpecID = ''s1'', cw_CreatedBy = Some ''ops''\<rparr>"

definition sample_job_plans :: "JobPlan list" where
  "sample_job_plans =
     [\<lparr>plan_Name = ''pre-gate'', plan_JobType = JobTypePreGate, plan_JobImage = [], plan_Meta = RawJson (JObj [(''kind'', JStr ''gate'')])\<rparr>,
      \<lparr>plan_Name = ''mig-0'', plan_JobType = JobTypeMig, plan_JobImage = ''img'', plan_Meta = RawJson (JObj [(''kind'', JStr ''mig'')])\<rparr>]"

definition sample_plan :: RunPlan where
  "sample_plan = \<lparr>rp_ID = ''u1'', rp_RepoID = ''p1'', rp_RepoBaseRef = ''main'', rp_SourceCommitSha = [],
     rp_RepoSha0 = sample_sha CHR ''a'', rp_Stats = RawJson (JObj []), rp_Jobs = sample_job_plans\<rparr>"

definition sample_job :: "nat \<Rightarrow> job" where
  "sample_job i = new_job (planned_job (sample_ids 0) (new_run 10 sample_wave sample_plan (JObj [])) sample_job_plans i)
     (JObj [(''kind'', JStr (if i = 0 then ''gate'' else ''mig''))])"

definition sample_submitted :: db where
  "sample_submitted = sample_init\<lparr>db_jobs := [sample_job 1, sample_job 0],
     db_runs := [new_run 10 sample_wave sample_plan (JObj [])], db_waves := [new_wave 10 sample_wave]\<rparr>"

definition sample_claimed :: db where
  "sample_claimed = sample_submitted\<lparr>db_jobs := [sample_job 1, start_job 20 ''n1'' (sample_job 0)]\<rparr>"

lemma in_dropWhile: "x \<in> set s \<Longrightarrow> \<not> P x \<Longrightarrow> x \<in> set (dropWhile P s)"
  by (induction s) auto

lemma sample_ids_ok: "\<forall>k i. \<not> IsEmpty (sample_ids k i)"
proof (intro allI)
  fix k i
  have j: "\<not> is_space CHR ''j''" by (simp add: is_space_def)
  have "CHR ''j'' \<in> set (sample_ids k i)" by (simp add: sample_ids_def)
  then have "CHR ''j'' \<in> set (TrimSpace (sample_ids k i))" using j by (simp add: TrimSpace_def in_dropWhile)
  then show "\<not> IsEmpty (sample_ids k i)" by (auto simp: IsEmpty_def Normalize_def)
qed

lemma sample_submit:
  "CreateWaveWithRuns 10 sample_ids sample_wave [sample_plan] sample_init =
   Inr ((new_wave 10 sample_wave, [(new_run 10 sample_wave sample_plan (JObj []), [sample_job 0, sample_job 1])]), sample_submitted)"
  by code_simp

lemma sample_claim:
  "ClaimJob 20 (\<lambda>_. False) ''n1'' sample_submitted = Inr (start_job 20 ''n1'' (sample_job 0), sample_claimed)"
  by code_simp

lemma sample_init_ok: "cp_init sample_init"
  by code_simp

lemma sample_submitted_step: "cp_step sample_init sample_submitted"
  by (rule cp_step.submit [OF sample_submit sample_ids_ok])

lemma sample_claimed_step: "cp_step sample_submitted sample_claimed"
  by (rule cp_step.claim [OF sample_claim])

lemma sample_reachable:
  "reachable cp_init cp_step sample_init" "reachable cp_init cp_step sample_submitted" "reachable cp_init cp_step sample_claimed"
  by (blast intro: reachable.intros sample_init_ok sample_submitted_step sample_claimed_step)+

lemmas sample_inv = sample_reachable [THEN cp.reachable_inv]

section \<open>Completions\<close>

definition sample_completion :: "job_id \<Rightarrow> job_status \<Rightarrow> string \<Rightarrow> completionInput" where
  "sample_completion i status sha = \<lparr>ci_JobID = i, ci_NodeID = ''n1'', ci_Status = status,
     ci_ExitCode = Some (if status = JobStatusSuccess then 0 else 1),
     ci_StatsPayload = empty_stats, ci_RepoSHAOut = sha\<rparr>"

text \<open>The gate succeeds and the next job is queued; then that job is claimed and succeeds, and the wave is finished.\<close>

definition sample_passed :: db where
  "sample_passed = sample_claimed\<lparr>db_jobs :=
     [(sample_job 1)\<lparr>job_Status := JobStatusQueued, job_RepoShaIn := sample_sha CHR ''a'', job_RepoShaIn8 := replicate 8 CHR ''a''\<rparr>,
      (start_job 20 ''n1'' (sample_job 0))\<lparr>job_Status := JobStatusSuccess, job_ExitCode := Some 0, job_FinishedAt := Some 30,
        job_RepoShaOut := sample_sha CHR ''a'', job_RepoShaOut8 := replicate 8 CHR ''a''\<rparr>]\<rparr>"

definition sample_second :: db where
  "sample_second = sample_passed\<lparr>db_jobs := [start_job 40 ''n1'' (hd (db_jobs sample_passed)), db_jobs sample_passed ! 1]\<rparr>"

definition sample_done :: db where
  "sample_done = sample_second\<lparr>
     db_jobs := [(hd (db_jobs sample_second))\<lparr>job_Status := JobStatusSuccess, job_ExitCode := Some 0, job_FinishedAt := Some 50,
        job_RepoShaOut := sample_sha CHR ''b'', job_RepoShaOut8 := replicate 8 CHR ''b''\<rparr>, db_jobs sample_second ! 1],
     db_runs := [(new_run 10 sample_wave sample_plan (JObj []))\<lparr>run_Status := RunStatusSuccess, run_FinishedAt := Some 50\<rparr>],
     db_waves := [(new_wave 10 sample_wave)\<lparr>wave_Status := WaveStatusFinished, wave_FinishedAt := Some 51\<rparr>]\<rparr>"

text \<open>The gate fails.\<close>

definition sample_failed :: db where
  "sample_failed = sample_claimed\<lparr>
     db_jobs := [(sample_job 1)\<lparr>job_Status := JobStatusCancelled, job_FinishedAt := Some 30\<rparr>,
       (start_job 20 ''n1'' (sample_job 0))\<lparr>job_Status := JobStatusFail, job_ExitCode := Some 1, job_FinishedAt := Some 30\<rparr>],
     db_runs := [(new_run 10 sample_wave sample_plan (JObj []))\<lparr>run_Status := RunStatusCancelled, run_FinishedAt := Some 30\<rparr>],
     db_waves := [(new_wave 10 sample_wave)\<lparr>wave_Status := WaveStatusFinished, wave_FinishedAt := Some 31\<rparr>]\<rparr>"

lemma sample_pass:
  "Complete 30 30 31 (sample_completion ''j'' JobStatusSuccess []) sample_claimed = Inr (False, sample_passed)"
  by code_simp

lemma sample_second_claim:
  "ClaimJob 40 (\<lambda>_. False) ''n1'' sample_passed = Inr (hd (db_jobs sample_second), sample_second)"
  by code_simp

lemma sample_finish:
  "Complete 50 50 51 (sample_completion ''jx'' JobStatusSuccess (sample_sha CHR ''b'')) sample_second = Inr (True, sample_done)"
  by code_simp

lemma sample_fail:
  "Complete 30 30 31 (sample_completion ''j'' JobStatusFail []) sample_claimed = Inr (True, sample_failed)"
  by code_simp

lemma sample_gate: "GetJob ''j'' sample_claimed = Inr (start_job 20 ''n1'' (sample_job 0))"
  by code_simp

text \<open>The wave is cancelled while the gate runs.\<close>

definition sample_cancelled :: db where
  "sample_cancelled = sample_claimed\<lparr>
     db_jobs := map (cancel_active_job 25) [sample_job 1, start_job 20 ''n1'' (sample_job 0)],
     db_runs := [(new_run 10 sample_wave sample_plan (JObj []))\<lparr>run_Status := RunStatusCancelled, run_FinishedAt := Some 25\<rparr>],
     db_waves := [(new_wave 10 sample_wave)\<lparr>wave_Status := WaveStatusCancelled, wave_FinishedAt := Some 25\<rparr>]\<rparr>"

lemma sample_cancel: "CancelWave 25 ''w1'' sample_claimed = Inr sample_cancelled"
  by code_simp

lemma sample_cancelled_reachable: "reachable cp_init cp_step sample_cancelled"
  by (rule reachable.step [OF sample_reachable(3) cp_step.cancel_wave [OF sample_cancel]])

lemma sample_runs [simp]: "length (db_runs sample_claimed) = 1" "length (db_runs sample_second) = 1"
  by (simp_all add: sample_second_def sample_passed_def sample_claimed_def sample_submitted_def)

lemma sample_completion_fields [simp]:
  "ci_Status (sample_completion i s sha) = s" "ci_JobID (sample_completion i s sha) = i"
  by (simp_all add: sample_completion_def)

lemma sample_completed_reachable:
  "reachable cp_init cp_step sample_passed" "reachable cp_init cp_step sample_second"
  "reachable cp_init cp_step sample_done" "reachable cp_init cp_step sample_failed"
proof -
  show p: "reachable cp_init cp_step sample_passed"
    by (rule reachable_steps [OF Complete_steps [OF sample_inv(3) _ _ sample_pass] sample_reachable(3)])
      (simp_all add: terminal_job_status_def)
  show s: "reachable cp_init cp_step sample_second" by (rule reachable.step [OF p cp_step.claim [OF sample_second_claim]])
  show "reachable cp_init cp_step sample_done"
    by (rule reachable_steps [OF Complete_steps [OF cp.reachable_inv [OF s] _ _ sample_finish] s])
      (simp_all add: terminal_job_status_def)
  show "reachable cp_init cp_step sample_failed"
    by (rule reachable_steps [OF Complete_steps [OF sample_inv(3) _ _ sample_fail] sample_reachable(3)])
      (simp_all add: terminal_job_status_def)
qed

section \<open>Restarts\<close>

definition sample_restart :: "bool \<Rightarrow> RestartRunParams" where
  "sample_restart fromFailed = \<lparr>rr_FromFailed = fromFailed, rr_ExpectedResumeCount = 0, rr_RunID = ''u1'', rr_ExpectedAttempt = 1,
     rr_Stats = RawEmpty, rr_Jobs = sample_job_plans\<rparr>"

text \<open>The finished run is started again; the failed run is resumed at its gate.\<close>

definition sample_attempt2 :: run where
  "sample_attempt2 = (new_run 10 sample_wave sample_plan (JObj []))\<lparr>run_Attempt := 2, run_StartedAt := Some 60\<rparr>"

definition sample_restarted :: db where
  "sample_restarted = sample_done\<lparr>
     db_jobs := db_jobs sample_done @ map (\<lambda>i. (sample_job i)\<lparr>job_ID := sample_ids 1 i, job_Attempt := 2,
       job_NextID := (if i = 0 then Some (sample_ids 1 1) else None)\<rparr>) [1, 0],
     db_runs := [sample_attempt2], db_waves := [new_wave 10 sample_wave]\<rparr>"

definition sample_resumed :: db where
  "sample_resumed = sample_failed\<lparr>
     db_jobs := [sample_job 1, (sample_job 0)\<lparr>job_NodeID := Some ''n1''\<rparr>],
     db_runs := [(new_run 10 sample_wave sample_plan
       (JObj [(''resume_count'', JInt 1), (''last_resumed_at'', JStr ''t60'')]))],
     db_waves := [new_wave 10 sample_wave]\<rparr>"

lemma sample_restart_full: "RestartRun 60 ''t60'' (sample_ids 1) (sample_restart False) sample_done = Inr (sample_attempt2, sample_restarted)"
  by code_simp

lemma sample_resume:
  "RestartRun 60 ''t60'' (sample_ids 1) (sample_restart True) sample_failed = Inr (hd (db_runs sample_resumed), sample_resumed)"
  by code_simp

lemma sample_restarted_step: "cp_step sample_done sample_restarted" "cp_step sample_failed sample_resumed"
  using cp_step.restart [OF sample_restart_full] cp_step.restart [OF sample_resume] sample_ids_ok by blast+

lemma sample_restarted_reachable: "reachable cp_init cp_step sample_restarted" "reachable cp_init cp_step sample_resumed"
  using reachable.step [OF sample_completed_reachable(3) sample_restarted_step(1)]
    reachable.step [OF sample_completed_reachable(4) sample_restarted_step(2)] by blast+

end
