(* ===== verification/Execution_Properties.thy ===== *)
theory Execution_Properties
  imports Sample_Run
begin

text \<open>
  Properties of runs, waves and jobs: what every reachable state of the control plane satisfies, and what
  each operation does in a reachable state. Every theorem with a hypothesis is applied to a state of the
  sample run.
\<close>

section \<open>Reachable states\<close>



text \<open>
  C5. At any moment a run has at most one job that is queued or running, over all its attempts.
\<close>

theorem single_ready_job:
  assumes "reachable cp_init cp_step d" "j \<in> set (db_jobs d)" "k \<in> set (db_jobs d)" "job_RunID k = job_RunID j"
    and "job_Status j \<in> {JobStatusQueued, JobStatusRunning}" "job_Status k \<in> {JobStatusQueued, JobStatusRunning}"
  shows "k = j"
  using assms ready_job_unique [OF cp.reachable_inv [OF assms(1)]] by (simp add: ready_status_def)

theorem single_ready_job_witness: "db_jobs sample_claimed ! 1 = start_job 20 ''n1'' (sample_job 0)"
  by (rule single_ready_job [OF sample_reachable(3)])
    (simp_all add: sample_claimed_def start_job_def)

text \<open>
  C4. A claim hands out the next job of a chain: the job was queued, every job before it in the chain
  has succeeded and every job after it has not started; its run is running at the attempt of the job and its
  wave is started; the predecessor's output commit is the input commit of the job; and no other node
  holds a job of the attempt.
\<close>

theorem claim_hands_out_next_job:
  assumes "reachable cp_init cp_step d" and "ClaimJob now locked nodeID d = Inr (j', d')"
  shows "\<exists>j r w pre post. j' = start_job now nodeID j \<and> job_Status j = JobStatusQueued \<and>
      Order job_ID job_NextID (ListJobsByRunAttempt (job_RunID j) (job_Attempt j) d) = pre @ j # post \<and>
      (\<forall>k \<in> set pre. job_Status k = JobStatusSuccess) \<and> (\<forall>k \<in> set post. job_Status k = JobStatusCreated) \<and>
      (pre \<noteq> [] \<longrightarrow> job_RepoShaOut (last pre) = job_RepoShaIn j) \<and>
      (\<forall>k \<in> set (pre @ post). job_NodeID k = None \<or> job_NodeID k = Some nodeID) \<and>
      r \<in> set (db_runs d) \<and> run_ID r = job_RunID j \<and> run_Status r = RunStatusRunning \<and> run_Attempt r = job_Attempt j \<and>
      w \<in> set (db_waves d) \<and> wave_ID w = run_WaveID r \<and> wave_Status w = WaveStatusStarted"
proof -
  have inv: "db_inv d" by (rule cp.reachable_inv [OF assms(1)])
  obtain n j where n: "node_ID n = nodeID" and j: "j \<in> set (db_jobs d)" "claimable d n j" "j' = start_job now nodeID j"
    using assms(2) by (rule ClaimJob_Inr)
  obtain r0 pre post where foc: "job_focus d j r0 pre post" using inv j(1) by (rule job_focusE)
  note D = job_focusD [OF foc]
  have q: "job_Status j = JobStatusQueued" and own: "\<not> (\<exists>owner \<in> set (db_jobs d). job_RunID owner = job_RunID j \<and>
      job_Attempt owner = job_Attempt j \<and> job_NodeID owner \<noteq> None \<and> job_NodeID owner \<noteq> Some nodeID)"
    using j(2) n by (simp_all add: claimable_def)
  have ready: "ready_status (job_Status j)" by (simp add: q ready_status_def)
  obtain r w where ctx: "r \<in> set (db_runs d)" "run_ID r = job_RunID j" "run_Status r = RunStatusRunning"
      "run_Attempt r = job_Attempt j" "w \<in> set (db_waves d)" "wave_ID w = run_WaveID r" "wave_Status w = WaveStatusStarted"
    by (rule active_job_context [OF inv j(1)]) (simp add: q is_active_job_def)
  have ord: "Order job_ID job_NextID (ListJobsByRunAttempt (job_RunID j) (job_Attempt j) d) = pre @ j # post"
    using job_focus_Order [OF inv foc] D(3) by simp
  have sha: "job_RepoShaOut (last pre) = job_RepoShaIn j" if "pre \<noteq> []"
  proof -
    obtain p k where pk: "pre = p @ [k]" using \<open>pre \<noteq> []\<close> by (metis rev_exhaust)
    have "sha_links (p @ k # j # post)" using D(4) pk by (simp add: chain_ok_def)
    then have "sha_links (k # j # post)" using sha_links_append by blast
    then show ?thesis using chain_ok_ready(1) [OF D(4) ready] pk by simp
  qed
  have node: "\<forall>k \<in> set (pre @ post). job_NodeID k = None \<or> job_NodeID k = Some nodeID"
  proof
    fix k assume "k \<in> set (pre @ post)"
    then have "k \<in> set (pre @ j # post)" by auto
    then have "k \<in> set (db_jobs d)" "job_RunID k = job_RunID j" "job_Attempt k = job_Attempt j" using D(3,5) by metis+
    then show "job_NodeID k = None \<or> job_NodeID k = Some nodeID" using own by blast
  qed
  from j(3) q ord chain_ok_ready [OF D(4) ready] sha node ctx show ?thesis by blast
qed

theorem claim_hands_out_next_job_witness:
  "\<exists>j r w. start_job 20 ''n1'' (sample_job 0) = start_job 20 ''n1'' j \<and> job_Status j = JobStatusQueued \<and>
      r \<in> set (db_runs sample_submitted) \<and> run_ID r = job_RunID j \<and> run_Status r = RunStatusRunning \<and>
      w \<in> set (db_waves sample_submitted) \<and> wave_ID w = run_WaveID r \<and> wave_Status w = WaveStatusStarted"
  using claim_hands_out_next_job [OF sample_reachable(2) sample_claim] by blast

text \<open>
  The node that runs one job of an attempt runs them all: two jobs of the same attempt are never held by different
  nodes.
\<close>

theorem attempt_on_one_node:
  assumes "reachable cp_init cp_step d" "j \<in> set (db_jobs d)" "k \<in> set (db_jobs d)"
    and "job_RunID k = job_RunID j" "job_Attempt k = job_Attempt j" "job_NodeID j = Some m" "job_NodeID k = Some n"
  shows "n = m"
proof -
  have inv: "db_inv d" by (rule cp.reachable_inv [OF assms(1)])
  obtain r pre post where foc: "job_focus d j r pre post" using inv assms(2) by (rule job_focusE)
  note D = job_focusD [OF foc]
  have "j \<in> set (pre @ j # post)" "k \<in> set (pre @ j # post)" using D(3,5) assms(2-5) by metis+
  then have "Some m \<in> job_NodeID ` set (pre @ j # post)" "Some n \<in> job_NodeID ` set (pre @ j # post)"
    using assms(6,7) by (metis imageI)+
  then show ?thesis using chain_ok_one_node [OF D(4)] unfolding one_node_def by blast
qed

theorem attempt_on_one_node_witness: "''n1'' = (''n1'' :: node_id) \<and> job_NodeID (db_jobs sample_claimed ! 1) = Some ''n1''"
  using attempt_on_one_node [OF sample_reachable(3), of "db_jobs sample_claimed ! 1" "db_jobs sample_claimed ! 1" "''n1''" "''n1''"]
  by (simp add: sample_claimed_def start_job_def)







section \<open>Refinement and progress\<close>







end
