(* ===== verification/Completion_Properties.thy ===== *)
theory Completion_Properties
  imports Sample_Run
begin

text \<open>
  What reporting the end of a job does: to the job, to the rest of its chain, to the run and to the wave, and
  which reports are refused.
\<close>

section \<open>Accepted completions\<close>

text \<open>
  C10. When the job of a running chain reports success and has a successor, the successor is queued and receives the
  output commit as its input; that commit is a full lower-case SHA. No other job, no run and no wave changes.
\<close>

theorem success_queues_successor:
  assumes "reachable cp_init cp_step d" "Complete now goNow now' inp d = Inr (b, d')"
    and "ci_Status inp = JobStatusSuccess" "GetJob (ci_JobID inp) d = Inr j" "job_NextID j = Some n" "length (db_runs d) < 2 ^ 31"
  shows "\<exists>j' y'. GetJob (job_ID j) d' = Inr j' \<and> GetJob n d' = Inr y' \<and>
      job_Status j' = JobStatusSuccess \<and> job_Status y' = JobStatusQueued \<and>
      IsCanonicalFullCommitSHA (job_RepoShaOut j') \<and> job_RepoShaIn y' = job_RepoShaOut j' \<and>
      (\<forall>k \<in> set (db_jobs d). job_ID k \<noteq> job_ID j \<longrightarrow> job_ID k \<noteq> n \<longrightarrow> k \<in> set (db_jobs d')) \<and>
      length (db_jobs d') = length (db_jobs d) \<and> db_runs d' = db_runs d \<and> db_waves d' = db_waves d"
proof -
  have inv: "db_inv d" by (rule cp.reachable_inv [OF assms(1)])
  have jd: "j \<in> set (db_jobs d)" using assms(4) by (auto dest: GetJob_Inr)
  obtain r pre post where foc0: "job_focus d j r pre post" using inv jd by (rule job_focusE)
  have "job_NextID j = (case post of [] \<Rightarrow> None | z # _ \<Rightarrow> Some (job_ID z))"
    using job_focusD(4) [OF foc0] by (intro is_chain_at [of job_ID job_NextID pre]) (simp add: chain_ok_def)
  then obtain y ys where y: "post = y # ys" "job_ID y = n" using assms(5) by (cases post) auto
  note foc = foc0 [unfolded y(1)] and D = job_focusD [OF foc0 [unfolded y(1)]]
  have st: "terminal_job_status (ci_Status inp)" by (simp add: assms(3) terminal_job_status_def)
  obtain ro d1 where c: "complete now goNow inp j d = Inr (ro, d1)" and inv': "db_inv d'" and same: "ro = None \<Longrightarrow> d' = d1"
    using Complete_parts [OF inv st assms(6,2,4)] by metis
  note A = complete_advance [OF inv foc assms(3) c]
  have d': "d' = d1" using same A(2) by simp
  let ?j = "completed_row now inp j" and ?f = "advance_rows now inp j y"
  let ?y = "(hand_over ?j y)\<lparr>job_Status := JobStatusQueued\<rparr>"
  have chain: "map ?f (pre @ j # y # ys) = pre @ ?j # ?y # ys" by (rule advance_rows_chain [OF D(4)])
  have rows: "set (map ?f (pre @ j # y # ys)) \<subseteq> set (db_jobs d')"
    unfolding d' A(3) set_map using D(5) by (intro image_mono) blast
  have in': "?j \<in> set (db_jobs d')" "?y \<in> set (db_jobs d')" using rows unfolding chain by auto
  have "?f k \<in> set (db_jobs d')" if "k \<in> set (db_jobs d)" for k unfolding d' A(3) using that by simp
  moreover have "?f k = k" if "job_ID k \<noteq> job_ID j" "job_ID k \<noteq> n" for k
    using that assms(5) y(2) by (simp add: advance_rows_def completion_rows_def at_id_def hand_over_def)
  ultimately have frame: "\<forall>k \<in> set (db_jobs d). job_ID k \<noteq> job_ID j \<longrightarrow> job_ID k \<noteq> n \<longrightarrow> k \<in> set (db_jobs d')" by metis
  have "GetJob (job_ID j) d' = Inr ?j" "GetJob n d' = Inr ?y"
    using GetJob_row [OF inv' in'(1)] GetJob_row [OF inv' in'(2)] y(2) by simp_all
  moreover have "job_RepoShaIn ?y = job_RepoShaOut ?j"
    using A(6) assms(5) y(2) output_sha_success(2) [OF assms(3) A(6)] by (simp add: hand_over_def receive_sha_def)
  moreover have "length (db_jobs d') = length (db_jobs d)" by (simp add: d' A(3))
  ultimately show ?thesis
    using frame output_sha_success [OF assms(3) A(6)] assms(3) A(4,5) d' by (intro exI [of _ ?j] exI [of _ ?y]) simp
qed

theorem success_queues_successor_witness:
  "\<exists>j' y'. GetJob ''j'' sample_passed = Inr j' \<and> GetJob ''jx'' sample_passed = Inr y' \<and>
     job_Status j' = JobStatusSuccess \<and> job_Status y' = JobStatusQueued \<and> job_RepoShaIn y' = job_RepoShaOut j'"
proof -
  let ?j = "start_job 20 ''n1'' (sample_job 0)"
  have j: "job_ID ?j = ''j''" "job_NextID ?j = Some ''jx''" by code_simp+
  have g: "GetJob (ci_JobID (sample_completion ''j'' JobStatusSuccess [])) sample_claimed = Inr ?j"
    using sample_gate by (simp add: sample_completion_def)
  have "length (db_runs sample_claimed) < 2 ^ 31" by (simp add: sample_claimed_def sample_submitted_def)
  from success_queues_successor [OF sample_reachable(3) sample_pass _ g j(2) this]
  show ?thesis unfolding j(1) by (auto simp: sample_completion_def)
qed



text \<open>
  C12. When the last job of a chain succeeds, every job of the attempt has succeeded and the run is successful.
\<close>

theorem last_success_ends_run:
  assumes "reachable cp_init cp_step d" "Complete now goNow now' inp d = Inr (b, d')"
    and "ci_Status inp = JobStatusSuccess" "GetJob (ci_JobID inp) d = Inr j" "job_NextID j = None" "length (db_runs d) < 2 ^ 31"
  shows "\<exists>r'. GetRun (job_RunID j) d' = Inr r' \<and> run_Status r' = RunStatusSuccess \<and> run_Attempt r' = job_Attempt j \<and>
      (\<forall>k \<in> set (db_jobs d'). job_RunID k = job_RunID j \<longrightarrow> job_Attempt k = job_Attempt j \<longrightarrow> job_Status k = JobStatusSuccess)"
proof -
  have inv: "db_inv d" by (rule cp.reachable_inv [OF assms(1)])
  have jd: "j \<in> set (db_jobs d)" using assms(4) by (auto dest: GetJob_Inr)
  obtain r pre post where foc0: "job_focus d j r pre post" using inv jd by (rule job_focusE)
  have "post = []" using job_focusD(4) [OF foc0] is_chain_at [of job_ID job_NextID pre j post] assms(5)
    by (cases post) (auto simp: chain_ok_def)
  note foc = foc0 [unfolded this] and D = job_focusD [OF foc0 [unfolded \<open>post = []\<close>]]
  have st: "terminal_job_status (ci_Status inp)" by (simp add: assms(3) terminal_job_status_def)
  obtain ro d1 where c: "complete now goNow inp j d = Inr (ro, d1)" and inv': "db_inv d'"
      and same: "db_jobs d' = db_jobs d1" "db_runs d' = db_runs d1"
    using Complete_parts [OF inv st assms(6,2,4)] by metis
  note L = complete_last_status [OF inv foc assms(3) c] and run = complete_running [OF inv jd c]
  let ?r = "set_run_status now RunStatusSuccess r"
  have r': "?r \<in> set (db_runs d')" "run_ID ?r = job_RunID j" using D(2,3) same(2) L(3) by (auto simp: in_set_run)
  have a: "run_Attempt ?r = job_Attempt j" using active_job_run(1) [OF inv foc run(3)] by simp
  have "current_chain d' ?r = map (completion_rows now inp j) (pre @ [j])"
    using current_chain_map [OF inv D(2) keeps_key_completion_rows, where d' = d' and r' = ?r] current_chain_focus [OF inv foc] a same(1) L(1) by simp
  then have "current_chain d' ?r = pre @ [completed_row now inp j]" using completion_rows_chain [OF D(4)] by simp
  then have "\<forall>k \<in> set (current_chain d' ?r). job_Status k = JobStatusSuccess"
    using chain_ok_ready(1) [OF D(4) run(2)] assms(3) by simp
  then show ?thesis using GetRun_row [OF inv' r'(1)] r'(2) a current_chain_set [OF inv' r'(1)] by (intro exI [of _ ?r]) auto
qed

theorem last_success_ends_run_witness:
  "\<exists>r'. GetRun ''u1'' sample_done = Inr r' \<and> run_Status r' = RunStatusSuccess"
proof -
  let ?j = "hd (db_jobs sample_second)"
  have j: "job_RunID ?j = ''u1''" "job_NextID ?j = None" by code_simp+
  have g: "GetJob (ci_JobID (sample_completion ''jx'' JobStatusSuccess (sample_sha CHR ''b''))) sample_second = Inr ?j" by code_simp
  show ?thesis using last_success_ends_run [OF sample_completed_reachable(2) sample_finish _ g j(2)] unfolding j(1) by auto
qed

section \<open>Refused completions\<close>


text \<open>
  C13. A request to complete a job changes the database only when it is answered with 204 and comes from the node that
  holds the job, for a running job of the current execution of its run. Every refused request leaves it as it was.
\<close>

theorem completion_guarded:
  assumes "completeJobHandler now goNow now' pathID identity body header d = (code, d')"
  shows "d' = d \<or> (code = 204 \<and>
    (\<exists>jobID req status stats sha n j r. pathID = Some jobID \<and> identity \<and> body = Inr req \<and>
       validateCompletionRequest header req = Inr (status, stats, sha, n) \<and> GetJob jobID d = Inr j \<and> GetRun (job_RunID j) d = Inr r \<and>
       job_NodeID j = Some n \<and> job_Status j = JobStatusRunning \<and> job_Attempt j = run_Attempt r \<and>
       sp_ResumeCount stats = ResumeCount (run_Stats r)))"
proof (cases "d' = d")
  case False
  then obtain jobID req status stats sha n b where p: "pathID = Some jobID" "identity" "body = Inr req"
      and v: "validateCompletionRequest header req = Inr (status, stats, sha, n)"
      and c: "Complete now goNow now' \<lparr>ci_JobID = jobID, ci_NodeID = n, ci_Status = status, ci_ExitCode = req_ExitCode req,
        ci_StatsPayload = stats, ci_RepoSHAOut = sha\<rparr> d = Inr (b, d')" and code: "code = 204"
    using assms by (auto simp: completeJobHandler_def split: option.splits if_splits sum.splits prod.splits completion_error.splits)
  obtain j r ro d1 where "GetJob jobID d = Inr j" "GetRun (job_RunID j) d = Inr r" "ResumeCount (run_Stats r) = sp_ResumeCount stats"
      "job_Attempt j = run_Attempt r" and co: "complete now goNow \<lparr>ci_JobID = jobID, ci_NodeID = n, ci_Status = status,
        ci_ExitCode = req_ExitCode req, ci_StatsPayload = stats, ci_RepoSHAOut = sha\<rparr> j d = Inr (ro, d1)"
    using c by (auto elim!: Complete_Inr)
  moreover have "job_NodeID j = Some n" "job_Status j = JobStatusRunning" using co by (auto simp: complete_def split: if_splits)
  ultimately show ?thesis using p v code by metis
qed simp

theorem completion_guarded_witness:
  "\<exists>j r. GetJob ''j'' sample_claimed = Inr j \<and> GetRun (job_RunID j) sample_claimed = Inr r \<and> job_NodeID j = Some ''n1''"
proof -
  let ?req = "\<lparr>req_Status = ''Success'', req_ExitCode = Some 0, req_Stats = RawEmpty, req_RepoSHAOut = []\<rparr>"
  have h: "completeJobHandler 30 30 31 (Some ''j'') True (Inr ?req) ''n1'' sample_claimed = (204, sample_passed)" by code_simp
  have v: "validateCompletionRequest ''n1'' ?req = Inr (JobStatusSuccess, empty_stats, [], ''n1'')" by code_simp
  have "db_jobs sample_passed \<noteq> db_jobs sample_claimed" by code_simp
  then have "sample_passed \<noteq> sample_claimed" by metis
  then show ?thesis using completion_guarded [OF h] v by auto
qed

text \<open>
  The answers to a well-formed completion request that cannot be accepted: 404 for an unknown job, 409 for an earlier
  execution, 403 for a node that does not hold the job, 409 for a job that is not running.
\<close>

theorem completion_error_codes:
  assumes "validateCompletionRequest header req = Inr (status, stats, sha, n)"
  shows "(GetJob jobID d = Inl e \<longrightarrow> completeJobHandler now goNow now' (Some jobID) True (Inr req) header d = (404, d)) \<and>
    (GetJob jobID d = Inr j \<and> GetRun (job_RunID j) d = Inr r \<longrightarrow>
      (sp_ResumeCount stats \<noteq> ResumeCount (run_Stats r) \<or> job_Attempt j \<noteq> run_Attempt r \<longrightarrow>
        completeJobHandler now goNow now' (Some jobID) True (Inr req) header d = (409, d)) \<and>
      (sp_ResumeCount stats = ResumeCount (run_Stats r) \<and> job_Attempt j = run_Attempt r \<longrightarrow>
        (job_NodeID j \<noteq> Some n \<longrightarrow> completeJobHandler now goNow now' (Some jobID) True (Inr req) header d = (403, d)) \<and>
        (job_NodeID j = Some n \<and> job_Status j \<noteq> JobStatusRunning \<longrightarrow>
          completeJobHandler now goNow now' (Some jobID) True (Inr req) header d = (409, d))))"
proof -
  have e: "e = ErrNoRows" if "GetJob jobID d = Inl e" using that by (auto simp: GetJob_def get_row_def split: option.splits)
  show ?thesis using e
    by (auto simp: completeJobHandler_def assms Complete_def WithJobExecution_def complete_def completeConflict_def completeForbidden_def completeNotFound_def)
qed

theorem completion_error_codes_witness:
  "completeJobHandler 30 30 31 (Some ''nope'') True (Inr \<lparr>req_Status = ''Success'', req_ExitCode = Some 0, req_Stats = RawEmpty,
      req_RepoSHAOut = []\<rparr>) ''n1'' sample_claimed = (404, sample_claimed) \<and>
   completeJobHandler 30 30 31 (Some ''j'') True (Inr \<lparr>req_Status = ''Success'', req_ExitCode = Some 0, req_Stats = RawEmpty,
      req_RepoSHAOut = []\<rparr>) ''n2'' sample_claimed = (403, sample_claimed)"
proof -
  let ?req = "\<lparr>req_Status = ''Success'', req_ExitCode = Some 0, req_Stats = RawEmpty, req_RepoSHAOut = []\<rparr>"
  have v: "validateCompletionRequest ''n1'' ?req = Inr (JobStatusSuccess, empty_stats, [], ''n1'')"
    "validateCompletionRequest ''n2'' ?req = Inr (JobStatusSuccess, empty_stats, [], ''n2'')" by code_simp+
  let ?j = "start_job 20 ''n1'' (sample_job 0)" and ?r = "new_run 10 sample_wave sample_plan (JObj [])"
  have j: "GetJob ''nope'' sample_claimed = Inl ErrNoRows" "GetRun (job_RunID ?j) sample_claimed = Inr ?r"
    "sp_ResumeCount empty_stats = ResumeCount (run_Stats ?r)" "job_Attempt ?j = run_Attempt ?r" "job_NodeID ?j = Some ''n1''"
    by code_simp+
  show ?thesis
    using completion_error_codes [OF v(1), of "''nope''" sample_claimed ErrNoRows 30 30 31] j(1)
      completion_error_codes [OF v(2), of "''j''" sample_claimed _ 30 30 31 ?j ?r] sample_gate j(2-5) by simp
qed



end
