(* ===== verification/Run_Properties.thy ===== *)
theory Run_Properties
  imports Sample_Run
begin

text \<open>
  What the operations on whole runs and waves do: submission, restart, resume, recovery of runs whose node is gone,
  the end of a wave, and the return of a job whose claim cannot be answered.
\<close>

section \<open>Submission\<close>

text \<open>
  What a plan becomes: a running run at its first attempt in the new wave, with the planned statistics and one job per planned job, in the order of the
  plan, the first queued with the base commit and the others waiting.
\<close>

definition planned :: "db \<Rightarrow> wave_id \<Rightarrow> RunPlan \<Rightarrow> run \<times> job list \<Rightarrow> bool" where
  "planned d w plan = (\<lambda>(r, js). r \<in> set (db_runs d) \<and> run_ID r = rp_ID plan \<and> run_RepoID r = rp_RepoID plan \<and> run_WaveID r = w \<and>
     run_Status r = RunStatusRunning \<and> run_Attempt r = 1 \<and> (\<forall>v. rp_Stats plan = RawJson v \<longrightarrow> run_Stats r = v) \<and>
     js = current_chain d r \<and> js \<noteq> [] \<and> map job_Name js = map plan_Name (rp_Jobs plan) \<and> map job_JobType js = map plan_JobType (rp_Jobs plan) \<and>
     job_Status (hd js) = JobStatusQueued \<and> job_RepoShaIn (hd js) = rp_RepoSha0 plan \<and> (\<forall>k \<in> set (tl js). job_Status k = JobStatusCreated))"

lemma planned_frame:
  assumes "planned d w plan x" "materializeRun now newJobID wv (k, p) (ms, d) = Inr (ms', d')"
  shows "planned d' w plan x"
proof -
  obtain r js where x: "x = (r, js)" by (cases x)
  have "r \<in> set (db_runs d)" using assms(1) by (simp add: planned_def x)
  from materializeRun_frame [OF assms(2) this, of "run_Attempt r"]
  have "r \<in> set (db_runs d')" "current_chain d' r = current_chain d r" by (simp_all add: current_chain_def)
  then show ?thesis using assms(1) unfolding planned_def x prod.case by metis
qed

lemma planned_iter:
  assumes "planned d w plan x" "res_iter (materializeRun now newJobID wv) ps (ms, d) = Inr (ms', d')"
  shows "planned d' w plan x"
proof -
  have "(\<lambda>(_, e). planned e w plan x) (ms', d')"
  proof (rule res_iter_invariant [OF assms(2)])
    fix y s t assume a: "(\<lambda>(_, e). planned e w plan x) s" "materializeRun now newJobID wv y s = Inr t"
    obtain k p ms0 e0 ms1 e1 where y: "y = (k, p)" "s = (ms0, e0)" "t = (ms1, e1)" by (metis surj_pair)
    show "(\<lambda>(_, e). planned e w plan x) t" using planned_frame [of e0 w plan x now newJobID wv k p ms0 ms1 e1] a unfolding y by simp
  qed (use assms(1) in simp)
  then show ?thesis by simp
qed

lemma new_planned_names:
  "map job_Name (map (new_planned newID r jobs) [0..<length jobs]) = map plan_Name jobs"
  "map job_JobType (map (new_planned newID r jobs) [0..<length jobs]) = map plan_JobType jobs"
  by (rule nth_equalityI; simp add: new_planned_def new_job_def planned_job_def)+

lemma planned_materialize:
  assumes inv: "db_inv d" and ids: "\<forall>k i. \<not> IsEmpty (newJobID k i)"
    and m: "materializeRun now newJobID wv (k, plan) (ms, d) = Inr (ms', d')"
  obtains r js where "ms' = ms @ [(r, js)]" "planned d' (cw_ID wv) plan (r, js)"
proof -
  from m obtain r d1 js where ins: "insertRun now wv plan d = Inr (r, d1)" and ms: "ms' = ms @ [(r, js)]"
      and cp: "createPlannedJobs (newJobID k) r (rp_Jobs plan) d1 = Inr (js, d')"
    by (auto simp: materializeRun_def res_bind_Inr_iff split: prod.splits)
  obtain stats where r: "r = new_run now wv plan stats" and d1: "d1 = d\<lparr>db_runs := db_runs d @ [r]\<rparr>"
      and fresh: "rp_ID plan \<notin> run_ID ` set (db_runs d)"
    using ins by (rule insertRun_Inr)
  have st: "\<forall>v. rp_Stats plan = RawJson v \<longrightarrow> run_Stats r = v"
    using ins by (auto simp: insertRun_def res_bind_Inr_iff new_run_def split: if_splits)
  note c = createPlannedJobs_Inr [OF cp]
  have rf: "run_ID r = rp_ID plan" "run_RepoID r = rp_RepoID plan" "run_WaveID r = cw_ID wv" "run_Status r = RunStatusRunning"
      "run_Attempt r = 1" "run_RepoSha0 r = rp_RepoSha0 plan" by (simp_all add: r new_run_def)
  have "job_RunID j \<noteq> rp_ID plan" if "j \<in> set (db_jobs d)" for j
  proof -
    have "job_RunID j \<in> run_ID ` set (db_runs d)" using inv that by (simp add: db_inv_def refs_ok_def)
    then show ?thesis using fresh by metis
  qed
  then have "filter (\<lambda>j. job_RunID j = run_ID r \<and> job_Attempt j = run_Attempt r) (db_jobs d1) = []"
    by (auto simp: d1 filter_empty_conv rf)
  then have chain: "current_chain d' r = js" using ids by (intro planned_chain [OF cp]) blast+
  have js: "js = new_planned (newJobID k) r (rp_Jobs plan) 0 # map (new_planned (newJobID k) r (rp_Jobs plan)) [1..<length (rp_Jobs plan)]"
    using c(1,2) by (simp add: upt_conv_Cons)
  have names: "map job_Name js = map plan_Name (rp_Jobs plan)" "map job_JobType js = map plan_JobType (rp_Jobs plan)"
    unfolding c(2) by (rule new_planned_names)+
  have "planned d' (cw_ID wv) plan (r, js)"
    unfolding planned_def prod.case chain using names rf st by (simp add: c(3) d1) (simp add: js rf)
  then show thesis using ms that by blast
qed

lemma planned_all:
  assumes "db_inv d" "wave_started (cw_ID wv) d" and ids: "\<forall>k i. \<not> IsEmpty (newJobID k i)"
    and "res_iter (materializeRun now newJobID wv) (enumerate n plans) (ms, d) = Inr (ms', d')"
  shows "\<exists>new. ms' = ms @ new \<and> list_all2 (planned d' (cw_ID wv)) plans new"
  using assms
proof (induction plans arbitrary: n ms d)
  case (Cons plan plans)
  obtain ms1 d1 where m: "materializeRun now newJobID wv (n, plan) (ms, d) = Inr (ms1, d1)"
      and it: "res_iter (materializeRun now newJobID wv) (enumerate (Suc n) plans) (ms1, d1) = Inr (ms', d')"
    using Cons.prems(4) by (auto simp: res_bind_Inr_iff)
  obtain r js where ms1: "ms1 = ms @ [(r, js)]" and p: "planned d1 (cw_ID wv) plan (r, js)"
    using Cons.prems(1) ids m by (rule planned_materialize)
  obtain new where "ms' = ms1 @ new" "list_all2 (planned d' (cw_ID wv)) plans new"
    using Cons.IH [OF _ _ ids it] materializeRun_inv [OF Cons.prems(1,2) ids m] by blast
  then show ?case using ms1 planned_iter [OF p it] by (intro exI [of _ "(r, js) # new"]) simp
qed simp

lemma submission_parts:
  assumes "reachable cp_init cp_step d" "CreateWaveWithRuns now newJobID wv plans d = Inr ((w, ms), d')"
    and "\<forall>k i. \<not> IsEmpty (newJobID k i)"
  shows "w \<in> set (db_waves d') \<and> wave_ID w = cw_ID wv \<and> wave_Status w = WaveStatusStarted \<and>
    list_all2 (planned d' (cw_ID wv)) plans ms"
proof -
  have inv: "db_inv d" by (rule cp.reachable_inv [OF assms(1)])
  obtain d1 where cw: "CreateWave now wv d = Inr (w, d1)"
      and it: "res_iter (materializeRun now newJobID wv) (enumerate 0 plans) ([], d1) = Inr (ms, d')"
    using assms(2) by (auto simp: CreateWaveWithRuns_def res_bind_Inr_iff split: if_splits)
  note i1 = CreateWave_inv [OF inv cw]
  note w = CreateWaveWithRuns_waves [OF assms(2)]
  have "list_all2 (planned d' (cw_ID wv)) plans ms" using planned_all [OF _ _ assms(3) it] i1 by auto
  then show ?thesis using w by (simp add: new_wave_def)
qed

text \<open>
  C15. A submission turns every plan into a run: in the order of the plans, each gets a running run at attempt one in the
  new started wave, whose jobs are those of the plan in the order of the plan, the first queued with the base commit, the
  others created.
\<close>

theorem submission_materializes_plans:
  assumes "reachable cp_init cp_step d" "CreateWaveWithRuns now newJobID wv plans d = Inr ((w, ms), d')"
    and "\<forall>k i. \<not> IsEmpty (newJobID k i)"
  shows "w \<in> set (db_waves d') \<and> wave_ID w = cw_ID wv \<and> wave_Status w = WaveStatusStarted \<and>
    list_all2 (planned d' (cw_ID wv)) plans ms"
  using assms by (rule submission_parts)

theorem submission_materializes_plans_witness:
  "list_all2 (planned sample_submitted ''w1'') [sample_plan] [(new_run 10 sample_wave sample_plan (JObj []), [sample_job 0, sample_job 1])]"
  using submission_materializes_plans [OF sample_reachable(1) sample_submit sample_ids_ok] by (simp add: sample_wave_def)

section \<open>Restart and resume\<close>

text \<open>
  C16. A restart keeps history: the jobs of all earlier attempts stay as they were; the run, which had ended, runs again at the
  next attempt with one new job per planned job, in the order of the plan, the first queued with the base commit; and its wave is started.
\<close>

theorem restart_keeps_history:
  assumes "reachable cp_init cp_step d" "RestartRun now nowText newID arg d = Inr (u, d')" "\<not> rr_FromFailed arg" "\<forall>i. \<not> IsEmpty (newID i)"
  shows "\<exists>r js. r \<in> set (db_runs d) \<and> run_ID r = rr_RunID arg \<and> IsTerminalRunStatus (run_Status r) \<and>
      GetRun (rr_RunID arg) d' = Inr u \<and> run_Attempt u = run_Attempt r + 1 \<and> run_Status u = RunStatusRunning \<and>
      db_jobs d' = db_jobs d @ rev js \<and> current_chain d' u = js \<and> map job_Name js = map plan_Name (rr_Jobs arg) \<and>
      job_Status (hd js) = JobStatusQueued \<and> job_RepoShaIn (hd js) = run_RepoSha0 r \<and>
      (\<exists>w. w \<in> set (db_waves d') \<and> wave_ID w = run_WaveID r \<and> wave_Status w = WaveStatusStarted)"
proof -
  have inv: "db_inv d" by (rule cp.reachable_inv [OF assms(1)])
  have inv': "db_inv d'" by (rule RestartRun_inv [OF inv assms(4,2)])
  obtain r w v js where r: "r \<in> set (db_runs d)" "run_ID r = rr_RunID arg" "\<not> is_active_run r" and u: "u = increment_attempt now v r"
    and cp: "createPlannedJobs newID u (rr_Jobs arg) (revive now w (d\<lparr>db_runs := set_run u (db_runs d)\<rparr>)) = Inr (js, d')"
    using RestartRun_full [OF inv assms(3,2)] by metis
  note c = createPlannedJobs_Inr [OF cp]
  have uf: "run_ID u = run_ID r" "run_Attempt u = run_Attempt r + 1" "run_Status u = RunStatusRunning" "run_RepoSha0 u = run_RepoSha0 r"
      "run_WaveID u = run_WaveID r" by (simp_all add: u increment_attempt_def)
  have chain: "current_chain d' u = js"
    by (rule planned_chain [OF cp assms(4)]) (simp add: uf no_jobs_of_next_attempt [OF inv r(1)])
  have ud: "u \<in> set (db_runs d')" using r(1) uf(1) by (auto simp: c(3) in_set_run)
  have js: "js = new_planned newID u (rr_Jobs arg) 0 # map (new_planned newID u (rr_Jobs arg)) [1..<length (rr_Jobs arg)]"
    using c(1,2) by (simp add: upt_conv_Cons)
  have "run_WaveID u \<in> wave_ID ` set (db_waves d')" using inv' ud by (simp add: db_inv_def refs_ok_def)
  then obtain x where x: "x \<in> set (db_waves d')" "wave_ID x = run_WaveID r" using uf(5) by (metis imageE)
  have "wave_Status x = WaveStatusStarted"
    using db_inv_active(2) [OF inv' ud _ x(1)] uf x(2) by (simp add: is_active_run_def)
  moreover have "map job_Name js = map plan_Name (rr_Jobs arg)" unfolding c(2) by (rule new_planned_names)
  moreover have "GetRun (rr_RunID arg) d' = Inr u" using GetRun_row [OF inv' ud] uf(1) r(2) by simp
  moreover have "IsTerminalRunStatus (run_Status r)" using r(3) by (simp add: active_run_iff)
  moreover have "db_jobs d' = db_jobs d @ rev js" using c(3) by simp
  moreover have "job_Status (hd js) = JobStatusQueued" "job_RepoShaIn (hd js) = run_RepoSha0 r" by (simp_all add: js uf)
  ultimately show ?thesis using r uf chain x by metis
qed

theorem restart_keeps_history_witness:
  "\<exists>r js. r \<in> set (db_runs sample_done) \<and> run_ID r = ''u1'' \<and> run_Attempt sample_attempt2 = run_Attempt r + 1 \<and>
     db_jobs sample_restarted = db_jobs sample_done @ rev js"
proof -
  have a: "rr_RunID (sample_restart False) = ''u1''" by (simp add: sample_restart_def)
  have "\<not> rr_FromFailed (sample_restart False)" "\<forall>i. \<not> IsEmpty (sample_ids 1 i)" using sample_ids_ok by (simp_all add: sample_restart_def)
  from restart_keeps_history [OF sample_completed_reachable(3) sample_restart_full this] show ?thesis unfolding a by blast
qed

text \<open>
  C17. A resume repeats only what failed: the jobs that had succeeded stay as they were, the failed job is queued again on
  the node and with the input commit it had, the cancelled jobs behind it are created again; the run is running
  again at the same attempt.
\<close>

theorem resume_keeps_successes:
  assumes "reachable cp_init cp_step d" "RestartRun now nowText newID arg d = Inr (u, d')" "rr_FromFailed arg" "\<forall>i. \<not> IsEmpty (newID i)"
  shows "\<exists>r pre j j' post post'. r \<in> set (db_runs d) \<and> run_ID r = rr_RunID arg \<and> current_chain d r = pre @ j # post \<and>
      current_chain d' u = pre @ j' # post' \<and> (\<forall>k \<in> set pre. job_Status k = JobStatusSuccess) \<and>
      job_Status j \<in> {JobStatusFail, JobStatusError} \<and> job_Status j' = JobStatusQueued \<and> job_ID j' = job_ID j \<and>
      job_NodeID j' = job_NodeID j \<and> job_RepoShaIn j' = job_RepoShaIn j \<and>
      map job_ID post' = map job_ID post \<and> (\<forall>k \<in> set post'. job_Status k = JobStatusCreated) \<and>
      run_Attempt u = run_Attempt r \<and> run_Status u = RunStatusRunning"
proof -
  have inv: "db_inv d" by (rule cp.reachable_inv [OF assms(1)])
  have inv': "db_inv d'" by (rule RestartRun_inv [OF inv assms(4,2)])
  obtain r j pre post stats where r: "r \<in> set (db_runs d)" "run_ID r = rr_RunID arg"
    and foc: "job_focus d j r pre post" "job_Attempt j = run_Attempt r" and pre: "\<forall>k \<in> set pre. job_Status k = JobStatusSuccess"
    and j: "job_Status j = JobStatusFail \<or> job_Status j = JobStatusError"
    and d': "db_jobs d' = map (resume_updates (rr_Jobs arg) j post) (db_jobs d)"
      "db_runs d' = set_run (resume_run nowText (rr_ExpectedResumeCount arg + 1) stats r) (db_runs d)"
    using RestartRun_resume [OF inv assms(3,2)] by metis
  have g: "GetRun (rr_RunID arg) d' = Inr u"
    using assms(2,3) by (auto elim!: RestartRun_Inr)
  let ?u = "resume_run nowText (rr_ExpectedResumeCount arg + 1) stats r"
  have u: "u = ?u" by (rule GetRun_set_run [OF inv r(1) _ d'(2)]) (use g r(2) in \<open>simp_all add: resume_run_def\<close>)
  have uf: "run_ID u = run_ID r" "run_Attempt u = run_Attempt r" "run_Status u = RunStatusRunning" by (simp_all add: u resume_run_def)
  have c: "current_chain d r = pre @ j # post" using inv foc by (rule current_chain_focus)
  have c': "current_chain d' u = pre @ reset_job True (resume_meta (rr_Jobs arg) j) j #
      map (\<lambda>k. reset_job False (resume_meta (rr_Jobs arg) k) k) post"
    using current_chain_map [OF inv r(1) keeps_key_resume_updates d'(1) uf(1,2)] c resume_updates_chain [OF job_focusD(4) [OF foc(1)]] by simp
  show ?thesis
    by (rule exI [of _ r], rule exI [of _ pre], rule exI [of _ j], rule exI [of _ "reset_job True (resume_meta (rr_Jobs arg) j) j"],
        rule exI [of _ post], rule exI [of _ "map (\<lambda>k. reset_job False (resume_meta (rr_Jobs arg) k) k) post"])
      (use r c c' pre j uf in simp)
qed

theorem resume_keeps_successes_witness:
  "\<exists>r pre (j :: job) j' post'. r \<in> set (db_runs sample_failed) \<and> run_ID r = ''u1'' \<and>
     current_chain sample_resumed (hd (db_runs sample_resumed)) = pre @ j' # post' \<and> job_Status j' = JobStatusQueued \<and>
     job_Status j \<in> {JobStatusFail, JobStatusError} \<and> job_NodeID j' = job_NodeID j"
proof -
  have a: "rr_RunID (sample_restart True) = ''u1''" by (simp add: sample_restart_def)
  have "rr_FromFailed (sample_restart True)" "\<forall>i. \<not> IsEmpty (sample_ids 1 i)" using sample_ids_ok by (simp_all add: sample_restart_def)
  from resume_keeps_successes [OF sample_completed_reachable(4) sample_resume this] show ?thesis unfolding a by blast
qed

section \<open>The end of a wave\<close>

text \<open>
  C18. A wave is finished exactly when it is started and all its runs have ended; in every other case the
  reconciliation changes nothing.
\<close>

theorem wave_finishes_with_its_runs:
  assumes "reachable cp_init cp_step d" "r \<in> set (db_runs d)" "GetWave (run_WaveID r) d = Inr w" "length (db_runs d) < 2 ^ 31"
  shows "reconcileWave now r d =
    (if wave_Status w = WaveStatusStarted \<and>
        (\<forall>s \<in> set (db_runs d). run_WaveID s = run_WaveID r \<longrightarrow> IsTerminalRunStatus (run_Status s))
     then (True, UpdateWaveStatus now (run_WaveID r) WaveStatusFinished d) else (False, d))"
proof -
  have "wave_runs (run_WaveID r) d \<noteq> []" using assms(2) by (auto simp: wave_runs_def filter_empty_conv)
  then show ?thesis using MaybeComplete_eq [OF wave_runs_small [OF assms(4)] assms(3)] by (simp add: reconcileWave_def wave_runs_def)
qed

theorem wave_finishes_with_its_runs_witness:
  "reconcileWave 51 (new_run 10 sample_wave sample_plan (JObj [])) sample_second = (False, sample_second)"
proof -
  let ?r = "new_run 10 sample_wave sample_plan (JObj [])"
  have r: "?r \<in> set (db_runs sample_second)"
    by (simp add: sample_second_def sample_passed_def sample_claimed_def sample_submitted_def)
  have w: "GetWave (run_WaveID ?r) sample_second = Inr (new_wave 10 sample_wave)" by code_simp
  have "\<not> IsTerminalRunStatus (run_Status ?r)" by (simp add: new_run_def)
  then show ?thesis using wave_finishes_with_its_runs [OF sample_completed_reachable(2) r w] r by auto
qed

text \<open>
  The reconciliation reads and writes in separate statements. When a restart of a run of the wave commits between them, the
  wave is finished while the run is running: its queued job can be claimed by no node.
\<close>

definition sample_ended :: db where
  "sample_ended = sample_done\<lparr>db_waves := [new_wave 10 sample_wave]\<rparr>"

theorem restart_during_reconciliation:
  "\<exists>r u e. r \<in> set (db_runs sample_ended) \<and> RestartRun 60 ''t60'' (sample_ids 1) (sample_restart False) sample_ended = Inr (u, e) \<and>
     MaybeCompleteRun_reads r sample_ended e = Inr True \<and>
     (let d = UpdateWaveStatus 61 (run_WaveID r) WaveStatusFinished e in
        (\<exists>j \<in> set (db_jobs d). job_RunID j = run_ID u \<and> job_Status j = JobStatusQueued) \<and> run_Status u = RunStatusRunning \<and>
        ClaimJob 62 (\<lambda>_. False) ''n1'' d = Inl ErrNoRows \<and> ClaimJob 62 (\<lambda>_. False) ''n2'' d = Inl ErrNoRows \<and> \<not> db_inv d)"
proof -
  let ?r = "hd (db_runs sample_ended)" and ?d = "UpdateWaveStatus 61 ''w1'' WaveStatusFinished sample_restarted"
  have r: "?r \<in> set (db_runs sample_ended)" "run_WaveID ?r = ''w1''" by (simp_all add: sample_ended_def sample_done_def new_run_def sample_wave_def)
  have s: "RestartRun 60 ''t60'' (sample_ids 1) (sample_restart False) sample_ended = Inr (sample_attempt2, sample_restarted)"
      "MaybeCompleteRun_reads ?r sample_ended sample_restarted = Inr True"
      "\<exists>j \<in> set (db_jobs ?d). job_RunID j = run_ID sample_attempt2 \<and> job_Status j = JobStatusQueued"
      "ClaimJob 62 (\<lambda>_. False) ''n1'' ?d = Inl ErrNoRows" "ClaimJob 62 (\<lambda>_. False) ''n2'' ?d = Inl ErrNoRows" by code_simp+
  have u: "run_Status sample_attempt2 = RunStatusRunning" "run_WaveID sample_attempt2 = ''w1''" "sample_attempt2 \<in> set (db_runs ?d)"
    by (simp_all add: sample_attempt2_def new_run_def sample_wave_def UpdateWaveStatus_def sample_restarted_def)
  have "hd (db_waves ?d) \<in> set (db_waves ?d)" "wave_ID (hd (db_waves ?d)) = ''w1''" "wave_Status (hd (db_waves ?d)) = WaveStatusFinished"
    by (simp_all add: UpdateWaveStatus_def update_where_def sample_restarted_def set_wave_status_def new_wave_def sample_wave_def)
  then have "\<not> db_inv ?d" using db_inv_active(2) [of ?d sample_attempt2] u by (auto simp: is_active_run_def)
  then show ?thesis using r s u(1) by (intro exI [of _ ?r] exI [of _ sample_attempt2] exI [of _ sample_restarted]) (simp add: Let_def)
qed

section \<open>Recovery\<close>



section \<open>Failed claims\<close>



end
