(* ===== verification/Mig_Spec.thy ===== *)
theory Mig_Spec
  imports Completion Hydra
begin

text \<open>
  Migration specifications: the types and the validation of \<^verbatim>\<open>internal/workflow/contracts/migs_spec.go\<close>,
  \<^verbatim>\<open>migs_spec_parse.go\<close>, \<^verbatim>\<open>mod_image.go\<close>, \<^verbatim>\<open>command_spec.go\<close>,
  \<^verbatim>\<open>build_gate_config.go\<close>, \<^verbatim>\<open>build_gate_image_rule.go\<close> and \<^verbatim>\<open>stack_gate_spec.go\<close>.

  A document is the parsed JSON value. Two parts are no code of the repository and are arguments: the validator of the embedded JSON
  schema (\<open>schema\<close>) and the check of a KSUID (\<open>ksuid\<close>).
\<close>

section \<open>Images\<close>

text \<open>The map of a stack-specific image; a nil map is empty.\<close>

record JobImage =
  ji_Universal :: string
  ji_ByStack :: "(string \<times> string) list"

definition MigStackJavaMaven :: string where "MigStackJavaMaven = ''java-maven''"
definition MigStackJavaGradle :: string where "MigStackJavaGradle = ''java-gradle''"
definition MigStackJava :: string where "MigStackJava = ''java''"
definition MigStackUnknown :: string where "MigStackUnknown = ''unknown''"
definition MigStackDefault :: string where "MigStackDefault = ''default''"

definition JobImage_IsEmpty :: "JobImage \<Rightarrow> bool" where
  "JobImage_IsEmpty m \<longleftrightarrow> ji_Universal m = [] \<and> ji_ByStack m = []"

datatype image_error = ImageNotSpecified | NoImageForStack string

definition usable_image :: "string \<Rightarrow> JobImage \<Rightarrow> string option" where
  "usable_image stack m =
     (case map_of (ji_ByStack m) stack of None \<Rightarrow> None | Some img \<Rightarrow> if TrimSpace img \<noteq> [] then Some img else None)"

definition JobImage_ResolveImage :: "JobImage \<Rightarrow> string \<Rightarrow> image_error + string" where
  "JobImage_ResolveImage m stack0 =
     (let stack = (if stack0 = [] then MigStackUnknown else stack0) in
      if ji_Universal m \<noteq> [] then Inr (ji_Universal m)
      else if ji_ByStack m = [] then Inl ImageNotSpecified
      else case usable_image stack m of
        Some img \<Rightarrow> Inr img
      | None \<Rightarrow> (case usable_image MigStackDefault m of
          Some img \<Rightarrow> Inr img
        | None \<Rightarrow> Inl (NoImageForStack stack)))"

definition ToolToMigStack :: "string \<Rightarrow> string" where
  "ToolToMigStack tool =
     (let t = ToLower (TrimSpace tool) in
      if t = ''maven'' then MigStackJavaMaven
      else if t = ''gradle'' then MigStackJavaGradle
      else if t = ''java'' then MigStackJava
      else MigStackUnknown)"

definition JobImage_MarshalJSON :: "JobImage \<Rightarrow> json" where
  "JobImage_MarshalJSON m =
     (if ji_Universal m \<noteq> [] then JStr (ji_Universal m)
      else if ji_ByStack m \<noteq> [] then JObj (map (\<lambda>(k, v). (k, JStr v)) (ji_ByStack m))
      else JNull)"

text \<open>
  The keys of the map are trimmed while it is copied. Go copies in an unspecified order, which matters only for a document with keys that
  become equal; here it is the order of the document.
\<close>

fun JobImage_UnmarshalJSON :: "json \<Rightarrow> JobImage option" where
  "JobImage_UnmarshalJSON JNull = Some \<lparr>ji_Universal = [], ji_ByStack = []\<rparr>"
| "JobImage_UnmarshalJSON (JStr s) = Some \<lparr>ji_Universal = TrimSpace s, ji_ByStack = []\<rparr>"
| "JobImage_UnmarshalJSON (JObj fs) =
     map_option (\<lambda>raw. \<lparr>ji_Universal = [], ji_ByStack = fold (\<lambda>(k, v) m. AList.update (TrimSpace k) (TrimSpace v) m) raw []\<rparr>)
       (dec_string_map (Some (JObj fs)))"
| "JobImage_UnmarshalJSON _ = None"

section \<open>Commands\<close>

record CommandSpec =
  cmd_Shell :: string
  cmd_Exec :: "string list"

definition CommandSpec_IsEmpty :: "CommandSpec \<Rightarrow> bool" where
  "CommandSpec_IsEmpty c \<longleftrightarrow> cmd_Shell c = [] \<and> cmd_Exec c = []"

definition CommandSpec_ToSlice :: "CommandSpec \<Rightarrow> string list" where
  "CommandSpec_ToSlice c =
     (if cmd_Exec c \<noteq> [] then cmd_Exec c
      else if cmd_Shell c \<noteq> [] then [''/bin/sh'', ''-c'', cmd_Shell c]
      else [])"

definition CommandSpec_MarshalJSON :: "CommandSpec \<Rightarrow> json" where
  "CommandSpec_MarshalJSON c =
     (if cmd_Exec c \<noteq> [] then JArr (map JStr (cmd_Exec c))
      else if cmd_Shell c \<noteq> [] then JStr (cmd_Shell c)
      else JNull)"

fun CommandSpec_UnmarshalJSON :: "json \<Rightarrow> CommandSpec option" where
  "CommandSpec_UnmarshalJSON JNull = Some \<lparr>cmd_Shell = [], cmd_Exec = []\<rparr>"
| "CommandSpec_UnmarshalJSON (JStr s) = Some \<lparr>cmd_Shell = TrimSpace s, cmd_Exec = []\<rparr>"
| "CommandSpec_UnmarshalJSON (JArr vs) = map_option (\<lambda>arr. \<lparr>cmd_Shell = [], cmd_Exec = arr\<rparr>) (map_all (\<lambda>v. dec_str (Some v)) vs)"
| "CommandSpec_UnmarshalJSON _ = None"

section \<open>The specification\<close>

record StackGatePhaseSpec =
  sgp_Enabled :: bool
  sgp_Expect :: "StackExpectation option"

record StackGateSpec =
  sgs_Inbound :: "StackGatePhaseSpec option"
  sgs_Outbound :: "StackGatePhaseSpec option"

record MigStep =
  ms_Name :: string
  ms_Image :: JobImage
  ms_Command :: CommandSpec
  ms_Envs :: "(string \<times> string) list"
  ms_MountDockerSocket :: bool
  ms_In :: "string list"
  ms_Out :: "string list"
  ms_Home :: "string list"
  ms_Tmp :: "string list"
  ms_Stack :: "StackGateSpec option"

record BuildGateStackConfig =
  bsc_Mode :: string
  bsc_Language :: string
  bsc_Tool :: string
  bsc_Release :: string

record BuildGateImageRule =
  bgr_Stack :: StackExpectation
  bgr_Image :: string

text \<open>A phase is its optional stack configuration; the phase itself is optional too.\<close>

record BuildGateConfig =
  bg_Disabled :: bool
  bg_Pre :: "BuildGateStackConfig option option"
  bg_Post :: "BuildGateStackConfig option option"
  bg_Images :: "BuildGateImageRule list"

record MigSpec =
  mig_JobID :: string
  mig_APIVersion :: string
  mig_Name :: string
  mig_Description :: string
  mig_Steps :: "MigStep list"
  mig_Envs :: "(string \<times> string) list"
  mig_BuildGate :: "BuildGateConfig option"
  mig_BundleMap :: "(string \<times> string) list"

section \<open>Decoding\<close>

text \<open>A value with a decoder of its own: an absent field keeps the zero value.\<close>

definition dec_own :: "(json \<Rightarrow> 'a option) \<Rightarrow> 'a \<Rightarrow> json option \<Rightarrow> 'a option" where
  "dec_own f zero v = (case v of None \<Rightarrow> Some zero | Some x \<Rightarrow> f x)"

definition dec_strings :: "json option \<Rightarrow> string list option" where
  "dec_strings = dec_list (\<lambda>v. dec_str (Some v))"

definition dec_gate_phase :: "json \<Rightarrow> StackGatePhaseSpec option" where
  "dec_gate_phase v =
     Option.bind (dec_fields v) (\<lambda>fs.
     Option.bind (dec_bool (map_of fs ''enabled'')) (\<lambda>en.
     Option.bind (dec_ptr StackExpectation_UnmarshalJSON (map_of fs ''expect'')) (\<lambda>ex.
       Some \<lparr>sgp_Enabled = en, sgp_Expect = ex\<rparr>)))"

definition dec_gate_spec :: "json \<Rightarrow> StackGateSpec option" where
  "dec_gate_spec v =
     Option.bind (dec_fields v) (\<lambda>fs.
     Option.bind (dec_ptr dec_gate_phase (map_of fs ''inbound'')) (\<lambda>i.
     Option.bind (dec_ptr dec_gate_phase (map_of fs ''outbound'')) (\<lambda>out.
       Some \<lparr>sgs_Inbound = i, sgs_Outbound = out\<rparr>)))"

definition dec_step_options :: "json \<Rightarrow> bool option" where
  "dec_step_options v = Option.bind (dec_fields v) (\<lambda>fs. dec_bool (map_of fs ''mount_docker_socket''))"

definition dec_step :: "json \<Rightarrow> MigStep option" where
  "dec_step v =
     Option.bind (dec_fields v) (\<lambda>fs.
     Option.bind (dec_str (map_of fs ''name'')) (\<lambda>n.
     Option.bind (dec_own JobImage_UnmarshalJSON \<lparr>ji_Universal = [], ji_ByStack = []\<rparr> (map_of fs ''image'')) (\<lambda>img.
     Option.bind (dec_own CommandSpec_UnmarshalJSON \<lparr>cmd_Shell = [], cmd_Exec = []\<rparr> (map_of fs ''command'')) (\<lambda>cmd.
     Option.bind (dec_string_map (map_of fs ''envs'')) (\<lambda>env.
     Option.bind (dec_own dec_step_options False (map_of fs ''options'')) (\<lambda>sock.
     Option.bind (dec_strings (map_of fs ''in'')) (\<lambda>i.
     Option.bind (dec_strings (map_of fs ''out'')) (\<lambda>out.
     Option.bind (dec_strings (map_of fs ''home'')) (\<lambda>h.
     Option.bind (dec_strings (map_of fs ''tmp'')) (\<lambda>tmp.
     Option.bind (dec_ptr dec_gate_spec (map_of fs ''stack'')) (\<lambda>st.
       Some \<lparr>ms_Name = n, ms_Image = img, ms_Command = cmd, ms_Envs = env, ms_MountDockerSocket = sock, ms_In = i, ms_Out = out,
             ms_Home = h, ms_Tmp = tmp, ms_Stack = st\<rparr>)))))))))))"

definition BuildGateStackConfig_UnmarshalJSON :: "json \<Rightarrow> BuildGateStackConfig option" where
  "BuildGateStackConfig_UnmarshalJSON v =
     Option.bind (dec_fields v) (\<lambda>fs.
     Option.bind (dec_str (map_of fs ''mode'')) (\<lambda>m.
     Option.bind (dec_str (map_of fs ''language'')) (\<lambda>l.
     Option.bind (dec_str (map_of fs ''tool'')) (\<lambda>t.
     Option.bind (unmarshalReleaseJSON (map_of fs ''release'')) (\<lambda>r.
       Some \<lparr>bsc_Mode = m, bsc_Language = l, bsc_Tool = t, bsc_Release = r\<rparr>)))))"

definition dec_phase :: "json \<Rightarrow> BuildGateStackConfig option option" where
  "dec_phase v = Option.bind (dec_fields v) (\<lambda>fs. dec_ptr BuildGateStackConfig_UnmarshalJSON (map_of fs ''stack''))"

definition dec_rule :: "json \<Rightarrow> BuildGateImageRule option" where
  "dec_rule v =
     Option.bind (dec_fields v) (\<lambda>fs.
     Option.bind (dec_own StackExpectation_UnmarshalJSON \<lparr>se_Language = [], se_Tool = [], se_Release = []\<rparr> (map_of fs ''stack'')) (\<lambda>st.
     Option.bind (dec_str (map_of fs ''image'')) (\<lambda>img.
       Some \<lparr>bgr_Stack = st, bgr_Image = img\<rparr>)))"

definition dec_build_gate :: "json \<Rightarrow> BuildGateConfig option" where
  "dec_build_gate v =
     Option.bind (dec_fields v) (\<lambda>fs.
     Option.bind (dec_bool (map_of fs ''disabled'')) (\<lambda>dis.
     Option.bind (dec_ptr dec_phase (map_of fs ''pre'')) (\<lambda>pre.
     Option.bind (dec_ptr dec_phase (map_of fs ''post'')) (\<lambda>post.
     Option.bind (dec_list dec_rule (map_of fs ''images'')) (\<lambda>imgs.
       Some \<lparr>bg_Disabled = dis, bg_Pre = pre, bg_Post = post, bg_Images = imgs\<rparr>)))))"

definition dec_job_id :: "(string \<Rightarrow> bool) \<Rightarrow> json option \<Rightarrow> string option" where
  "dec_job_id ksuid v =
     (case v of
        None \<Rightarrow> Some []
      | Some x \<Rightarrow> Option.bind (dec_str (Some x)) (\<lambda>s.
          if IsEmpty (Normalize s) \<or> \<not> ksuid (Normalize s) then None else Some (Normalize s)))"

definition dec_mig_spec :: "(string \<Rightarrow> bool) \<Rightarrow> json \<Rightarrow> MigSpec option" where
  "dec_mig_spec ksuid v =
     Option.bind (dec_fields v) (\<lambda>fs.
     Option.bind (dec_job_id ksuid (map_of fs ''job_id'')) (\<lambda>jid.
     Option.bind (dec_str (map_of fs ''apiVersion'')) (\<lambda>ver.
     Option.bind (dec_str (map_of fs ''name'')) (\<lambda>n.
     Option.bind (dec_str (map_of fs ''description'')) (\<lambda>desc.
     Option.bind (dec_list dec_step (map_of fs ''steps'')) (\<lambda>steps.
     Option.bind (dec_string_map (map_of fs ''envs'')) (\<lambda>env.
     Option.bind (dec_ptr dec_build_gate (map_of fs ''build_gate'')) (\<lambda>bg.
     Option.bind (dec_string_map (map_of fs ''bundle_map'')) (\<lambda>bm.
       Some \<lparr>mig_JobID = jid, mig_APIVersion = ver, mig_Name = n, mig_Description = desc, mig_Steps = steps, mig_Envs = env,
             mig_BuildGate = bg, mig_BundleMap = bm\<rparr>)))))))))"

section \<open>Image rules\<close>

definition Specificity :: "BuildGateImageRule \<Rightarrow> nat" where
  "Specificity r =
     (if se_Tool (bgr_Stack r) \<noteq> [] \<and> se_Release (bgr_Stack r) \<noteq> [] then 4
      else if se_Tool (bgr_Stack r) \<noteq> [] then 3
      else if se_Release (bgr_Stack r) \<noteq> [] then 2
      else 1)"

definition Matches :: "BuildGateImageRule \<Rightarrow> StackExpectation \<Rightarrow> bool" where
  "Matches r exp =
     (if se_Language (bgr_Stack r) \<noteq> se_Language exp then False
      else if se_Release (bgr_Stack r) \<noteq> [] \<and> se_Release (bgr_Stack r) \<noteq> se_Release exp then False
      else if se_Tool (bgr_Stack r) \<noteq> [] \<and> se_Tool (bgr_Stack r) \<noteq> se_Tool exp then False
      else True)"

definition SelectorKey :: "BuildGateImageRule \<Rightarrow> string" where
  "SelectorKey r =
     (let release = (if se_Release (bgr_Stack r) = [] then ''*'' else se_Release (bgr_Stack r));
          tool = (if se_Tool (bgr_Stack r) = [] then ''*'' else se_Tool (bgr_Stack r))
      in se_Language (bgr_Stack r) @ '':'' @ release @ '':'' @ tool)"

datatype rule_error = RuleLanguageRequired nat | RuleImageRequired nat | RuleDuplicate nat string

fun validate_rules :: "nat \<Rightarrow> string list \<Rightarrow> BuildGateImageRule list \<Rightarrow> rule_error option" where
  "validate_rules i seen [] = None"
| "validate_rules i seen (r # rs) =
     (if TrimSpace (se_Language (bgr_Stack r)) = [] then Some (RuleLanguageRequired i)
      else if TrimSpace (bgr_Image r) = [] then Some (RuleImageRequired i)
      else if SelectorKey r \<in> set seen then Some (RuleDuplicate i (SelectorKey r))
      else validate_rules (i + 1) (SelectorKey r # seen) rs)"

definition BuildGateImageMapping_Validate :: "BuildGateImageRule list \<Rightarrow> rule_error option" where
  "BuildGateImageMapping_Validate images = validate_rules 0 [] images"

section \<open>Validation\<close>

definition StackExpectation_IsEmpty :: "StackExpectation \<Rightarrow> bool" where
  "StackExpectation_IsEmpty e \<longleftrightarrow> se_Language e = [] \<and> se_Tool e = [] \<and> se_Release e = []"

datatype mig_spec_error =
    StepsRequired
  | StepImageRequired nat
  | StepStackAmbiguous nat
  | StepStackIncomplete nat
  | StepHydra nat HydraFileKind hydra_error
  | GateImages rule_error
  | GateStackMode
  | GateStackIncomplete

text \<open>\<open>exp\<close> is there and not empty.\<close>

definition has_expect :: "StackGatePhaseSpec \<Rightarrow> bool" where
  "has_expect p \<longleftrightarrow> (case sgp_Expect p of None \<Rightarrow> False | Some e \<Rightarrow> \<not> StackExpectation_IsEmpty e)"

definition validateStackGatePhaseSpec :: "nat \<Rightarrow> StackGatePhaseSpec option \<Rightarrow> mig_spec_error option" where
  "validateStackGatePhaseSpec i ph =
     (case ph of
        None \<Rightarrow> None
      | Some p \<Rightarrow>
          if \<not> sgp_Enabled p \<and> has_expect p then Some (StepStackAmbiguous i)
          else if sgp_Enabled p \<and> \<not> has_expect p then Some (StepStackIncomplete i)
          else None)"

definition validateStackGateSpec :: "nat \<Rightarrow> StackGateSpec option \<Rightarrow> mig_spec_error option" where
  "validateStackGateSpec i spec =
     (case spec of
        None \<Rightarrow> None
      | Some s \<Rightarrow> (case validateStackGatePhaseSpec i (sgs_Inbound s) of
          Some e \<Rightarrow> Some e
        | None \<Rightarrow> validateStackGatePhaseSpec i (sgs_Outbound s)))"

definition step_entries :: "MigStep \<Rightarrow> HydraFileKind \<Rightarrow> string list" where
  "step_entries st kind =
     (case kind of HydraFileIn \<Rightarrow> ms_In st | HydraFileOut \<Rightarrow> ms_Out st | HydraFileHome \<Rightarrow> ms_Home st | HydraFileTmp \<Rightarrow> ms_Tmp st)"

fun validate_steps :: "nat \<Rightarrow> MigStep list \<Rightarrow> mig_spec_error option" where
  "validate_steps i [] = None"
| "validate_steps i (st # sts) =
     (if JobImage_IsEmpty (ms_Image st) then Some (StepImageRequired i)
      else case validateStackGateSpec i (ms_Stack st) of
        Some e \<Rightarrow> Some e
      | None \<Rightarrow> (case validateHydraFields (step_entries st) of
          Some (kind, e) \<Rightarrow> Some (StepHydra i kind e)
        | None \<Rightarrow> validate_steps (i + 1) sts))"

definition validateBuildGateStackConfig :: "BuildGateStackConfig option \<Rightarrow> mig_spec_error option" where
  "validateBuildGateStackConfig stack =
     (case stack of
        None \<Rightarrow> None
      | Some st \<Rightarrow>
          let mode = TrimSpace (bsc_Mode st); language = TrimSpace (bsc_Language st);
              tool = TrimSpace (bsc_Tool st); release = TrimSpace (bsc_Release st) in
          if mode = [] then (if language \<noteq> [] \<or> tool \<noteq> [] \<or> release \<noteq> [] then Some GateStackMode else None)
          else if mode \<notin> {''forced'', ''strict'', ''fallback''} then Some GateStackMode
          else if mode = ''strict'' then (if language = [] \<and> tool = [] \<and> release = [] then Some GateStackIncomplete else None)
          else if language = [] then Some GateStackIncomplete
          else if mode = ''fallback'' \<and> tool = [] then Some GateStackIncomplete
          else if release = [] then Some GateStackIncomplete
          else None)"

definition validate_phase :: "BuildGateStackConfig option option \<Rightarrow> mig_spec_error option" where
  "validate_phase ph = (case ph of None \<Rightarrow> None | Some st \<Rightarrow> validateBuildGateStackConfig st)"

definition MigSpec_Validate :: "MigSpec \<Rightarrow> mig_spec_error option" where
  "MigSpec_Validate s =
     (if mig_Steps s = [] then Some StepsRequired
      else case validate_steps 0 (mig_Steps s) of
        Some e \<Rightarrow> Some e
      | None \<Rightarrow> (case mig_BuildGate s of
          None \<Rightarrow> None
        | Some bg \<Rightarrow> (case BuildGateImageMapping_Validate (bg_Images bg) of
            Some e \<Rightarrow> Some (GateImages e)
          | None \<Rightarrow> (case validate_phase (bg_Pre bg) of
              Some e \<Rightarrow> Some e
            | None \<Rightarrow> validate_phase (bg_Post bg)))))"

datatype parse_error = SpecEmpty | SpecSchema | SpecDecode | SpecInvalid mig_spec_error

definition ParseMigSpecJSON :: "(json \<Rightarrow> bool) \<Rightarrow> (string \<Rightarrow> bool) \<Rightarrow> raw_json \<Rightarrow> parse_error + MigSpec" where
  "ParseMigSpecJSON schema ksuid data =
     (case data of
        RawEmpty \<Rightarrow> Inl SpecEmpty
      | RawInvalid \<Rightarrow> Inl SpecSchema
      | RawJson v \<Rightarrow>
          if \<not> schema v then Inl SpecSchema
          else case dec_mig_spec ksuid v of
            None \<Rightarrow> Inl SpecDecode
          | Some spec \<Rightarrow> (case MigSpec_Validate spec of Some e \<Rightarrow> Inl (SpecInvalid e) | None \<Rightarrow> Inr spec))"

section \<open>What an accepted specification guarantees\<close>

lemma validate_steps_None:
  "validate_steps i sts = None \<longleftrightarrow>
     (\<forall>st \<in> set sts. \<not> JobImage_IsEmpty (ms_Image st) \<and> validateHydraFields (step_entries st) = None \<and>
       (\<forall>j. validateStackGateSpec j (ms_Stack st) = None))"
proof (induction sts arbitrary: i)
  case (Cons st sts)
  have "validateStackGateSpec i (ms_Stack st) = None \<longleftrightarrow> validateStackGateSpec j (ms_Stack st) = None" for j
    by (auto simp: validateStackGateSpec_def validateStackGatePhaseSpec_def split: option.splits if_splits)
  then have "(\<forall>j. validateStackGateSpec j (ms_Stack st) = None) \<longleftrightarrow> validateStackGateSpec i (ms_Stack st) = None" by blast
  then show ?case using Cons by (auto split: option.split)
qed simp

lemma validate_rules_None:
  "validate_rules i seen rs = None \<longleftrightarrow>
     (\<forall>r \<in> set rs. TrimSpace (se_Language (bgr_Stack r)) \<noteq> [] \<and> TrimSpace (bgr_Image r) \<noteq> []) \<and>
     distinct (map SelectorKey rs) \<and> SelectorKey ` set rs \<inter> set seen = {}"
  by (induction rs arbitrary: i seen) auto

text \<open>Two rules of one specificity that match the same stack have the same selector.\<close>

lemma same_selector:
  assumes "Matches r exp" "Matches r' exp" "Specificity r = Specificity r'"
  shows "SelectorKey r = SelectorKey r'"
  using assms by (auto simp: Matches_def Specificity_def SelectorKey_def Let_def split: if_splits)

end
