(* ===== verification/Token_Registry.thy ===== *)
theory Token_Registry
  imports Store_Model "HOL-Library.AList"
begin

text \<open>
  The registry of ephemeral GitLab tokens of \<^verbatim>\<open>internal/server/gitlabtokens/registry.go\<close>, and the marker of
  \<^verbatim>\<open>internal/gitlabtoken/token.go\<close> that ties a run to its token. The registry maps the hash of a token to the token and the runs
  that use it; a secret stays in memory only while such a run is registered. The digest function is the argument \<open>sha256\<close>.
\<close>

section \<open>The registry\<close>

record tok_entry =
  te_Token :: string
  te_Runs :: "run_id list"

record Registry =
  reg_Entries :: "(string \<times> tok_entry) list"
  reg_RunHash :: "(run_id \<times> string) list"

definition NewRegistry :: Registry where
  "NewRegistry = \<lparr>reg_Entries = [], reg_RunHash = []\<rparr>"

definition run_hash :: "Registry \<Rightarrow> run_id \<Rightarrow> string" where
  "run_hash r runID = (case map_of (reg_RunHash r) runID of None \<Rightarrow> [] | Some h \<Rightarrow> h)"

definition releaseRunLocked :: "run_id \<Rightarrow> Registry \<Rightarrow> Registry" where
  "releaseRunLocked runID r =
     (let hash = run_hash r runID in
      if hash = [] then r
      else let r1 = r\<lparr>reg_RunHash := AList.delete runID (reg_RunHash r)\<rparr> in
        case map_of (reg_Entries r1) hash of
          None \<Rightarrow> r1
        | Some e \<Rightarrow>
            let runs = removeAll runID (te_Runs e) in
            if runs = [] then r1\<lparr>reg_Entries := AList.delete hash (reg_Entries r1)\<rparr>
            else r1\<lparr>reg_Entries := AList.update hash (e\<lparr>te_Runs := runs\<rparr>) (reg_Entries r1)\<rparr>)"

text \<open>One turn of the loop of \<^verbatim>\<open>Register\<close>. The entry \<open>hash\<close> was created before the loop and a release of another hash leaves it.\<close>

definition register_run :: "string \<Rightarrow> run_id \<Rightarrow> Registry \<Rightarrow> Registry" where
  "register_run hash runID r =
     (if IsEmpty runID then r
      else let oldHash = run_hash r runID;
               r1 = (if oldHash \<noteq> [] \<and> oldHash \<noteq> hash then releaseRunLocked runID r else r);
               e = (case map_of (reg_Entries r1) hash of None \<Rightarrow> \<lparr>te_Token = [], te_Runs = []\<rparr> | Some e \<Rightarrow> e)
           in r1\<lparr>reg_Entries := AList.update hash (e\<lparr>te_Runs := List.insert runID (te_Runs e)\<rparr>) (reg_Entries r1),
                 reg_RunHash := AList.update runID hash (reg_RunHash r1)\<rparr>)"

definition Register :: "string \<Rightarrow> string \<Rightarrow> run_id list \<Rightarrow> Registry \<Rightarrow> Registry" where
  "Register hash0 token0 runIDs r =
     (let hash = TrimSpace hash0; token = TrimSpace token0 in
      if hash = [] \<or> token = [] \<or> runIDs = [] then r
      else let e = (case map_of (reg_Entries r) hash of None \<Rightarrow> \<lparr>te_Token = [], te_Runs = []\<rparr> | Some e \<Rightarrow> e)
           in fold (register_run hash) runIDs (r\<lparr>reg_Entries := AList.update hash (e\<lparr>te_Token := token\<rparr>) (reg_Entries r)\<rparr>))"

definition Token :: "string \<Rightarrow> Registry \<Rightarrow> string option" where
  "Token hash0 r =
     (let hash = TrimSpace hash0 in
      if hash = [] then None
      else case map_of (reg_Entries r) hash of
        None \<Rightarrow> None
      | Some e \<Rightarrow> if TrimSpace (te_Token e) = [] then None else Some (te_Token e))"

definition ReleaseRuns :: "run_id list \<Rightarrow> Registry \<Rightarrow> Registry" where
  "ReleaseRuns runIDs r = fold releaseRunLocked runIDs r"

definition ReleaseWave :: "db \<Rightarrow> wave_id \<Rightarrow> Registry \<Rightarrow> Registry" where
  "ReleaseWave d waveID r = (if IsEmpty waveID then r else ReleaseRuns (map run_ID (ListRunsByWave waveID d)) r)"

section \<open>Markers\<close>

definition ValidateRequest :: "(string \<Rightarrow> string) \<Rightarrow> string \<Rightarrow> (string \<times> string) option" where
  "ValidateRequest sha256 token0 =
     (let token = TrimSpace token0 in if token = [] then None else Some (sha256 token, token))"

definition RunMetadataKey :: string where
  "RunMetadataKey = ''ploy.gitlab_token_hash''"

text \<open>The outer \<open>None\<close> is the error, \<open>RawEmpty\<close> the nil slice for a run without a token.\<close>

definition RunStatsWithMarker :: "string \<Rightarrow> raw_json option" where
  "RunStatsWithMarker hash0 =
     (let hash = TrimSpace hash0 in
      if hash = [] then Some RawEmpty
      else if length hash \<noteq> 64 \<or> \<not> list_all is_hex_lower hash then None
      else Some (RawJson (JObj [(''metadata'', JObj [(RunMetadataKey, JStr hash)])])))"

definition HashFromRunStats :: "raw_json \<Rightarrow> string" where
  "HashFromRunStats raw =
     (case raw of
        RawJson v \<Rightarrow> (case json_field ''metadata'' v of
          Some (JObj m) \<Rightarrow>
            if list_all (\<lambda>(_, x). case x of JStr _ \<Rightarrow> True | JNull \<Rightarrow> True | _ \<Rightarrow> False) m
            then (case map_of m RunMetadataKey of Some (JStr s) \<Rightarrow> TrimSpace s | _ \<Rightarrow> []) else []
        | _ \<Rightarrow> [])
      | _ \<Rightarrow> [])"

section \<open>The invariant\<close>

text \<open>The two maps are inverse to each other, and an entry has a token.\<close>

definition uses :: "Registry \<Rightarrow> string \<Rightarrow> run_id \<Rightarrow> bool" where
  "uses r hash runID \<longleftrightarrow> (\<exists>e. map_of (reg_Entries r) hash = Some e \<and> runID \<in> set (te_Runs e))"

definition reg_links :: "Registry \<Rightarrow> bool" where
  "reg_links r \<longleftrightarrow>
     (\<forall>runID hash. map_of (reg_RunHash r) runID = Some hash \<longleftrightarrow> uses r hash runID) \<and>
     (\<forall>runID hash. map_of (reg_RunHash r) runID = Some hash \<longrightarrow> hash \<noteq> [] \<and> TrimSpace hash = hash)"

text \<open>Inside \<^verbatim>\<open>Register\<close> the entry that is being filled may have no run yet.\<close>

definition reg_at :: "string \<Rightarrow> Registry \<Rightarrow> bool" where
  "reg_at filling r \<longleftrightarrow> reg_links r \<and>
     (\<forall>hash e. map_of (reg_Entries r) hash = Some e \<longrightarrow>
        (hash \<noteq> filling \<longrightarrow> te_Runs e \<noteq> []) \<and> TrimSpace (te_Token e) \<noteq> [] \<and> TrimSpace hash = hash \<and> hash \<noteq> [])"

definition reg_ok :: "Registry \<Rightarrow> bool" where
  "reg_ok r \<longleftrightarrow> reg_at [] r"

lemma reg_atD:
  assumes "reg_at F r"
  shows "map_of (reg_RunHash r) x = Some h \<longleftrightarrow> uses r h x"
    "map_of (reg_RunHash r) x = Some h \<Longrightarrow> h \<noteq> []" "map_of (reg_RunHash r) x = Some h \<Longrightarrow> TrimSpace h = h"
    "map_of (reg_Entries r) h = Some e \<Longrightarrow> h \<noteq> F \<Longrightarrow> te_Runs e \<noteq> []" "map_of (reg_Entries r) h = Some e \<Longrightarrow> TrimSpace (te_Token e) \<noteq> []"
    "map_of (reg_Entries r) h = Some e \<Longrightarrow> TrimSpace h = h" "map_of (reg_Entries r) h = Some e \<Longrightarrow> h \<noteq> []"
  using assms unfolding reg_at_def reg_links_def by blast+

lemma reg_atI:
  assumes "\<And>x h. map_of (reg_RunHash r) x = Some h \<longleftrightarrow> uses r h x"
    "\<And>h e. map_of (reg_Entries r) h = Some e \<Longrightarrow> (h \<noteq> F \<longrightarrow> te_Runs e \<noteq> []) \<and> TrimSpace (te_Token e) \<noteq> [] \<and> TrimSpace h = h \<and> h \<noteq> []"
  shows "reg_at F r"
  using assms unfolding reg_at_def reg_links_def uses_def by blast

definition without :: "run_id \<Rightarrow> string \<Rightarrow> (string \<rightharpoonup> tok_entry) \<Rightarrow> string \<rightharpoonup> tok_entry" where
  "without x F m h =
     (case m h of None \<Rightarrow> None
      | Some e \<Rightarrow> if h \<noteq> F \<and> removeAll x (te_Runs e) = [] then None else Some (e\<lparr>te_Runs := removeAll x (te_Runs e)\<rparr>))"

lemma removeAll_Nil_iff: "removeAll x xs = [] \<longleftrightarrow> set xs \<subseteq> {x}"
  by (induction xs) auto

lemma release_maps:
  assumes ok: "reg_at F r" and F: "run_hash r x \<noteq> F \<or> run_hash r x = []"
  shows "map_of (reg_RunHash (releaseRunLocked x r)) = (map_of (reg_RunHash r))(x := None)"
    "map_of (reg_Entries (releaseRunLocked x r)) = without x F (map_of (reg_Entries r))"
proof -
  note I = reg_atD [OF ok]
  have id: "removeAll x (te_Runs e) = te_Runs e" if "map_of (reg_Entries r) h = Some e" "map_of (reg_RunHash r) x \<noteq> Some h" for h e
    using that I(1) by (auto simp: uses_def)
  have "map_of (reg_RunHash (releaseRunLocked x r)) = (map_of (reg_RunHash r))(x := None) \<and>
    map_of (reg_Entries (releaseRunLocked x r)) = without x F (map_of (reg_Entries r))"
  proof (cases "map_of (reg_RunHash r) x")
    case None
    then have "without x F (map_of (reg_Entries r)) h = map_of (reg_Entries r) h" for h
      using id I(4) by (auto simp: without_def split: option.splits)
    moreover have "releaseRunLocked x r = r" using None by (simp add: releaseRunLocked_def run_hash_def)
    moreover have "(map_of (reg_RunHash r))(x := None) = map_of (reg_RunHash r)" using None by auto
    ultimately show ?thesis by auto
  next
    case (Some h0)
    then have h0: "h0 \<noteq> []" "run_hash r x = h0" "h0 \<noteq> F" using I(2) F by (auto simp: run_hash_def)
    obtain e0 where e0: "map_of (reg_Entries r) h0 = Some e0" using Some I(1) by (auto simp: uses_def)
    have "without x F (map_of (reg_Entries r)) h =
        (if h = h0 then (if removeAll x (te_Runs e0) = [] then None else Some (e0\<lparr>te_Runs := removeAll x (te_Runs e0)\<rparr>))
         else map_of (reg_Entries r) h)" for h
      using id [of h] I(4) [of h] e0 h0(3) Some by (auto simp: without_def split: option.splits)
    then show ?thesis using e0 h0 by (auto simp: releaseRunLocked_def Let_def delete_conv' update_conv' fun_eq_iff)
  qed
  then show "map_of (reg_RunHash (releaseRunLocked x r)) = (map_of (reg_RunHash r))(x := None)"
    "map_of (reg_Entries (releaseRunLocked x r)) = without x F (map_of (reg_Entries r))" by blast+
qed

lemma release_at:
  assumes ok: "reg_at F r" and F: "run_hash r x \<noteq> F \<or> run_hash r x = []"
  shows "reg_at F (releaseRunLocked x r)"
proof (rule reg_atI)
  note I = reg_atD [OF ok] and m = release_maps [OF assms]
  show "map_of (reg_RunHash (releaseRunLocked x r)) y = Some h \<longleftrightarrow> uses (releaseRunLocked x r) h y" for y h
    using I(1) [of y h] I(1) [of x h] unfolding uses_def m by (auto simp: without_def removeAll_Nil_iff split: option.splits if_splits)
  show "(h \<noteq> F \<longrightarrow> te_Runs e \<noteq> []) \<and> TrimSpace (te_Token e) \<noteq> [] \<and> TrimSpace h = h \<and> h \<noteq> []"
    if "map_of (reg_Entries (releaseRunLocked x r)) h = Some e" for h e
    using that I(5,6,7) [of h] unfolding m by (auto simp: without_def split: option.splits if_splits)
qed

section \<open>Registering\<close>

lemma register_run_at:
  assumes ok: "reg_at H r" and H: "map_of (reg_Entries r) H = Some e" "TrimSpace H = H" "H \<noteq> []" and x: "\<not> IsEmpty x"
  shows "reg_at H (register_run H x r)" "map_of (reg_RunHash (register_run H x r)) = (map_of (reg_RunHash r))(x \<mapsto> H)"
    "map_of (reg_Entries (register_run H x r)) H = Some (e\<lparr>te_Runs := List.insert x (te_Runs e)\<rparr>)"
proof -
  define r1 where "r1 = (if run_hash r x \<noteq> [] \<and> run_hash r x \<noteq> H then releaseRunLocked x r else r)"
  have id: "removeAll x (te_Runs e) = te_Runs e" if "run_hash r x \<noteq> H"
    using that reg_atD(1) [OF ok, of x H] H(1) by (auto simp: uses_def run_hash_def)
  have r1: "reg_at H r1" "map_of (reg_Entries r1) H = Some e" "\<And>y. y \<noteq> x \<Longrightarrow> map_of (reg_RunHash r1) y = map_of (reg_RunHash r) y"
    using ok H(1) release_at [OF ok] release_maps [OF ok] id by (auto simp: r1_def without_def)
  have other: "\<not> uses r1 h x" if "h \<noteq> H" for h
  proof (cases "run_hash r x \<noteq> [] \<and> run_hash r x \<noteq> H")
    case True
    then have "map_of (reg_RunHash r1) x = None" using release_maps(1) [OF ok, of x] by (simp add: r1_def)
    then show ?thesis using reg_atD(1) [OF r1(1), of x h] by simp
  next
    case False
    then have "map_of (reg_RunHash r1) x \<noteq> Some h" using that reg_atD(2) [OF ok, of x] by (auto simp: r1_def run_hash_def)
    then show ?thesis using reg_atD(1) [OF r1(1), of x h] by simp
  qed
  have r': "register_run H x r = r1\<lparr>reg_Entries := AList.update H (e\<lparr>te_Runs := List.insert x (te_Runs e)\<rparr>) (reg_Entries r1),
      reg_RunHash := AList.update x H (reg_RunHash r1)\<rparr>"
    using x r1(2) by (simp add: register_run_def Let_def r1_def)
  show "map_of (reg_RunHash (register_run H x r)) = (map_of (reg_RunHash r))(x \<mapsto> H)"
    using r1(3) by (auto simp: r' update_conv' fun_eq_iff)
  show "map_of (reg_Entries (register_run H x r)) H = Some (e\<lparr>te_Runs := List.insert x (te_Runs e)\<rparr>)"
    by (simp add: r' update_conv')
  show "reg_at H (register_run H x r)"
  proof (rule reg_atI)
    show "map_of (reg_RunHash (register_run H x r)) y = Some h \<longleftrightarrow> uses (register_run H x r) h y" for y h
      using reg_atD(1) [OF r1(1), of y h] other [of h] r1(2) by (auto simp: r' update_conv' uses_def)
    show "(h \<noteq> H \<longrightarrow> te_Runs e' \<noteq> []) \<and> TrimSpace (te_Token e') \<noteq> [] \<and> TrimSpace h = h \<and> h \<noteq> []"
      if "map_of (reg_Entries (register_run H x r)) h = Some e'" for h e'
      using that reg_atD(4,5,6,7) [OF r1(1), of h] r1(2) by (auto simp: r' update_conv' split: if_splits)
  qed
qed

lemma register_runs_at:
  assumes "reg_at H r" "map_of (reg_Entries r) H = Some e" "TrimSpace H = H" "H \<noteq> []" "\<forall>x \<in> set xs. \<not> IsEmpty x"
  shows "reg_at H (fold (register_run H) xs r)"
    "map_of (reg_RunHash (fold (register_run H) xs r)) = (\<lambda>x. if x \<in> set xs then Some H else map_of (reg_RunHash r) x)"
    "\<exists>rs. map_of (reg_Entries (fold (register_run H) xs r)) H = Some (e\<lparr>te_Runs := rs\<rparr>) \<and> set rs = set xs \<union> set (te_Runs e)"
proof -
  have "reg_at H (fold (register_run H) xs r) \<and>
    map_of (reg_RunHash (fold (register_run H) xs r)) = (\<lambda>x. if x \<in> set xs then Some H else map_of (reg_RunHash r) x) \<and>
    (\<exists>rs. map_of (reg_Entries (fold (register_run H) xs r)) H = Some (e\<lparr>te_Runs := rs\<rparr>) \<and> set rs = set xs \<union> set (te_Runs e))"
    using assms(1,2,5)
  proof (induction xs arbitrary: r e)
    case (Cons x xs)
    have x: "\<not> IsEmpty x" using Cons.prems(3) by simp
    note step = register_run_at [OF Cons.prems(1,2) assms(3,4) x]
    show ?case using Cons.IH [OF step(1,3)] Cons.prems(3) step(2) by (auto simp: fun_eq_iff)
  next
    case (Nil r e)
    then show ?case by (auto intro!: exI [of _ "te_Runs e"])
  qed
  then show "reg_at H (fold (register_run H) xs r)"
    "map_of (reg_RunHash (fold (register_run H) xs r)) = (\<lambda>x. if x \<in> set xs then Some H else map_of (reg_RunHash r) x)"
    "\<exists>rs. map_of (reg_Entries (fold (register_run H) xs r)) H = Some (e\<lparr>te_Runs := rs\<rparr>) \<and> set rs = set xs \<union> set (te_Runs e)" by blast+
qed

lemma Register_ok:
  assumes ok: "reg_ok r" and h: "TrimSpace hash = hash" "hash \<noteq> []" and t: "TrimSpace token \<noteq> []"
    and xs: "xs \<noteq> []" "\<forall>x \<in> set xs. \<not> IsEmpty x"
  shows "reg_ok (Register hash token xs r)" "Token hash (Register hash token xs r) = Some (TrimSpace token)"
    "map_of (reg_RunHash (Register hash token xs r)) = (\<lambda>x. if x \<in> set xs then Some hash else map_of (reg_RunHash r) x)"
proof -
  define e where "e = (case map_of (reg_Entries r) hash of None \<Rightarrow> \<lparr>te_Token = [], te_Runs = []\<rparr> | Some e \<Rightarrow> e)\<lparr>te_Token := TrimSpace token\<rparr>"
  define r0 where "r0 = r\<lparr>reg_Entries := AList.update hash e (reg_Entries r)\<rparr>"
  have R: "Register hash token xs r = fold (register_run hash) xs r0"
    using h t xs(1) by (simp add: Register_def Let_def r0_def e_def)
  note I = reg_atD [OF ok [unfolded reg_ok_def]]
  have tt: "TrimSpace (TrimSpace token) \<noteq> []" using t by simp
  have r0: "reg_at hash r0"
  proof (rule reg_atI)
    show "map_of (reg_RunHash r0) x = Some g \<longleftrightarrow> uses r0 g x" for x g
      using I(1) [of x g] by (auto simp: r0_def e_def uses_def update_conv' split: option.splits)
    show "(g \<noteq> hash \<longrightarrow> te_Runs d \<noteq> []) \<and> TrimSpace (te_Token d) \<noteq> [] \<and> TrimSpace g = g \<and> g \<noteq> []"
      if "map_of (reg_Entries r0) g = Some d" for g d
      using that I(4,5,6,7) [of g] h tt by (auto simp: r0_def e_def update_conv' split: option.splits if_splits)
  qed
  have e0: "map_of (reg_Entries r0) hash = Some e" by (simp add: r0_def update_conv')
  note F = register_runs_at [OF r0 e0 h xs(2)]
  show "map_of (reg_RunHash (Register hash token xs r)) = (\<lambda>x. if x \<in> set xs then Some hash else map_of (reg_RunHash r) x)"
    unfolding R F(2) by (simp add: r0_def cong: if_cong)
  obtain rs where rs: "map_of (reg_Entries (Register hash token xs r)) hash = Some (e\<lparr>te_Runs := rs\<rparr>)" "set rs = set xs \<union> set (te_Runs e)"
    using F(3) by (auto simp: R)
  then have ne: "rs \<noteq> []" using xs(1) by auto
  show "Token hash (Register hash token xs r) = Some (TrimSpace token)" using rs(1) h tt by (simp add: Token_def e_def)
  show "reg_ok (Register hash token xs r)" unfolding reg_ok_def
  proof (rule reg_atI)
    show "map_of (reg_RunHash (Register hash token xs r)) x = Some g \<longleftrightarrow> uses (Register hash token xs r) g x" for x g
      using reg_atD(1) [OF F(1)] by (simp add: R)
    show "(g \<noteq> [] \<longrightarrow> te_Runs d \<noteq> []) \<and> TrimSpace (te_Token d) \<noteq> [] \<and> TrimSpace g = g \<and> g \<noteq> []"
      if d: "map_of (reg_Entries (Register hash token xs r)) g = Some d" for g d
      using reg_atD(4,5,6,7) [OF F(1), of g d] d rs(1) ne by (cases "g = hash") (auto simp: R)
  qed
qed

lemma Register_keeps_ok:
  assumes "reg_ok r" "\<forall>x \<in> set xs. \<not> IsEmpty x"
  shows "reg_ok (Register hash token xs r)"
proof (cases "TrimSpace hash = [] \<or> TrimSpace token = [] \<or> xs = []")
  case True
  then have "Register hash token xs r = r" by (auto simp: Register_def)
  then show ?thesis using assms(1) by simp
next
  case False
  then have "Register hash token xs r = Register (TrimSpace hash) token xs r" by (simp add: Register_def)
  then show ?thesis using False assms Register_ok(1) [of r "TrimSpace hash" token xs] by simp
qed

section \<open>Releasing\<close>

lemma ReleaseRuns_maps:
  assumes "reg_ok r"
  shows "reg_ok (ReleaseRuns xs r)" "map_of (reg_RunHash (ReleaseRuns xs r)) = (\<lambda>x. if x \<in> set xs then None else map_of (reg_RunHash r) x)"
    "map_option te_Token (map_of (reg_Entries (ReleaseRuns xs r)) h) =
       (if \<exists>x. x \<notin> set xs \<and> uses r h x then map_option te_Token (map_of (reg_Entries r) h) else None)"
proof -
  have step: "reg_ok (releaseRunLocked x r)" "map_of (reg_RunHash (releaseRunLocked x r)) = (map_of (reg_RunHash r))(x := None)"
    "map_of (reg_Entries (releaseRunLocked x r)) = without x [] (map_of (reg_Entries r))" if "reg_ok r" for x r
    using that release_at [of "[]" r x] release_maps [of "[]" r x] unfolding reg_ok_def by auto
  have "reg_ok (ReleaseRuns xs r) \<and> map_of (reg_RunHash (ReleaseRuns xs r)) = (\<lambda>x. if x \<in> set xs then None else map_of (reg_RunHash r) x) \<and>
    map_option te_Token (map_of (reg_Entries (ReleaseRuns xs r)) h) =
       (if \<exists>x. x \<notin> set xs \<and> uses r h x then map_option te_Token (map_of (reg_Entries r) h) else None)"
    using assms
  proof (induction xs arbitrary: r)
    case Nil
    have "map_of (reg_Entries r) h = Some e \<Longrightarrow> \<exists>x. uses r h x" for e
      using reg_atD(4,7) [OF Nil [unfolded reg_ok_def], of h e] by (auto simp: uses_def neq_Nil_conv)
    then show ?case using Nil by (cases "map_of (reg_Entries r) h") (auto simp: ReleaseRuns_def)
  next
    case (Cons x xs)
    note st = step [OF Cons.prems, of x]
    have u: "uses (releaseRunLocked x r) h y \<longleftrightarrow> uses r h y \<and> y \<noteq> x" for y
      using reg_atD(7) [OF Cons.prems [unfolded reg_ok_def], of h]
      by (auto simp: uses_def st(3) without_def removeAll_Nil_iff split: option.splits if_splits)
    have t: "map_option te_Token (map_of (reg_Entries (releaseRunLocked x r)) h) = map_option te_Token (map_of (reg_Entries r) h)"
      if "uses r h y" "y \<noteq> x" for y
      using that by (auto simp: uses_def st(3) without_def removeAll_Nil_iff)
    show ?case using Cons.IH [OF st(1)] st(2) u t by (auto simp: ReleaseRuns_def fun_eq_iff)
  qed
  then show "reg_ok (ReleaseRuns xs r)" "map_of (reg_RunHash (ReleaseRuns xs r)) = (\<lambda>x. if x \<in> set xs then None else map_of (reg_RunHash r) x)"
    "map_option te_Token (map_of (reg_Entries (ReleaseRuns xs r)) h) =
       (if \<exists>x. x \<notin> set xs \<and> uses r h x then map_option te_Token (map_of (reg_Entries r) h) else None)" by blast+
qed

lemma Token_entries:
  assumes "reg_ok r" "TrimSpace hash = hash" "hash \<noteq> []"
  shows "Token hash r = map_option te_Token (map_of (reg_Entries r) hash)"
  using assms(2,3) reg_atD(5) [OF assms(1) [unfolded reg_ok_def], of hash] by (auto simp: Token_def split: option.split)

lemma NewRegistry_ok: "reg_ok NewRegistry"
  unfolding reg_ok_def by (rule reg_atI) (simp_all add: NewRegistry_def uses_def)

lemma marker_roundtrip:
  assumes "RunStatsWithMarker hash = Some st" "TrimSpace hash \<noteq> []"
  shows "HashFromRunStats st = TrimSpace hash"
  using assms by (auto simp: RunStatsWithMarker_def HashFromRunStats_def Let_def split: if_splits)

end
