(* ===== verification/Run_Handlers.thy ===== *)
theory Run_Handlers
  imports Mig_Spec Token_Registry Control_Plane "HOL-Library.List_Lexorder" "HOL-Library.Char_ord"
begin

text \<open>
  The handlers that launch, restart and cancel runs: \<^verbatim>\<open>planJobsFromSpec\<close> of
  \<^verbatim>\<open>internal/server/handlers/migs_ticket.go\<close>, and \<^verbatim>\<open>migs_runs.go\<close>, \<^verbatim>\<open>runs_batch_http.go\<close>,
  \<^verbatim>\<open>waves.go\<close>, \<^verbatim>\<open>gitlab_token.go\<close> and \<^verbatim>\<open>runs_conflict.go\<close>.

  The state is the database and the token registry. What the handlers take from outside is a record: the parser of URLs, the digest of
  tokens, the schema validator, the check of KSUIDs, the removal of credentials from a URL and the git query that resolves a branch. The
  columns of projects and specs that the store model leaves out are a second record.
\<close>

record externals =
  ex_ParseURL :: "string \<Rightarrow> (string \<times> string) option"
  ex_StripUser :: "string \<Rightarrow> string option"
  ex_Sha256 :: "string \<Rightarrow> string"
  ex_Schema :: "json \<Rightarrow> bool"
  ex_KSUID :: "string \<Rightarrow> bool"
  ex_ResolveCommit :: "string \<Rightarrow> string \<Rightarrow> string \<Rightarrow> string option"
  ex_GitLabHost :: string

record Mig =
  mg_ID :: string
  mg_SpecID :: "string option"
  mg_Archived :: bool

record MigRepo =
  mr_RepoID :: repo_id
  mr_BaseRef :: string

record tables =
  tb_SpecBody :: "string \<Rightarrow> raw_json"
  tb_Mig :: "string \<Rightarrow> Mig"
  tb_MigRepos :: "string \<Rightarrow> MigRepo list"

record server_state =
  sv_DB :: db
  sv_Tokens :: Registry

section \<open>Job plans\<close>

record draft =
  dr_Name :: string
  dr_JobType :: job_type
  dr_JobImage :: string
  dr_StepName :: string
  dr_StepIndex :: "int option"
  dr_GateCycle :: string

definition gate_draft :: "string \<Rightarrow> job_type \<Rightarrow> draft" where
  "gate_draft name ty = \<lparr>dr_Name = name, dr_JobType = ty, dr_JobImage = [], dr_StepName = [], dr_StepIndex = None, dr_GateCycle = name\<rparr>"

definition mig_draft :: "nat \<Rightarrow> MigStep \<Rightarrow> draft" where
  "mig_draft i st = \<lparr>dr_Name = ''mig-'' @ show_nat i, dr_JobType = JobTypeMig,
     dr_JobImage = (if ji_Universal (ms_Image st) \<noteq> [] then TrimSpace (ji_Universal (ms_Image st)) else []),
     dr_StepName = ms_Name st, dr_StepIndex = Some (int i), dr_GateCycle = []\<rparr>"

definition mig_drafts :: "MigStep list \<Rightarrow> draft list" where
  "mig_drafts steps =
     (if length steps > 1 then map (\<lambda>(i, st). mig_draft i st) (enumerate 0 steps)
      else case steps of
        st # _ \<Rightarrow> [mig_draft 0 st]
      | [] \<Rightarrow> [\<lparr>dr_Name = ''mig-0'', dr_JobType = JobTypeMig, dr_JobImage = [], dr_StepName = [], dr_StepIndex = Some 0,
               dr_GateCycle = []\<rparr>])"

definition drafts :: "MigSpec \<Rightarrow> draft list" where
  "drafts spec =
     (let buildGateDisabled = (case mig_BuildGate spec of None \<Rightarrow> False | Some bg \<Rightarrow> bg_Disabled bg)
      in (if buildGateDisabled then [] else [gate_draft ''pre-gate'' JobTypePreGate]) @ mig_drafts (mig_Steps spec) @
         (if buildGateDisabled then [] else [gate_draft ''post-gate'' JobTypePostGate]))"

definition NewMigJobMeta :: JobMeta where
  "NewMigJobMeta = \<lparr>jm_Kind = ''mig'', jm_Gate = None, jm_Build = None, jm_MigStepName = [], jm_MigStepIndex = None, jm_GateCycleName = []\<rparr>"

definition NewMigJobMetaWithStepName :: "string \<Rightarrow> JobMeta" where
  "NewMigJobMetaWithStepName stepName = NewMigJobMeta\<lparr>jm_MigStepName := stepName\<rparr>"

definition draft_meta :: "draft \<Rightarrow> JobMeta" where
  "draft_meta d =
     (if dr_StepName d \<noteq> [] then NewMigJobMetaWithStepName (dr_StepName d) else NewMigJobMeta)
       \<lparr>jm_MigStepIndex := dr_StepIndex d, jm_GateCycleName := TrimSpace (dr_GateCycle d)\<rparr>"

datatype plan_error = PlanParse parse_error | PlanMeta string

fun plan_drafts :: "draft list \<Rightarrow> plan_error + JobPlan list" where
  "plan_drafts [] = Inr []"
| "plan_drafts (d # ds) =
     (case MarshalJobMeta (Some (draft_meta d)) of
        None \<Rightarrow> Inl (PlanMeta (dr_Name d))
      | Some meta \<Rightarrow> res_bind (plan_drafts ds) (\<lambda>ps.
          Inr (\<lparr>plan_Name = dr_Name d, plan_JobType = dr_JobType d, plan_JobImage = dr_JobImage d, plan_Meta = RawJson meta\<rparr> # ps)))"

definition planJobsFromSpec :: "externals \<Rightarrow> raw_json \<Rightarrow> plan_error + JobPlan list" where
  "planJobsFromSpec ex spec =
     (case ParseMigSpecJSON (ex_Schema ex) (ex_KSUID ex) spec of
        Inl e \<Rightarrow> Inl (PlanParse e)
      | Inr migsSpec \<Rightarrow> plan_drafts (drafts migsSpec))"

section \<open>Ephemeral tokens\<close>

definition schemeAndHostForRepoURL :: "externals \<Rightarrow> string \<Rightarrow> string \<times> string" where
  "schemeAndHostForRepoURL ex raw =
     (case ex_ParseURL ex (TrimSpace raw) of
        None \<Rightarrow> ([], [])
      | Some (scheme, host) \<Rightarrow> (ToLower (TrimSpace scheme), ToLower (TrimSpace host)))"

text \<open>\<open>None\<close> is the error; without a token hash and token are empty.\<close>

definition validateGitLabTokenRequest :: "externals \<Rightarrow> string option \<Rightarrow> (string \<times> string) option" where
  "validateGitLabTokenRequest ex token = (case token of None \<Rightarrow> Some ([], []) | Some t \<Rightarrow> ValidateRequest (ex_Sha256 ex) t)"

definition validateGitLabTokenRequestForRepos :: "externals \<Rightarrow> string option \<Rightarrow> string list \<Rightarrow> (string \<times> string) option" where
  "validateGitLabTokenRequestForRepos ex token repoURLs =
     (case validateGitLabTokenRequest ex token of
        None \<Rightarrow> None
      | Some (hash, tok) \<Rightarrow>
          if hash = [] then Some (hash, tok)
          else if ex_GitLabHost ex = [] then None
          else if \<forall>u \<in> set repoURLs. fst (schemeAndHostForRepoURL ex u) = ''https'' \<and>
                     ToLower (snd (schemeAndHostForRepoURL ex u)) = ToLower (ex_GitLabHost ex)
          then Some (hash, tok) else None)"

section \<open>Cancelling\<close>

text \<open>The results are status codes.\<close>

definition cancelRunHandlerV1 :: "timestamp \<Rightarrow> run_id \<Rightarrow> server_state \<Rightarrow> nat \<times> server_state" where
  "cancelRunHandlerV1 now runID s =
     (case GetRun runID (sv_DB s) of
        Inl ErrNoRows \<Rightarrow> (404, s)
      | Inl _ \<Rightarrow> (500, s)
      | Inr r \<Rightarrow>
          if \<not> IsTerminalRunStatus (run_Status r) then
            (case CancelRun now runID (sv_DB s) of
               Inl _ \<Rightarrow> (500, s)
             | Inr d \<Rightarrow>
                 let s' = s\<lparr>sv_DB := d, sv_Tokens := ReleaseRuns [runID] (sv_Tokens s)\<rparr>
                 in (case GetRun runID d of Inl _ \<Rightarrow> (500, s') | Inr _ \<Rightarrow> (200, s')))
          else (200, s\<lparr>sv_Tokens := ReleaseRuns [runID] (sv_Tokens s)\<rparr>))"

definition cancelWaveHandler :: "timestamp \<Rightarrow> wave_id \<Rightarrow> server_state \<Rightarrow> nat \<times> server_state" where
  "cancelWaveHandler now waveID s =
     (case CancelWave now waveID (sv_DB s) of
        Inl _ \<Rightarrow> (500, s)
      | Inr d \<Rightarrow>
          let s' = s\<lparr>sv_DB := d, sv_Tokens := ReleaseWave d waveID (sv_Tokens s)\<rparr>
          in (case GetWave waveID d of Inl _ \<Rightarrow> (500, s') | Inr _ \<Rightarrow> (200, s')))"

section \<open>Restarting\<close>

record RunRestartRequest =
  rq_FromFailed :: bool
  rq_GitLabToken :: "string option"

fun restart_error_code :: "store_error \<Rightarrow> nat" where
  "restart_error_code (ActiveRepoRunError _ _ _) = 409"
| "restart_error_code ErrRunRestartActive = 409"
| "restart_error_code ErrRunResumeInvalid = 409"
| "restart_error_code ErrRunRestartWaveCancelled = 409"
| "restart_error_code ErrNoRows = 404"
| "restart_error_code _ = 500"

text \<open>\<open>Inl\<close> is the status code of the refusal.\<close>

definition validateRestartGitLabTokenRequest :: "externals \<Rightarrow> db \<Rightarrow> run \<Rightarrow> string option \<Rightarrow> nat + string \<times> string" where
  "validateRestartGitLabTokenRequest ex d r token =
     (case token of
        None \<Rightarrow> Inr ([], [])
      | Some t \<Rightarrow> (case repoURLForID (run_RepoID r) d of
          Inl ErrNoRows \<Rightarrow> Inl 404
        | Inl _ \<Rightarrow> Inl 400
        | Inr url \<Rightarrow> (case validateGitLabTokenRequestForRepos ex (Some t) [url] of None \<Rightarrow> Inl 400 | Some ht \<Rightarrow> Inr ht)))"

text \<open>The last part: register the token, restart the run, and release the run again when the store refuses.\<close>

definition restart_commit ::
  "timestamp \<Rightarrow> string \<Rightarrow> (nat \<Rightarrow> job_id) \<Rightarrow> string \<Rightarrow> string \<Rightarrow> RestartRunParams \<Rightarrow> server_state \<Rightarrow> nat \<times> server_state" where
  "restart_commit now nowText newJobID hash token arg s =
     (let reg = (if hash \<noteq> [] then Register hash token [rr_RunID arg] (sv_Tokens s) else sv_Tokens s) in
      case RestartRun now nowText newJobID arg (sv_DB s) of
        Inr (_, d) \<Rightarrow> (200, s\<lparr>sv_DB := d, sv_Tokens := reg\<rparr>)
      | Inl e \<Rightarrow> (restart_error_code e, s\<lparr>sv_Tokens := (if hash \<noteq> [] then ReleaseRuns [rr_RunID arg] reg else reg)\<rparr>))"

text \<open>The body is \<open>None\<close> when it is not a valid request document.\<close>

definition restartRunHandler ::
  "externals \<Rightarrow> tables \<Rightarrow> timestamp \<Rightarrow> string \<Rightarrow> (nat \<Rightarrow> job_id) \<Rightarrow> run_id \<Rightarrow> RunRestartRequest option \<Rightarrow> server_state \<Rightarrow> nat \<times> server_state" where
  "restartRunHandler ex tb now nowText newJobID runID body s =
     (case body of
        None \<Rightarrow> (400, s)
      | Some req \<Rightarrow> (case GetRun runID (sv_DB s) of
          Inl ErrNoRows \<Rightarrow> (404, s)
        | Inl _ \<Rightarrow> (500, s)
        | Inr existingRun \<Rightarrow> (case validateRestartGitLabTokenRequest ex (sv_DB s) existingRun (rq_GitLabToken req) of
            Inl code \<Rightarrow> (code, s)
          | Inr (hash, token) \<Rightarrow> (case GetSpec (tb_SpecBody tb) (run_SpecID existingRun) (sv_DB s) of
              Inl _ \<Rightarrow> (500, s)
            | Inr spec \<Rightarrow> (case planJobsFromSpec ex spec of
                Inl _ \<Rightarrow> (500, s)
              | Inr plannedJobs \<Rightarrow> (case RunStatsWithMarker hash of
                  None \<Rightarrow> (400, s)
                | Some runStats \<Rightarrow>
                    restart_commit now nowText newJobID hash token
                      \<lparr>rr_FromFailed = rq_FromFailed req, rr_ExpectedResumeCount = ResumeCount (run_Stats existingRun), rr_RunID = runID,
                       rr_ExpectedAttempt = run_Attempt existingRun, rr_Stats = runStats, rr_Jobs = plannedJobs\<rparr> s))))))"

section \<open>Launching a wave\<close>

text \<open>\<^verbatim>\<open>DISTINCT ON (repo_id) ... ORDER BY repo_id, created_at DESC, id DESC\<close>: of the ended runs of a repository the latest.\<close>

definition newer :: "run \<Rightarrow> run \<Rightarrow> bool" where
  "newer a b \<longleftrightarrow> run_CreatedAt b < run_CreatedAt a \<or> (run_CreatedAt b = run_CreatedAt a \<and> run_ID b < run_ID a)"

definition latest_run :: "run list \<Rightarrow> run option" where
  "latest_run rs = fold (\<lambda>r acc. case acc of None \<Rightarrow> Some r | Some b \<Rightarrow> if newer r b then Some r else acc) rs None"

definition ListFailedRepoIDsByMig :: "string \<Rightarrow> db \<Rightarrow> repo_id list" where
  "ListFailedRepoIDsByMig migID d =
     (let rs = filter (\<lambda>r. run_MigID r = migID \<and> IsTerminalRunStatus (run_Status r)) (db_runs d)
      in filter (\<lambda>i. case latest_run (filter (\<lambda>r. run_RepoID r = i) rs) of Some r \<Rightarrow> run_Status r = RunStatusFail | None \<Rightarrow> False)
           (sort (remdups (map run_RepoID rs))))"

text \<open>\<open>ex_StripUser\<close> gives the URL without credentials when it has some.\<close>

definition NormalizeRepoURL :: "externals \<Rightarrow> string \<Rightarrow> string" where
  "NormalizeRepoURL ex raw =
     (let normalized = TrimSpace raw; lower = ToLower normalized;
          stripped = (if HasPrefix lower ''https://'' \<or> HasPrefix lower ''ssh://'' \<or> HasPrefix lower ''file://''
                      then (case ex_StripUser ex normalized of Some u \<Rightarrow> u | None \<Rightarrow> normalized) else normalized)
      in TrimSuffix (TrimSuffix stripped ''/'') ''.git'')"

text \<open>\<open>Inl\<close> is an error of a query.\<close>

fun repo_urls :: "db \<Rightarrow> MigRepo list \<Rightarrow> store_error + string list" where
  "repo_urls d [] = Inr []"
| "repo_urls d (m # ms) = res_bind (repoURLForID (mr_RepoID m) d) (\<lambda>u. res_bind (repo_urls d ms) (\<lambda>us. Inr (u # us)))"

definition selectReposForRun :: "externals \<Rightarrow> tables \<Rightarrow> db \<Rightarrow> string \<Rightarrow> string \<Rightarrow> string list \<Rightarrow> store_error + MigRepo list" where
  "selectReposForRun ex tb d migID mode repoURLs =
     (let allRepos = tb_MigRepos tb migID in
      if mode = ''all'' then Inr allRepos
      else if mode = ''failed'' then Inr (filter (\<lambda>m. mr_RepoID m \<in> set (ListFailedRepoIDsByMig migID d)) allRepos)
      else if mode = ''explicit'' then
        res_bind (repo_urls d allRepos) (\<lambda>us.
          Inr (map fst (filter (\<lambda>(_, u). NormalizeRepoURL ex u \<in> set (map (NormalizeRepoURL ex) repoURLs)) (zip allRepos us))))
      else Inl ErrNoRows)"

fun plan_runs ::
  "externals \<Rightarrow> string \<Rightarrow> raw_json \<Rightarrow> JobPlan list \<Rightarrow> (nat \<Rightarrow> run_id) \<Rightarrow> nat \<Rightarrow> (MigRepo \<times> string) list \<Rightarrow> RunPlan list option" where
  "plan_runs ex token stats jobPlan newRunID i [] = Some []"
| "plan_runs ex token stats jobPlan newRunID i ((m, url) # ms) =
     (case ex_ResolveCommit ex url (mr_BaseRef m) token of
        None \<Rightarrow> None
      | Some sha \<Rightarrow> map_option (Cons \<lparr>rp_ID = newRunID i, rp_RepoID = mr_RepoID m, rp_RepoBaseRef = mr_BaseRef m,
            rp_SourceCommitSha = sha, rp_RepoSha0 = sha, rp_Stats = stats, rp_Jobs = jobPlan\<rparr>)
          (plan_runs ex token stats jobPlan newRunID (i + 1) ms))"

record CreateMigRunRequest =
  cm_Mode :: string
  cm_Repos :: "string list"
  cm_CreatedBy :: "string option"
  cm_GitLabToken :: "string option"

record launch_ids =
  li_Wave :: wave_id
  li_Run :: "nat \<Rightarrow> run_id"
  li_Job :: "nat \<Rightarrow> nat \<Rightarrow> job_id"

text \<open>Register the token for the new runs, create them, and release them again when the store refuses.\<close>

definition launch_commit ::
  "timestamp \<Rightarrow> launch_ids \<Rightarrow> string \<Rightarrow> string \<Rightarrow> CreateWaveParams \<Rightarrow> RunPlan list \<Rightarrow> server_state \<Rightarrow> nat \<times> server_state" where
  "launch_commit now ids hash token wv plans s =
     (let runIDs = map rp_ID plans; reg = (if hash \<noteq> [] then Register hash token runIDs (sv_Tokens s) else sv_Tokens s) in
      case CreateWaveWithRuns now (li_Job ids) wv plans (sv_DB s) of
        Inr (_, d) \<Rightarrow> (201, s\<lparr>sv_DB := d, sv_Tokens := reg\<rparr>)
      | Inl e \<Rightarrow> (case e of ActiveRepoRunError _ _ _ \<Rightarrow> 409 | _ \<Rightarrow> 500,
                s\<lparr>sv_Tokens := (if hash \<noteq> [] then ReleaseRuns runIDs reg else reg)\<rparr>))"

text \<open>The checks of the request and of the project, up to the job plan. \<open>Inl\<close> is the status code of the refusal.\<close>

definition launch_checks ::
  "externals \<Rightarrow> tables \<Rightarrow> string \<Rightarrow> CreateMigRunRequest option \<Rightarrow> db \<Rightarrow> nat + CreateMigRunRequest \<times> string \<times> JobPlan list \<times> MigRepo list" where
  "launch_checks ex tb migID body d =
     (case body of
        None \<Rightarrow> Inl 400
      | Some req \<Rightarrow>
          if cm_Mode req \<notin> {''all'', ''failed'', ''explicit''} then Inl 400
          else if cm_Mode req = ''explicit'' \<and> cm_Repos req = [] then Inl 400
          else if migID \<notin> set (db_migs d) then Inl 404
          else if mg_Archived (tb_Mig tb migID) then Inl 409
          else case mg_SpecID (tb_Mig tb migID) of
            None \<Rightarrow> Inl 400
          | Some specID \<Rightarrow> (case GetSpec (tb_SpecBody tb) specID d of
              Inl _ \<Rightarrow> Inl 500
            | Inr spec \<Rightarrow> (case planJobsFromSpec ex spec of
                Inl _ \<Rightarrow> Inl 500
              | Inr jobPlan \<Rightarrow> (case selectReposForRun ex tb d migID (cm_Mode req) (cm_Repos req) of
                  Inl _ \<Rightarrow> Inl 500
                | Inr repos \<Rightarrow> if repos = [] then Inl 400 else Inr (req, specID, jobPlan, repos)))))"

definition createMigRunHandler ::
  "externals \<Rightarrow> tables \<Rightarrow> timestamp \<Rightarrow> launch_ids \<Rightarrow> string \<Rightarrow> CreateMigRunRequest option \<Rightarrow> server_state \<Rightarrow> nat \<times> server_state" where
  "createMigRunHandler ex tb now ids migID body s =
     (case launch_checks ex tb migID body (sv_DB s) of
        Inl code \<Rightarrow> (code, s)
      | Inr (req, specID, jobPlan, repos) \<Rightarrow> (case repo_urls (sv_DB s) repos of
          Inl _ \<Rightarrow> (500, s)
        | Inr urls \<Rightarrow> (case validateGitLabTokenRequestForRepos ex (cm_GitLabToken req) urls of
            None \<Rightarrow> (400, s)
          | Some (hash, token) \<Rightarrow> (case RunStatsWithMarker hash of
              None \<Rightarrow> (400, s)
            | Some runStats \<Rightarrow> (case plan_runs ex token runStats jobPlan (li_Run ids) 0 (zip repos urls) of
                None \<Rightarrow> (400, s)
              | Some plans \<Rightarrow>
                  launch_commit now ids hash token
                    \<lparr>cw_ID = li_Wave ids, cw_MigID = migID, cw_SpecID = specID, cw_CreatedBy = cm_CreatedBy req\<rparr> plans s)))))"

section \<open>The server as a transition system\<close>

text \<open>
  The requests of this theory, the steps of the control plane, which leave the registry alone, and the release of the runs of a wave when it
  ends.
\<close>

definition server_init :: "server_state \<Rightarrow> bool" where
  "server_init s \<longleftrightarrow> cp_init (sv_DB s) \<and> sv_Tokens s = NewRegistry"

inductive server_step :: "server_state \<Rightarrow> server_state \<Rightarrow> bool" where
  launch: "createMigRunHandler ex tb now ids migID body s = (code, s') \<Longrightarrow> \<forall>k i. \<not> IsEmpty (li_Job ids k i) \<Longrightarrow> \<forall>k. \<not> IsEmpty (li_Run ids k) \<Longrightarrow>
    server_step s s'"
| restart: "restartRunHandler ex tb now nowText newJobID runID body s = (code, s') \<Longrightarrow> \<forall>i. \<not> IsEmpty (newJobID i) \<Longrightarrow> \<not> IsEmpty runID \<Longrightarrow>
    server_step s s'"
| cancel_run: "cancelRunHandlerV1 now runID s = (code, s') \<Longrightarrow> server_step s s'"
| cancel_wave: "cancelWaveHandler now waveID s = (code, s') \<Longrightarrow> server_step s s'"
| control_plane: "cp_step (sv_DB s) d \<Longrightarrow> server_step s (s\<lparr>sv_DB := d\<rparr>)"
| wave_ended: "server_step s (s\<lparr>sv_Tokens := ReleaseWave (sv_DB s) waveID (sv_Tokens s)\<rparr>)"

definition server_inv :: "server_state \<Rightarrow> bool" where
  "server_inv s \<longleftrightarrow> db_inv (sv_DB s) \<and> reg_ok (sv_Tokens s)"

lemma restart_commit_db:
  assumes "restart_commit now nowText newJobID hash token arg s = (code, s')" "\<forall>i. \<not> IsEmpty (newJobID i)"
  shows "sv_DB s' = sv_DB s \<or> cp_step (sv_DB s) (sv_DB s')"
  using assms by (auto simp: restart_commit_def Let_def split: sum.splits prod.splits intro: cp_step.restart)

lemma launch_commit_db:
  assumes "launch_commit now ids hash token wv plans s = (code, s')" "\<forall>k i. \<not> IsEmpty (li_Job ids k i)"
  shows "sv_DB s' = sv_DB s \<or> cp_step (sv_DB s) (sv_DB s')"
  using assms by (auto simp: launch_commit_def Let_def split: sum.splits prod.splits intro: cp_step.submit)

lemma restart_cases:
  assumes "restartRunHandler ex tb now nowText newJobID runID body s = (code, s')"
  obtains "s' = s"
  | hash token arg where "restart_commit now nowText newJobID hash token arg s = (code, s')" "rr_RunID arg = runID"
      "hash = [] \<or> TrimSpace token \<noteq> []" "RunStatsWithMarker hash \<noteq> None"
proof -
  have tok: "hash = [] \<or> TrimSpace token \<noteq> []" if "validateRestartGitLabTokenRequest ex d r t = Inr (hash, token)" for d r t hash token
    using that by (auto simp: validateRestartGitLabTokenRequest_def validateGitLabTokenRequestForRepos_def validateGitLabTokenRequest_def
        ValidateRequest_def Let_def split: option.splits if_splits sum.splits store_error.splits)
  show thesis
  proof (cases "s' = s")
    case True
    then show ?thesis by (rule that(1))
  next
    case False
    then obtain r t hash token arg where "validateRestartGitLabTokenRequest ex (sv_DB s) r t = Inr (hash, token)"
      "restart_commit now nowText newJobID hash token arg s = (code, s')" "rr_RunID arg = runID" "RunStatsWithMarker hash \<noteq> None"
      using assms by (fastforce simp: restartRunHandler_def split: option.splits sum.splits store_error.splits prod.splits)
    then show ?thesis using tok by (intro that(2)) blast+
  qed
qed

lemma launch_cases:
  assumes "createMigRunHandler ex tb now ids migID body s = (code, s')"
  obtains "s' = s" "code \<noteq> 201"
  | req specID jobPlan repos urls hash token stats plans where "launch_checks ex tb migID body (sv_DB s) = Inr (req, specID, jobPlan, repos)"
      "repo_urls (sv_DB s) repos = Inr urls" "validateGitLabTokenRequestForRepos ex (cm_GitLabToken req) urls = Some (hash, token)"
      "RunStatsWithMarker hash = Some stats" "plan_runs ex token stats jobPlan (li_Run ids) 0 (zip repos urls) = Some plans"
      "launch_commit now ids hash token
         \<lparr>cw_ID = li_Wave ids, cw_MigID = migID, cw_SpecID = specID, cw_CreatedBy = cm_CreatedBy req\<rparr> plans s = (code, s')"
proof (cases "launch_checks ex tb migID body (sv_DB s)")
  case (Inl c)
  have "c \<noteq> 201" using Inl by (auto simp: launch_checks_def split: option.splits if_splits sum.splits)
  then show ?thesis using assms Inl by (intro that(1)) (auto simp: createMigRunHandler_def)
next
  case (Inr x)
  obtain req specID jobPlan repos where x: "x = (req, specID, jobPlan, repos)" by (cases x)
  show ?thesis using assms Inr that by (auto simp: createMigRunHandler_def x split: sum.splits option.splits prod.splits)
qed

lemma plan_runs_ids:
  "plan_runs ex token stats jobPlan newRunID i ms = Some plans \<Longrightarrow>
   map rp_ID plans = map newRunID [i..<i + length ms] \<and> map rp_RepoID plans = map (mr_RepoID \<circ> fst) ms \<and>
   (\<forall>p \<in> set plans. rp_Jobs p = jobPlan \<and> rp_Stats p = stats \<and> rp_SourceCommitSha p = rp_RepoSha0 p)"
proof (induction ms arbitrary: i plans)
  case (Cons m ms)
  obtain m1 url where m: "m = (m1, url)" by (cases m)
  from Cons.prems obtain sha ps where "plan_runs ex token stats jobPlan newRunID (i + 1) ms = Some ps" and
    plans: "plans = \<lparr>rp_ID = newRunID i, rp_RepoID = mr_RepoID m1, rp_RepoBaseRef = mr_BaseRef m1,
            rp_SourceCommitSha = sha, rp_RepoSha0 = sha, rp_Stats = stats, rp_Jobs = jobPlan\<rparr> # ps"
    by (auto simp: m split: option.splits)
  with Cons.IH [of "i + 1" ps] show ?case by (simp add: m plans upt_conv_Cons del: upt_Suc)
qed simp

lemma repo_urls_length: "repo_urls d ms = Inr us \<Longrightarrow> length us = length ms"
  by (induction ms arbitrary: us) (auto simp: res_bind_Inr_iff)

lemma restart_commit_reg:
  assumes "restart_commit now nowText newJobID hash token arg s = (code, s')" "reg_ok (sv_Tokens s)" "\<not> IsEmpty (rr_RunID arg)"
  shows "reg_ok (sv_Tokens s')"
  using assms Register_keeps_ok [OF assms(2), of "[rr_RunID arg]" hash token]
  by (auto simp: restart_commit_def Let_def split: sum.splits prod.splits if_splits intro: ReleaseRuns_maps(1))

lemma launch_commit_reg:
  assumes "launch_commit now ids hash token wv plans s = (code, s')" "reg_ok (sv_Tokens s)" "\<forall>p \<in> set plans. \<not> IsEmpty (rp_ID p)"
  shows "reg_ok (sv_Tokens s')"
  using assms Register_keeps_ok [OF assms(2), of "map rp_ID plans" hash token]
  by (auto simp: launch_commit_def Let_def split: sum.splits prod.splits if_splits intro: ReleaseRuns_maps(1))

lemma ReleaseWave_ok: "reg_ok r \<Longrightarrow> reg_ok (ReleaseWave d waveID r)"
  by (simp add: ReleaseWave_def ReleaseRuns_maps(1))

text \<open>A request is a step of the control plane or leaves the database as it is.\<close>

lemma server_step_db: "server_step s s' \<Longrightarrow> sv_DB s' = sv_DB s \<or> cp_step (sv_DB s) (sv_DB s')"
proof (induction rule: server_step.induct)
  case (launch ex tb now ids migID body s code s')
  from launch(1) show ?case by (rule launch_cases) (use launch(2) launch_commit_db in blast)+
next
  case (restart ex tb now nowText newJobID runID body s code s')
  from restart(1) show ?case by (rule restart_cases) (use restart(2) restart_commit_db in blast)+
next
  case (cancel_run now runID s code s')
  then show ?case by (auto simp: cancelRunHandlerV1_def Let_def split: sum.splits store_error.splits if_splits intro: cp_step.cancel_run)
next
  case (cancel_wave now waveID s code s')
  then show ?case by (auto simp: cancelWaveHandler_def Let_def split: sum.splits if_splits intro: cp_step.cancel_wave)
qed simp_all

lemma server_step_reg: "server_step s s' \<Longrightarrow> reg_ok (sv_Tokens s) \<Longrightarrow> reg_ok (sv_Tokens s')"
proof (induction rule: server_step.induct)
  case (launch ex tb now ids migID body s code s')
  from launch(1) show ?case
  proof (rule launch_cases)
    fix req specID jobPlan repos urls hash token stats plans
    assume p: "plan_runs ex token stats jobPlan (li_Run ids) 0 (zip repos urls) = Some plans"
      and c: "launch_commit now ids hash token \<lparr>cw_ID = li_Wave ids, cw_MigID = migID, cw_SpecID = specID, cw_CreatedBy = cm_CreatedBy req\<rparr>
        plans s = (code, s')"
    have "set (map rp_ID plans) \<subseteq> range (li_Run ids)" using plan_runs_ids [OF p] by auto
    then have "\<forall>x \<in> set plans. \<not> IsEmpty (rp_ID x)" using launch(3) by auto
    with c launch(4) show ?thesis by (rule launch_commit_reg)
  qed (use launch(4) in simp)
next
  case (restart ex tb now nowText newJobID runID body s code s')
  from restart(1) show ?case by (rule restart_cases) (use restart restart_commit_reg in blast)+
next
  case (cancel_run now runID s code s')
  then show ?case by (auto simp: cancelRunHandlerV1_def Let_def split: sum.splits store_error.splits if_splits intro: ReleaseRuns_maps(1))
next
  case (cancel_wave now waveID s code s')
  then show ?case by (auto simp: cancelWaveHandler_def Let_def split: sum.splits if_splits intro: ReleaseWave_ok)
qed (simp_all add: ReleaseWave_ok)

interpretation server: invariant_system server_init server_step server_inv
proof
  fix s s'
  show "server_init s \<Longrightarrow> server_inv s" by (simp add: server_init_def server_inv_def cp_init_inv NewRegistry_ok)
  show "server_step s s' \<Longrightarrow> server_inv s \<Longrightarrow> server_inv s'"
    using server_step_db server_step_reg cp_step_inv by (fastforce simp: server_inv_def)
qed

lemma server_reachable_db: "reachable server_init server_step s \<Longrightarrow> reachable cp_init cp_step (sv_DB s)"
proof (induction rule: reachable.induct)
  case (init s)
  then show ?case by (intro reachable.init) (simp add: server_init_def)
next
  case (step s t)
  then show ?case using server_step_db [OF step(2)] reachable.step [of cp_init cp_step "sv_DB s" "sv_DB t"] by auto
qed

end
