(* ===== verification/Launch_Properties.thy ===== *)
theory Launch_Properties
  imports Run_Handlers Run_Properties
begin

text \<open>
  What a launch, a restart and a cancellation through the HTTP handlers guarantee: the job plan follows the specification, the runs follow
  the plan and the selected repositories, the requests keep the control plane's invariant, and a token is held exactly while a run uses it.
\<close>

section \<open>A sample launch\<close>

definition sample_launch_externals :: externals where
  "sample_launch_externals = \<lparr>
     ex_ParseURL = (\<lambda>u. if HasPrefix u ''https://'' then Some (''https'', takeWhile (\<lambda>c. c \<noteq> CHR ''/'') (drop 8 u)) else None),
     ex_StripUser = Some, ex_Sha256 = (\<lambda>t. if t = ''glpat'' then replicate 64 CHR ''a'' else replicate 64 CHR ''b''),
     ex_Schema = (\<lambda>_. True), ex_KSUID = (\<lambda>_. True), ex_ResolveCommit = (\<lambda>_ _ _. Some (sample_sha CHR ''c'')), ex_GitLabHost = ''git''\<rparr>"

definition sample_launch_spec :: json where
  "sample_launch_spec = JObj [(''steps'', JArr [JObj [(''name'', JStr ''upgrade''), (''image'', JStr ''img'')]])]"

definition sample_launch_tables :: tables where
  "sample_launch_tables = \<lparr>tb_SpecBody = (\<lambda>_. RawJson sample_launch_spec), tb_Mig = (\<lambda>i. \<lparr>mg_ID = i, mg_SpecID = Some ''s1'', mg_Archived = False\<rparr>),
     tb_MigRepos = (\<lambda>_. [\<lparr>mr_RepoID = ''p1'', mr_BaseRef = ''main''\<rparr>])\<rparr>"

definition sample_launch_ids :: launch_ids where
  "sample_launch_ids = \<lparr>li_Wave = ''w1'', li_Run = (\<lambda>k. sample_ids k 0), li_Job = sample_ids\<rparr>"

definition sample_launch_request :: CreateMigRunRequest where
  "sample_launch_request = \<lparr>cm_Mode = ''all'', cm_Repos = [], cm_CreatedBy = None, cm_GitLabToken = Some ''glpat''\<rparr>"

definition sample_launch_server :: server_state where
  "sample_launch_server = \<lparr>sv_DB = sample_init, sv_Tokens = NewRegistry\<rparr>"

definition sample_planned :: "JobPlan list" where
  "sample_planned = projr (planJobsFromSpec sample_launch_externals (RawJson sample_launch_spec))"

definition sample_run_plan :: RunPlan where
  "sample_run_plan = \<lparr>rp_ID = ''j'', rp_RepoID = ''p1'', rp_RepoBaseRef = ''main'', rp_SourceCommitSha = sample_sha CHR ''c'',
     rp_RepoSha0 = sample_sha CHR ''c'', rp_Stats = the (RunStatsWithMarker (replicate 64 CHR ''a'')), rp_Jobs = sample_planned\<rparr>"

definition sample_launch_wave :: CreateWaveParams where
  "sample_launch_wave = \<lparr>cw_ID = ''w1'', cw_MigID = ''m1'', cw_SpecID = ''s1'', cw_CreatedBy = None\<rparr>"

definition sample_launched :: server_state where
  "sample_launched = \<lparr>sv_DB = snd (projr (CreateWaveWithRuns 10 sample_ids sample_launch_wave [sample_run_plan] sample_init)),
     sv_Tokens = Register (replicate 64 CHR ''a'') ''glpat'' [''j''] NewRegistry\<rparr>"

lemma sample_plan_ok: "planJobsFromSpec sample_launch_externals (RawJson sample_launch_spec) = Inr sample_planned"
  unfolding sample_planned_def by code_simp

lemma sample_launch_stored:
  obtains x where "CreateWaveWithRuns 10 sample_ids sample_launch_wave [sample_run_plan] sample_init = Inr (x, sv_DB sample_launched)"
proof -
  have "isl (CreateWaveWithRuns 10 sample_ids sample_launch_wave [sample_run_plan] sample_init) = False" by code_simp
  then show thesis using that unfolding sample_launched_def
    by (cases "CreateWaveWithRuns 10 sample_ids sample_launch_wave [sample_run_plan] sample_init") auto
qed

lemma sample_launch_checks:
  "launch_checks sample_launch_externals sample_launch_tables ''m1'' (Some sample_launch_request) sample_init =
   Inr (sample_launch_request, ''s1'', sample_planned, [\<lparr>mr_RepoID = ''p1'', mr_BaseRef = ''main''\<rparr>])"
  by (simp add: launch_checks_def sample_launch_request_def sample_launch_tables_def sample_init_def GetSpec_def sample_plan_ok selectReposForRun_def)

lemma sample_launch_token:
  "repo_urls sample_init [\<lparr>mr_RepoID = ''p1'', mr_BaseRef = ''main''\<rparr>] = Inr [''https://git/p1'']"
  "validateGitLabTokenRequestForRepos sample_launch_externals (Some ''glpat'') [''https://git/p1''] = Some (replicate 64 CHR ''a'', ''glpat'')"
  "RunStatsWithMarker (replicate 64 CHR ''a'') = Some (rp_Stats sample_run_plan)"
  by code_simp+

lemma sample_launch:
  "createMigRunHandler sample_launch_externals sample_launch_tables 10 sample_launch_ids ''m1'' (Some sample_launch_request) sample_launch_server = (201, sample_launched)"
proof -
  have "plan_runs sample_launch_externals ''glpat'' (rp_Stats sample_run_plan) sample_planned (li_Run sample_launch_ids) 0
      [(\<lparr>mr_RepoID = ''p1'', mr_BaseRef = ''main''\<rparr>, ''https://git/p1'')] = Some [sample_run_plan]"
    by (simp add: sample_launch_externals_def sample_run_plan_def sample_launch_ids_def sample_ids_def)
  moreover obtain x where "CreateWaveWithRuns 10 sample_ids sample_launch_wave [sample_run_plan] sample_init = Inr (x, sv_DB sample_launched)"
    by (rule sample_launch_stored)
  then have "launch_commit 10 sample_launch_ids (replicate 64 CHR ''a'') ''glpat'' sample_launch_wave [sample_run_plan] sample_launch_server = (201, sample_launched)"
    by (simp add: launch_commit_def sample_launch_ids_def sample_launch_server_def Let_def) (simp add: sample_launched_def sample_run_plan_def)
  moreover have "sv_DB sample_launch_server = sample_init" "cm_GitLabToken sample_launch_request = Some ''glpat''"
    "\<lparr>cw_ID = li_Wave sample_launch_ids, cw_MigID = ''m1'', cw_SpecID = ''s1'', cw_CreatedBy = cm_CreatedBy sample_launch_request\<rparr> = sample_launch_wave"
    by (simp_all add: sample_launch_server_def sample_launch_request_def sample_launch_ids_def sample_launch_wave_def)
  ultimately show ?thesis using sample_launch_token sample_launch_checks
    by (simp add: createMigRunHandler_def del: plan_runs.simps repo_urls.simps)
qed

lemma sample_launch_ids_ok: "\<forall>k i. \<not> IsEmpty (li_Job sample_launch_ids k i)" "\<forall>k. \<not> IsEmpty (li_Run sample_launch_ids k)"
  using sample_ids_ok by (simp_all add: sample_launch_ids_def)

lemma sample_server_reachable:
  "reachable server_init server_step sample_launch_server" "reachable server_init server_step sample_launched"
proof -
  show i: "reachable server_init server_step sample_launch_server"
    by (rule reachable.init) (simp add: server_init_def sample_launch_server_def sample_init_ok)
  show "reachable server_init server_step sample_launched"
    by (rule reachable.step [of server_init server_step, OF i]) (rule server_step.launch [OF sample_launch sample_launch_ids_ok])
qed

section \<open>Job plans\<close>

lemma mig_drafts_steps: "sts \<noteq> [] \<Longrightarrow> mig_drafts sts = map (\<lambda>(i, st). mig_draft i st) (enumerate 0 sts)"
  by (cases sts; cases "tl sts") (auto simp: mig_drafts_def)

lemma draft_meta_ok:
  assumes "\<And>i. dr_StepIndex d = Some i \<Longrightarrow> 0 \<le> i \<and> i < 2 ^ 63" "dr_GateCycle d \<in> {[], ''pre-gate'', ''post-gate''}"
  obtains doc where "MarshalJobMeta (Some (draft_meta d)) = Some doc" "UnmarshalJobMeta (RawJson doc) = Some (draft_meta d)"
proof -
  have kind: "JobKind_Valid ''mig''" by code_simp
  have "TrimSpace (dr_GateCycle d) = dr_GateCycle d" using assms(2) by (auto; code_simp)
  then have "JobMeta_Validate (draft_meta d)" using assms kind
    by (auto simp: JobMeta_Validate_def draft_meta_def NewMigJobMeta_def NewMigJobMetaWithStepName_def split: option.splits)
  moreover have "meta_canonical (draft_meta d)" using assms(1)
    by (auto simp: meta_canonical_def draft_meta_def NewMigJobMeta_def NewMigJobMetaWithStepName_def int64_range_def split: option.splits)
  ultimately show thesis using job_meta_roundtrip that by blast
qed

text \<open>The plan of a draft: its name, type and image, and a metadata document that reads back as the draft's metadata.\<close>

definition plan_of :: "draft \<Rightarrow> JobPlan \<Rightarrow> bool" where
  "plan_of d p \<longleftrightarrow> plan_Name p = dr_Name d \<and> plan_JobType p = dr_JobType d \<and> plan_JobImage p = dr_JobImage d \<and>
     UnmarshalJobMeta (plan_Meta p) = Some (draft_meta d)"

lemma plan_drafts_ok:
  assumes "\<forall>d \<in> set ds. (\<forall>i. dr_StepIndex d = Some i \<longrightarrow> 0 \<le> i \<and> i < 2 ^ 63) \<and> dr_GateCycle d \<in> {[], ''pre-gate'', ''post-gate''}"
  shows "\<exists>ps. plan_drafts ds = Inr ps \<and> list_all2 plan_of ds ps"
  using assms
proof (induction ds)
  case (Cons d ds)
  then obtain ps where ps: "plan_drafts ds = Inr ps" "list_all2 plan_of ds ps" by auto
  obtain doc where doc: "MarshalJobMeta (Some (draft_meta d)) = Some doc" "UnmarshalJobMeta (RawJson doc) = Some (draft_meta d)"
    by (rule draft_meta_ok [of d]) (use Cons.prems in auto)
  then have "plan_of d \<lparr>plan_Name = dr_Name d, plan_JobType = dr_JobType d, plan_JobImage = dr_JobImage d, plan_Meta = RawJson doc\<rparr>"
    by (simp add: plan_of_def)
  then show ?case using ps doc(1) by simp
qed simp

definition gates_enabled :: "MigSpec \<Rightarrow> bool" where
  "gates_enabled spec \<longleftrightarrow> (case mig_BuildGate spec of None \<Rightarrow> True | Some bg \<Rightarrow> \<not> bg_Disabled bg)"

definition gate_part :: "MigSpec \<Rightarrow> string \<Rightarrow> job_type \<Rightarrow> draft list" where
  "gate_part spec name ty = (if gates_enabled spec then [gate_draft name ty] else [])"

lemma drafts_parts:
  assumes "mig_Steps spec \<noteq> []"
  shows "drafts spec = gate_part spec ''pre-gate'' JobTypePreGate @ map (\<lambda>(i, st). mig_draft i st) (enumerate 0 (mig_Steps spec)) @
    gate_part spec ''post-gate'' JobTypePostGate"
  by (simp add: drafts_def mig_drafts_steps [OF assms] gate_part_def gates_enabled_def split: option.splits)

lemma drafts_ok:
  assumes "length (mig_Steps spec) < 2 ^ 63" "mig_Steps spec \<noteq> []" "d \<in> set (drafts spec)"
  shows "(\<forall>i. dr_StepIndex d = Some i \<longrightarrow> 0 \<le> i \<and> i < 2 ^ 63) \<and> dr_GateCycle d \<in> {[], ''pre-gate'', ''post-gate''}"
proof -
  consider (gate) name ty where "d = gate_draft name ty" "name \<in> {''pre-gate'', ''post-gate''}"
    | (step) i st where "d = mig_draft i st" "i < length (mig_Steps spec)"
    using assms(3) by (auto simp: drafts_parts [OF assms(2)] gate_part_def in_set_enumerate_eq split: if_splits)
  then show ?thesis
  proof cases
    case step
    then have "int i < 2 ^ 63" using assms(1) by (metis of_nat_less_iff of_nat_numeral of_nat_power order.strict_trans)
    then show ?thesis by (simp add: step(1) mig_draft_def)
  qed (auto simp: gate_draft_def)
qed

text \<open>The job of a step.\<close>

definition step_job :: "nat \<times> MigStep \<Rightarrow> JobPlan \<Rightarrow> bool" where
  "step_job = (\<lambda>(i, st) p. plan_JobType p = JobTypeMig \<and> plan_Name p = ''mig-'' @ show_nat i \<and>
      plan_JobImage p = TrimSpace (ji_Universal (ms_Image st)) \<and>
      (\<exists>m. UnmarshalJobMeta (plan_Meta p) = Some m \<and> jm_MigStepIndex m = Some (int i) \<and> jm_MigStepName m = ms_Name st))"

lemma step_job_draft: "plan_of (mig_draft i st) p \<Longrightarrow> step_job (i, st) p"
  by (auto simp: step_job_def plan_of_def mig_draft_def draft_meta_def NewMigJobMeta_def NewMigJobMetaWithStepName_def TrimSpace_def
      simp del: show_nat.simps)

text \<open>
  C21. An accepted specification with fewer than \<open>2 ^ 63\<close> steps always has a job plan, and it follows the specification: unless gates are
  disabled a pre-gate first and a post-gate last, and between them one job per step, in order, named after its index, with the step's
  universal image if it has one, and with metadata that reads back as the index and the name of the step.
\<close>

theorem plan_follows_spec:
  assumes "ParseMigSpecJSON (ex_Schema ex) (ex_KSUID ex) body = Inr spec" "length (mig_Steps spec) < 2 ^ 63"
  shows "\<exists>pre migs post. planJobsFromSpec ex body = Inr (pre @ migs @ post) \<and>
    map plan_JobType pre = (if gates_enabled spec then [JobTypePreGate] else []) \<and>
    map plan_JobType post = (if gates_enabled spec then [JobTypePostGate] else []) \<and>
    list_all2 step_job (enumerate 0 (mig_Steps spec)) migs"
proof -
  have ne: "mig_Steps spec \<noteq> []"
    using assms(1) by (auto simp: ParseMigSpecJSON_def MigSpec_Validate_def split: raw_json.splits if_splits option.splits)
  define ms where "ms = map (\<lambda>(i, st). mig_draft i st) (enumerate 0 (mig_Steps spec))"
  obtain ps where ps: "plan_drafts (drafts spec) = Inr ps" "list_all2 plan_of (drafts spec) ps"
    using plan_drafts_ok drafts_ok [OF assms(2) ne] by blast
  then obtain pre migs post where app: "ps = pre @ migs @ post" and pre: "list_all2 plan_of (gate_part spec ''pre-gate'' JobTypePreGate) pre"
      and migs: "list_all2 plan_of ms migs" and post: "list_all2 plan_of (gate_part spec ''post-gate'' JobTypePostGate) post"
    unfolding drafts_parts [OF ne] ms_def by (auto simp: list_all2_append1)
  have types: "map plan_JobType qs = (if gates_enabled spec then [ty] else [])" if "list_all2 plan_of (gate_part spec name ty) qs" for name ty qs
    using that by (auto simp: gate_part_def plan_of_def gate_draft_def list_all2_Cons1 split: if_splits)
  have "list_all2 step_job (enumerate 0 (mig_Steps spec)) migs"
    using migs unfolding ms_def list_all2_map1
    by (rule list_all2_mono) (auto intro: step_job_draft)
  moreover have "planJobsFromSpec ex body = Inr (pre @ migs @ post)" using ps(1) assms(1) by (simp add: planJobsFromSpec_def app)
  ultimately show ?thesis using types [OF pre] types [OF post] by blast
qed

theorem plan_follows_spec_witness:
  "\<exists>pre migs post. planJobsFromSpec sample_launch_externals (RawJson sample_launch_spec) = Inr (pre @ migs @ post) \<and>
     map plan_JobType pre = [JobTypePreGate] \<and> map plan_JobType post = [JobTypePostGate] \<and> length migs = 1"
proof -
  define spec where "spec = projr (ParseMigSpecJSON (ex_Schema sample_launch_externals) (ex_KSUID sample_launch_externals) (RawJson sample_launch_spec))"
  have p: "ParseMigSpecJSON (ex_Schema sample_launch_externals) (ex_KSUID sample_launch_externals) (RawJson sample_launch_spec) = Inr spec"
    unfolding spec_def by code_simp
  have s: "length (mig_Steps spec) = 1" "gates_enabled spec" unfolding spec_def by code_simp+
  have "length (mig_Steps spec) < 2 ^ 63" by (simp add: s(1))
  note plan = plan_follows_spec [OF p this, unfolded if_P [OF s(2)]]
  show ?thesis using plan list_all2_lengthD s(1) by (metis length_enumerate)
qed

section \<open>Launches\<close>

lemma hex_no_space: "is_hex_lower c \<Longrightarrow> \<not> is_space c"
  by (auto simp: is_hex_lower_def is_space_def)

lemma hex_trimmed:
  assumes "list_all is_hex_lower h"
  shows "TrimSpace h = h"
proof -
  have id: "dropWhile is_space xs = xs" if "list_all is_hex_lower xs" for xs
    using that hex_no_space by (cases xs) auto
  show ?thesis using assms id [of h] id [of "rev h"] by (simp add: TrimSpace_def)
qed

lemma launch_checks_Inr:
  assumes "launch_checks ex tb migID body d = Inr (req, specID, jobPlan, repos)"
  shows "body = Some req" "mg_SpecID (tb_Mig tb migID) = Some specID" "planJobsFromSpec ex (tb_SpecBody tb specID) = Inr jobPlan"
    "selectReposForRun ex tb d migID (cm_Mode req) (cm_Repos req) = Inr repos" "repos \<noteq> []"
  using assms by (auto simp: launch_checks_def GetSpec_def split: option.splits sum.splits if_splits)

text \<open>What a selected repository becomes: a planned run, which finds the token of the request.\<close>

definition launched :: "launch_ids \<Rightarrow> JobPlan list \<Rightarrow> string option \<Rightarrow> server_state \<Rightarrow> nat \<times> MigRepo \<Rightarrow> run \<times> job list \<Rightarrow> bool" where
  "launched ids jobPlan token s = (\<lambda>(i, m) (r, js). r \<in> set (db_runs (sv_DB s)) \<and> run_ID r = li_Run ids i \<and> run_RepoID r = mr_RepoID m \<and>
     run_WaveID r = li_Wave ids \<and> run_Status r = RunStatusRunning \<and> js = current_chain (sv_DB s) r \<and>
     map job_Name js = map plan_Name jobPlan \<and> map job_JobType js = map plan_JobType jobPlan \<and> job_Status (hd js) = JobStatusQueued \<and>
     (\<forall>t. token = Some t \<longrightarrow> Token (HashFromRunStats (RawJson (run_Stats r))) (sv_Tokens s) = Some (TrimSpace t)))"

lemma request_hash:
  assumes sha: "\<forall>t. length (ex_Sha256 ex t) = 64 \<and> list_all is_hex_lower (ex_Sha256 ex t)"
    and v: "validateGitLabTokenRequestForRepos ex (Some t) urls = Some (hash, token)"
  shows "TrimSpace hash = hash" "hash \<noteq> []" "length hash = 64 \<and> list_all is_hex_lower hash" "token = TrimSpace t" "TrimSpace t \<noteq> []"
proof -
  have h: "hash = ex_Sha256 ex token" "token = TrimSpace t" "TrimSpace t \<noteq> []"
    using v by (auto simp: validateGitLabTokenRequestForRepos_def validateGitLabTokenRequest_def ValidateRequest_def Let_def
        split: option.splits if_splits)
  then show "TrimSpace hash = hash" "hash \<noteq> []" "length hash = 64 \<and> list_all is_hex_lower hash" "token = TrimSpace t" "TrimSpace t \<noteq> []"
    using sha [THEN spec, of token] hex_trimmed [of hash] by auto
qed

lemma launched_token:
  assumes sha: "\<forall>t. length (ex_Sha256 ex t) = 64 \<and> list_all is_hex_lower (ex_Sha256 ex t)"
    and ok: "reg_ok r" and v: "validateGitLabTokenRequestForRepos ex (Some t) urls = Some (hash, token)"
    and st: "RunStatsWithMarker hash = Some stats" and xs: "xs \<noteq> []" "\<forall>x \<in> set xs. \<not> IsEmpty x"
  obtains v where "stats = RawJson v" "hash \<noteq> []" "Token (HashFromRunStats (RawJson v)) (Register hash token xs r) = Some (TrimSpace t)"
proof -
  note h = request_hash [OF sha v]
  obtain v where s: "stats = RawJson v" using st h by (auto simp: RunStatsWithMarker_def Let_def)
  have "HashFromRunStats (RawJson v) = hash" using marker_roundtrip [OF st] h(1,2) by (simp add: s)
  then show thesis using that [OF s] Register_ok(2) [OF ok h(1,2) _ xs, of token] h(2,4,5) by simp
qed

text \<open>
  C22. A launch that answers created has made one run per selected repository, in order: the run is running in the new wave, its jobs are
  those planned from the project's specification, the first is queued; and when the request carries a token, the marker stored with the run
  leads to that token in the registry. The digest is 64 lower-case hexadecimal digits.
\<close>

theorem launch_creates_selected_runs:
  assumes "reachable server_init server_step s" "createMigRunHandler ex tb now ids migID body s = (201, s')"
    and ids: "\<forall>k i. \<not> IsEmpty (li_Job ids k i)" "\<forall>k. \<not> IsEmpty (li_Run ids k)"
    and sha: "\<forall>t. length (ex_Sha256 ex t) = 64 \<and> list_all is_hex_lower (ex_Sha256 ex t)"
  shows "\<exists>req specID jobPlan repos runs. body = Some req \<and> mg_SpecID (tb_Mig tb migID) = Some specID \<and>
    planJobsFromSpec ex (tb_SpecBody tb specID) = Inr jobPlan \<and>
    selectReposForRun ex tb (sv_DB s) migID (cm_Mode req) (cm_Repos req) = Inr repos \<and> repos \<noteq> [] \<and>
    list_all2 (launched ids jobPlan (cm_GitLabToken req) s') (enumerate 0 repos) runs"
  using assms(2)
proof (rule launch_cases)
  fix req :: CreateMigRunRequest and specID jobPlan repos urls hash token stats plans
  let ?wv = "\<lparr>cw_ID = li_Wave ids, cw_MigID = migID, cw_SpecID = specID, cw_CreatedBy = cm_CreatedBy req\<rparr>"
  assume checks: "launch_checks ex tb migID body (sv_DB s) = Inr (req, specID, jobPlan, repos)"
    and urls: "repo_urls (sv_DB s) repos = Inr urls" and tok: "validateGitLabTokenRequestForRepos ex (cm_GitLabToken req) urls = Some (hash, token)"
    and stats: "RunStatsWithMarker hash = Some stats" and plans: "plan_runs ex token stats jobPlan (li_Run ids) 0 (zip repos urls) = Some plans"
    and commit: "launch_commit now ids hash token ?wv plans s = (201, s')"
  note c = launch_checks_Inr [OF checks]
  have len: "length urls = length repos" by (rule repo_urls_length [OF urls])
  have p: "map rp_ID plans = map (li_Run ids) [0..<length repos]" "map rp_RepoID plans = map mr_RepoID repos"
    "\<forall>p \<in> set plans. rp_Jobs p = jobPlan \<and> rp_Stats p = stats"
    using plan_runs_ids [OF plans] len map_map [of mr_RepoID fst "zip repos urls"] by auto
  obtain w ms where cw: "CreateWaveWithRuns now (li_Job ids) ?wv plans (sv_DB s) = Inr ((w, ms), sv_DB s')"
    and reg: "sv_Tokens s' = (if hash \<noteq> [] then Register hash token (map rp_ID plans) (sv_Tokens s) else sv_Tokens s)"
    using commit by (auto simp: launch_commit_def Let_def split: sum.splits store_error.splits prod.splits)
  have pl: "list_all2 (planned (sv_DB s') (li_Wave ids)) plans ms"
    using submission_parts [OF server_reachable_db [OF assms(1)] cw ids(1)] by simp
  have rids: "map rp_ID plans \<noteq> []" "\<forall>x \<in> set (map rp_ID plans). \<not> IsEmpty x" using c(5) ids(2) by (auto simp: p(1))
  have ok: "reg_ok (sv_Tokens s)" using server.reachable_inv [OF assms(1)] by (simp add: server_inv_def)
  have find: "Token (HashFromRunStats (RawJson (run_Stats r))) (sv_Tokens s') = Some (TrimSpace t)"
    if "cm_GitLabToken req = Some t" "\<forall>v. stats = RawJson v \<longrightarrow> run_Stats r = v" for t r
    using launched_token [OF sha ok tok [unfolded that(1)] stats rids] that(2) by (auto simp: reg)
  have "list_all2 (launched ids jobPlan (cm_GitLabToken req) s') (enumerate 0 repos) ms"
  proof (rule list_all2_all_nthI)
    show l: "length (enumerate 0 repos) = length ms" using list_all2_lengthD [OF pl] map_eq_imp_length_eq [OF p(2)] by simp
    fix i assume i: "i < length (enumerate 0 repos)"
    have ip: "i < length plans" using i map_eq_imp_length_eq [OF p(2)] by simp
    have "rp_ID (plans ! i) = li_Run ids i" "rp_RepoID (plans ! i) = mr_RepoID (repos ! i)"
      using p(1,2) ip i by (metis nth_map length_enumerate length_map length_upt diff_zero nth_upt add_0, metis nth_map length_enumerate)
    moreover have "plans ! i \<in> set plans" using ip by simp
    ultimately show "launched ids jobPlan (cm_GitLabToken req) s' (enumerate 0 repos ! i) (ms ! i)"
      using list_all2_nthD [OF pl ip] find p(3) i by (auto simp: launched_def planned_def nth_enumerate_eq split: prod.splits)
  qed
  then show ?thesis using c by blast
qed simp

theorem launch_creates_selected_runs_witness:
  "\<exists>jobPlan runs. list_all2 (launched sample_launch_ids jobPlan (Some ''glpat'') sample_launched) [(0, \<lparr>mr_RepoID = ''p1'', mr_BaseRef = ''main''\<rparr>)] runs"
proof -
  have "\<forall>t. length (ex_Sha256 sample_launch_externals t) = 64 \<and> list_all is_hex_lower (ex_Sha256 sample_launch_externals t)"
    by (simp add: sample_launch_externals_def list_all_iff is_hex_lower_def)
  from launch_creates_selected_runs [OF sample_server_reachable(1) sample_launch sample_launch_ids_ok this]
  show ?thesis by (auto simp: sample_launch_request_def selectReposForRun_def sample_launch_tables_def)
qed

section \<open>Tokens\<close>

lemma run_hash_iff:
  assumes "reg_ok r" "h \<noteq> []"
  shows "run_hash r x = h \<longleftrightarrow> map_of (reg_RunHash r) x = Some h" "run_hash r x = h \<longleftrightarrow> uses r h x"
proof -
  show "run_hash r x = h \<longleftrightarrow> map_of (reg_RunHash r) x = Some h" using assms(2) by (auto simp: run_hash_def split: option.split)
  then show "run_hash r x = h \<longleftrightarrow> uses r h x" using reg_atD(1) [OF assms(1) [unfolded reg_ok_def]] by simp
qed

lemma release_token:
  assumes ok: "reg_ok r" and h: "TrimSpace h = h" "h \<noteq> []"
  shows "Token h (ReleaseRuns xs r) = (if \<exists>x. x \<notin> set xs \<and> run_hash r x = h then Token h r else None)"
  unfolding Token_entries [OF ReleaseRuns_maps(1) [OF ok] h] Token_entries [OF ok h] ReleaseRuns_maps(3) [OF ok] run_hash_iff(2) [OF ok h(2)] ..

lemma released_run: "reg_ok r \<Longrightarrow> x \<in> set xs \<Longrightarrow> run_hash (ReleaseRuns xs r) x = []"
  by (simp add: run_hash_def ReleaseRuns_maps(2))

definition sample_restart_request :: RunRestartRequest where
  "sample_restart_request = \<lparr>rq_FromFailed = False, rq_GitLabToken = Some ''glpat2''\<rparr>"

lemma sample_sha_ok: "\<forall>t. length (ex_Sha256 sample_launch_externals t) = 64 \<and> list_all is_hex_lower (ex_Sha256 sample_launch_externals t)"
  by (simp add: sample_launch_externals_def list_all_iff is_hex_lower_def)

lemma sample_launch_tokens:
  "TrimSpace (replicate 64 CHR ''a'') = replicate 64 CHR ''a''" "run_hash (sv_Tokens sample_launched) ''j'' = replicate 64 CHR ''a''"
  "x \<noteq> ''j'' \<Longrightarrow> run_hash (sv_Tokens sample_launched) x = []" "\<not> IsEmpty ''j''"
proof -
  show t: "TrimSpace (replicate 64 CHR ''a'') = replicate 64 CHR ''a''" by (rule hex_trimmed) (simp add: list_all_iff is_hex_lower_def)
  show j: "\<not> IsEmpty ''j''" by code_simp
  have g: "TrimSpace ''glpat'' \<noteq> []" by code_simp
  have "map_of (reg_RunHash (sv_Tokens sample_launched)) = (\<lambda>x. if x = ''j'' then Some (replicate 64 CHR ''a'') else None)"
    using Register_ok(3) [OF NewRegistry_ok t _ g, of "[''j'']"] j by (simp add: sample_launched_def) (simp add: NewRegistry_def cong: if_cong)
  then show "run_hash (sv_Tokens sample_launched) ''j'' = replicate 64 CHR ''a''"
    "x \<noteq> ''j'' \<Longrightarrow> run_hash (sv_Tokens sample_launched) x = []" by (simp_all add: run_hash_def)
qed

lemma server_tokens_ok: "reachable server_init server_step s \<Longrightarrow> reg_ok (sv_Tokens s)"
  using server.reachable_inv by (simp add: server_inv_def)

text \<open>
  C23. In every state reached by launches over a project, restarts, cancellations, ends of waves and steps of the control plane, in any
  order, a token is in memory exactly when some run is registered for it.
\<close>

theorem token_held_while_used:
  assumes "reachable server_init server_step s" "TrimSpace h = h" "h \<noteq> []"
  shows "Token h (sv_Tokens s) \<noteq> None \<longleftrightarrow> (\<exists>x. run_hash (sv_Tokens s) x = h)"
proof -
  note ok = server_tokens_ok [OF assms(1)]
  have "\<exists>x. uses (sv_Tokens s) h x" if "map_of (reg_Entries (sv_Tokens s)) h = Some e" for e
    using reg_atD(4) [OF ok [unfolded reg_ok_def] that assms(3)] that by (auto simp: uses_def neq_Nil_conv)
  then show ?thesis unfolding Token_entries [OF ok assms(2,3)] run_hash_iff(2) [OF ok assms(3)] by (auto simp: uses_def)
qed

theorem token_held_while_used_witness: "Token (replicate 64 CHR ''a'') (sv_Tokens sample_launched) \<noteq> None"
  using token_held_while_used [OF sample_server_reachable(2) sample_launch_tokens(1)] sample_launch_tokens(2) by auto

text \<open>
  Cancelling a run forgets its use of a token, and drops a token exactly when no other run is registered for it.
\<close>

theorem cancelled_run_forgets_token:
  assumes "reachable server_init server_step s" "cancelRunHandlerV1 now runID s = (200, s')" "TrimSpace h = h" "h \<noteq> []"
  shows "run_hash (sv_Tokens s') runID = [] \<and>
    Token h (sv_Tokens s') = (if \<exists>x. x \<noteq> runID \<and> run_hash (sv_Tokens s) x = h then Token h (sv_Tokens s) else None)"
proof -
  note ok = server_tokens_ok [OF assms(1)]
  have "sv_Tokens s' = ReleaseRuns [runID] (sv_Tokens s)"
    using assms(2) by (auto simp: cancelRunHandlerV1_def Let_def split: sum.splits store_error.splits if_splits)
  then show ?thesis using release_token [OF ok assms(3,4), of "[runID]"] released_run [OF ok, of runID "[runID]"] by simp
qed

lemma sample_cancelled_run:
  obtains s' where "cancelRunHandlerV1 20 ''j'' sample_launched = (200, s')"
proof -
  have "GetRun ''j'' (sv_DB sample_launched) = Inr (hd (db_runs (sv_DB sample_launched)))" by code_simp
  moreover have "run_Status (hd (db_runs (sv_DB sample_launched))) = RunStatusRunning" by code_simp
  moreover obtain d where d: "CancelRun 20 ''j'' (sv_DB sample_launched) = Inr d"
  proof -
    have "\<not> isl (CancelRun 20 ''j'' (sv_DB sample_launched))" by code_simp
    then show thesis using that by (cases "CancelRun 20 ''j'' (sv_DB sample_launched)") simp_all
  qed
  moreover have "\<not> isl (GetRun ''j'' (projr (CancelRun 20 ''j'' (sv_DB sample_launched))))" by code_simp
  then obtain r where "GetRun ''j'' d = Inr r" unfolding d by (cases "GetRun ''j'' d") simp_all
  ultimately have "fst (cancelRunHandlerV1 20 ''j'' sample_launched) = 200" by (simp add: cancelRunHandlerV1_def Let_def)
  then show thesis using that by (metis prod.collapse)
qed

theorem cancelled_run_forgets_token_witness:
  "\<exists>s'. cancelRunHandlerV1 20 ''j'' sample_launched = (200, s') \<and> Token (replicate 64 CHR ''a'') (sv_Tokens s') = None"
proof -
  obtain s' where c: "cancelRunHandlerV1 20 ''j'' sample_launched = (200, s')" by (rule sample_cancelled_run)
  from cancelled_run_forgets_token [OF sample_server_reachable(2) c sample_launch_tokens(1)]
  have "Token (replicate 64 CHR ''a'') (sv_Tokens s') = None" using sample_launch_tokens(3) by (auto split: if_splits)
  then show ?thesis using c by blast
qed

lemma restart_conflict:
  assumes "restartRunHandler ex tb now nowText newJobID runID (Some req) s = (409, s')"
  obtains r hash token arg where "validateRestartGitLabTokenRequest ex (sv_DB s) r (rq_GitLabToken req) = Inr (hash, token)"
    "RunStatsWithMarker hash \<noteq> None" "rr_RunID arg = runID" "restart_commit now nowText newJobID hash token arg s = (409, s')"
proof -
  have v: "c \<noteq> 409" if "validateRestartGitLabTokenRequest ex (sv_DB s) r t = Inl c" for r t c
    using that by (auto simp: validateRestartGitLabTokenRequest_def split: option.splits sum.splits store_error.splits)
  obtain r where r: "GetRun runID (sv_DB s) = Inr r"
    using assms by (auto simp: restartRunHandler_def split: sum.splits store_error.splits)
  obtain hash token where ht: "validateRestartGitLabTokenRequest ex (sv_DB s) r (rq_GitLabToken req) = Inr (hash, token)"
    using assms v by (cases "validateRestartGitLabTokenRequest ex (sv_DB s) r (rq_GitLabToken req)") (auto simp: restartRunHandler_def r)
  show thesis using assms by (auto simp: restartRunHandler_def r ht split: sum.splits option.splits intro!: that [OF ht])
qed

text \<open>
  C24. A restart that carries a token and that the store refuses leaves the database alone, but the run is no longer registered for the token
  it had: a token no other run uses is gone, even when the run still runs.
\<close>

theorem refused_restart_forgets_token:
  assumes "reachable server_init server_step s" "restartRunHandler ex tb now nowText newJobID runID (Some req) s = (409, s')"
    and "rq_GitLabToken req = Some t" "\<not> IsEmpty runID"
    and sha: "\<forall>t. length (ex_Sha256 ex t) = 64 \<and> list_all is_hex_lower (ex_Sha256 ex t)"
  shows "sv_DB s' = sv_DB s \<and> run_hash (sv_Tokens s') runID = [] \<and>
    (\<forall>h. TrimSpace h = h \<and> h \<noteq> [] \<and> (\<forall>x. x \<noteq> runID \<longrightarrow> run_hash (sv_Tokens s) x \<noteq> h) \<longrightarrow> Token h (sv_Tokens s') = None)"
proof -
  note ok = server_tokens_ok [OF assms(1)]
  obtain r0 hash token arg where v0: "validateRestartGitLabTokenRequest ex (sv_DB s) r0 (rq_GitLabToken req) = Inr (hash, token)"
      and st: "RunStatsWithMarker hash \<noteq> None" and arg: "rr_RunID arg = runID"
      and c: "restart_commit now nowText newJobID hash token arg s = (409, s')"
    using assms(2) by (rule restart_conflict)
  obtain url where v: "validateGitLabTokenRequestForRepos ex (Some t) [url] = Some (hash, token)"
    using v0 assms(3) by (auto simp: validateRestartGitLabTokenRequest_def split: sum.splits store_error.splits option.splits)
  note h = request_hash [OF sha v]
  define r where "r = Register hash token [runID] (sv_Tokens s)"
  have s': "sv_DB s' = sv_DB s" "sv_Tokens s' = ReleaseRuns [runID] r"
    using c h(2) arg by (auto simp: restart_commit_def r_def Let_def split: sum.splits prod.splits)
  have reg: "reg_ok r" "map_of (reg_RunHash r) = (\<lambda>x. if x \<in> {runID} then Some hash else map_of (reg_RunHash (sv_Tokens s)) x)"
    unfolding r_def using Register_ok(1,3) [OF ok h(1,2), of token "[runID]"] h(4,5) assms(4) by simp_all
  then have other: "run_hash r x = run_hash (sv_Tokens s) x" if "x \<noteq> runID" for x using that by (simp add: run_hash_def)
  have "Token h (ReleaseRuns [runID] r) = None" if "TrimSpace h = h" "h \<noteq> []" "\<forall>x. x \<noteq> runID \<longrightarrow> run_hash (sv_Tokens s) x \<noteq> h" for h
    using release_token [OF reg(1) that(1,2), of "[runID]"] other that(3) by auto
  then show ?thesis using released_run [OF reg(1), of runID "[runID]"] by (simp add: s')
qed

lemma sample_refused:
  obtains s' where "restartRunHandler sample_launch_externals sample_launch_tables 11 ''now'' (sample_ids 1) ''j'' (Some sample_restart_request) sample_launched = (409, s')"
proof -
  let ?run = "hd (db_runs (sv_DB sample_launched))"
  have run: "GetRun ''j'' (sv_DB sample_launched) = Inr ?run" by code_simp
  have v: "validateRestartGitLabTokenRequest sample_launch_externals (sv_DB sample_launched) ?run (Some ''glpat2'') =
    Inr (replicate 64 CHR ''b'', ''glpat2'')" by code_simp
  have spec: "GetSpec (tb_SpecBody sample_launch_tables) (run_SpecID ?run) (sv_DB sample_launched) = Inr (RawJson sample_launch_spec)" by code_simp
  obtain stats where m: "RunStatsWithMarker (replicate 64 CHR ''b'') = Some (RawJson stats)" "validateJSONB (RawJson stats) = Inr ()"
    using hex_trimmed [of "replicate 64 CHR ''b''"] by (simp add: RunStatsWithMarker_def list_all_iff is_hex_lower_def)
  have active: "run_Status ?run = RunStatusRunning" by code_simp
  have refuse: "RestartRun 11 ''now'' newID arg (sv_DB sample_launched) = Inl ErrRunRestartActive"
    if "rr_Stats arg = RawJson stats" "rr_RunID arg = ''j''" for newID arg
    using that run active m(2) by (simp add: RestartRun_def)
  have "fst (restartRunHandler sample_launch_externals sample_launch_tables 11 ''now'' (sample_ids 1) ''j'' (Some sample_restart_request) sample_launched) = 409"
    by (simp add: restartRunHandler_def sample_restart_request_def run v spec sample_plan_ok m(1) restart_commit_def refuse Let_def)
  then show thesis using that by (metis prod.collapse)
qed

theorem refused_restart_forgets_token_witness:
  "\<exists>s' :: server_state. run_Status (hd (db_runs (sv_DB sample_launched))) = RunStatusRunning \<and> Token (replicate 64 CHR ''a'') (sv_Tokens sample_launched) = Some ''glpat'' \<and>
     sv_DB s' = sv_DB sample_launched \<and> Token (replicate 64 CHR ''a'') (sv_Tokens s') = None"
proof -
  obtain s' where "restartRunHandler sample_launch_externals sample_launch_tables 11 ''now'' (sample_ids 1) ''j'' (Some sample_restart_request) sample_launched = (409, s')"
    by (rule sample_refused)
  from refused_restart_forgets_token [OF sample_server_reachable(2) this _ sample_launch_tokens(4) sample_sha_ok, of "''glpat2''"]
  have "sv_DB s' = sv_DB sample_launched \<and> Token (replicate 64 CHR ''a'') (sv_Tokens s') = None"
    using sample_launch_tokens(1,3) by (simp add: sample_restart_request_def)
  moreover have "run_Status (hd (db_runs (sv_DB sample_launched))) = RunStatusRunning" by code_simp
  moreover have "Token (replicate 64 CHR ''a'') (sv_Tokens sample_launched) = Some ''glpat''" by code_simp
  ultimately show ?thesis by blast
qed

end
