(* ===== verification/Access.thy ===== *)
theory Access
  imports Control_Plane
begin

text \<open>
  The access side of the server as a transition system: a step is one request to the handlers that write
  the node and the token tables (issue or revoke a token, note its use, enroll a node, a heartbeat, a drain
  request), with any outcome. The JWT library, the hash and the certificate authority are arbitrary in every step. The
  lemmas say what no sequence of such requests undoes.
\<close>

inductive access_step :: "db \<Rightarrow> db \<Rightarrow> bool" where
  issue: "createAPITokenHandler parse sign hash addDays secret now goNow tokenID identity body d = (code, tok, d') \<Longrightarrow>
    access_step d d'"
| issue_bootstrap: "createBootstrapTokenHandler parse sign hash secret goNow tokenID identity body' d = (code, tok, d') \<Longrightarrow>
    access_step d d'"
| enroll_node: "bootstrapCertificateHandler parse sign csrCN ca signCSR workerSecret now goNow yearLater tokenID header csr d =
    (code, tok, d') \<Longrightarrow> access_step d d'"
| revoke: "revokeAPITokenHandler now pathID d = (code, d') \<Longrightarrow> access_step d d'"
| used: "access_step d (UpdateAPITokenLastUsed now tokenID d)"
| heartbeat: "heartbeatHandler goNow nodeID hb d = (code, d') \<Longrightarrow> access_step d d'"
| drain: "setNodeDrainHandler drained nodeID query d = (code, revision, d') \<Longrightarrow> access_step d d'"

definition access_init :: "db \<Rightarrow> bool" where
  "access_init d \<longleftrightarrow> db_nodes d = [] \<and> db_api_tokens d = [] \<and> db_bootstrap_tokens d = []"

text \<open>The unique keys of the three tables.\<close>

definition access_inv :: "db \<Rightarrow> bool" where
  "access_inv d \<longleftrightarrow> distinct (map node_ID (db_nodes d)) \<and>
     distinct (map at_TokenID (db_api_tokens d)) \<and> distinct (map bt_TokenID (db_bootstrap_tokens d))"

section \<open>What a request does to each table\<close>

text \<open>
  A table after a request is the old one, the old one with some rows updated, or the old one with a row
  of a new key added.
\<close>

definition table_step :: "('a \<Rightarrow> 'k) \<Rightarrow> ('a \<Rightarrow> 'a \<Rightarrow> bool) \<Rightarrow> 'a list \<Rightarrow> 'a list \<Rightarrow> bool" where
  "table_step key ok t t' \<longleftrightarrow>
     (\<exists>P f. t' = update_where P f t \<and> (\<forall>x. key (f x) = key x \<and> ok x (f x))) \<or>
     (\<exists>x. t' = t @ [x] \<and> key x \<notin> key ` set t)"

lemma table_step_refl: "(\<And>x. ok x x) \<Longrightarrow> table_step key ok t t"
  unfolding table_step_def by (rule disjI1, rule exI [of _ "\<lambda>_. False"], rule exI [of _ "\<lambda>x. x"]) (simp add: update_where_def)

lemma table_step_update:
  "(\<And>x. key (f x) = key x) \<Longrightarrow> (\<And>x. ok x (f x)) \<Longrightarrow> table_step key ok t (update_where P f t)"
  unfolding table_step_def by blast

lemma table_step_add: "find_by key (key x) t = None \<Longrightarrow> table_step key ok t (t @ [x])"
  by (auto simp: table_step_def find_by_None_iff)

lemma table_step_distinct:
  assumes "table_step key ok t t'" "distinct (map key t)"
  shows "distinct (map key t')"
  using assms by (auto simp: table_step_def map_key_update_where)

lemma table_step_row:
  assumes s: "table_step key ok t t'" and k: "find_by key k t = Some x" and r: "\<And>x. ok x x"
  obtains x' where "find_by key k t' = Some x'" "ok x x'"
proof -
  from s consider P f where "t' = update_where P f t" "\<And>x. key (f x) = key x" "\<And>x. ok x (f x)"
    | y where "t' = t @ [y]" by (auto simp: table_step_def)
  then show thesis
  proof cases
    case 1
    have "find_by key k (update_where P f t) = Some (if P x then f x else x)"
      using k 1(2) by (simp add: find_by_update_where)
    then show thesis using 1 r by (intro that [of "if P x then f x else x"]) auto
  next
    case 2
    have "find_by key k (t @ [y]) = Some x" using k by (simp add: find_by_append)
    then show thesis using 2 r by (intro that [of x]) simp_all
  qed
qed

text \<open>A node keeps its address; a token that was revoked or used stays so.\<close>

definition same_address :: "node \<Rightarrow> node \<Rightarrow> bool" where
  "same_address n n' \<longleftrightarrow> node_IpAddress n' = node_IpAddress n"

definition still_revoked :: "api_token \<Rightarrow> api_token \<Rightarrow> bool" where
  "still_revoked t t' \<longleftrightarrow> (at_RevokedAt t \<noteq> None \<longrightarrow> at_RevokedAt t' \<noteq> None)"

definition still_used :: "bootstrap_token \<Rightarrow> bootstrap_token \<Rightarrow> bool" where
  "still_used t t' \<longleftrightarrow> (bt_UsedAt t \<noteq> None \<longrightarrow> bt_UsedAt t' \<noteq> None)"

lemmas row_order_defs = same_address_def still_revoked_def still_used_def

lemma row_order_refl [simp]: "same_address n n" "still_revoked t t" "still_used b b"
  by (simp_all add: row_order_defs)

definition access_rel :: "db \<Rightarrow> db \<Rightarrow> bool" where
  "access_rel d d' \<longleftrightarrow> table_step node_ID same_address (db_nodes d) (db_nodes d') \<and>
     table_step at_TokenID still_revoked (db_api_tokens d) (db_api_tokens d') \<and>
     table_step bt_TokenID still_used (db_bootstrap_tokens d) (db_bootstrap_tokens d')"

lemma access_rel_refl [simp]: "access_rel d d"
  by (simp add: access_rel_def table_step_refl)

lemma enrollment_rel:
  assumes "CompleteBootstrapEnrollment now arg d = Inr d'"
  shows "access_rel d d'"
proof -
  obtain t where fresh: "be_NodeID arg \<notin> node_ID ` set (db_nodes d)"
    and d': "d' = d\<lparr>db_nodes := db_nodes d @ [certify arg (new_node now (bootstrap_node (be_NodeID arg)))],
        db_bootstrap_tokens := update_where (\<lambda>t. bt_TokenID t = be_TokenID arg) (consume now) (db_bootstrap_tokens d)\<rparr>"
    using assms by (rule enrollment_Inr)
  have "table_step node_ID same_address (db_nodes d) (db_nodes d')"
    using fresh by (simp add: d' table_step_add find_by_None_iff certify_def new_node_def bootstrap_node_def)
  moreover have "table_step bt_TokenID still_used (db_bootstrap_tokens d) (db_bootstrap_tokens d')"
    by (simp add: d' table_step_update consume_def still_used_def)
  ultimately show ?thesis by (simp add: access_rel_def d' table_step_refl)
qed

lemma bootstrapCertificateHandler_cases:
  assumes "bootstrapCertificateHandler parse sign csrCN ca signCSR workerSecret now goNow yearLater tokenID header csr d = (code, tok, d')"
  obtains "d' = d" "code \<noteq> 200 \<or> (\<exists>e. csr = Inl e)"
  | claims arg where "validateBootstrapToken parse goNow header d = Inr claims" "be_TokenID arg = tc_ID claims"
    "be_NodeID arg = tc_NodeID claims" "CompleteBootstrapEnrollment now arg d = Inr d'"
proof -
  show thesis
    using assms
    by (force simp: bootstrapCertificateHandler_def intro: that
        split: sum.splits if_splits ca_state.splits option.splits enroll_error.splits)
qed

lemma issue_rel:
  assumes "createAPITokenHandler parse sign hash addDays secret now goNow tokenID identity body d = (code, tok, d')"
  shows "access_rel d d'"
proof (cases "d' = d")
  case False
  then obtain t where "InsertAPIToken t d = Inr d'" using assms
    by (auto simp: createAPITokenHandler_def Let_def split: sum.splits if_splits option.splits)
  then have "d' = d\<lparr>db_api_tokens := db_api_tokens d @ [t]\<rparr>" "find_by at_TokenID (at_TokenID t) (db_api_tokens d) = None"
    by (auto simp: InsertAPIToken_def split: if_splits)
  then show ?thesis by (simp add: access_rel_def table_step_refl table_step_add)
qed simp

lemma issue_bootstrap_rel:
  assumes "createBootstrapTokenHandler parse sign hash secret goNow tokenID identity body d = (code, tok, d')"
  shows "access_rel d d'"
proof (cases "d' = d")
  case False
  then obtain t where "InsertBootstrapToken t d = Inr d'" using assms
    by (auto simp: createBootstrapTokenHandler_def Let_def split: sum.splits if_splits option.splits)
  then have "d' = d\<lparr>db_bootstrap_tokens := db_bootstrap_tokens d @ [t]\<rparr>"
      "find_by bt_TokenID (bt_TokenID t) (db_bootstrap_tokens d) = None"
    by (auto simp: InsertBootstrapToken_def split: if_splits)
  then show ?thesis by (simp add: access_rel_def table_step_refl table_step_add)
qed simp

lemma heartbeat_rel:
  assumes "heartbeatHandler goNow nodeID hb d = (code, d')"
  shows "access_rel d d'"
proof (cases "d' = d")
  case False
  then obtain arg where "UpdateNodeHeartbeat arg d = Inr d'" using assms
    by (auto simp: heartbeatHandler_def split: option.splits sum.splits if_splits)
  with False have "db_nodes d' = update_where (\<lambda>n. node_ID n = hb_ID arg) (beat arg) (db_nodes d)"
      "db_api_tokens d' = db_api_tokens d" "db_bootstrap_tokens d' = db_bootstrap_tokens d"
    by (auto simp: UpdateNodeHeartbeat_def split: option.splits if_splits)
  then show ?thesis by (simp add: access_rel_def table_step_refl table_step_update beat_def same_address_def)
qed simp

lemma setNodeDrainHandler_cases:
  assumes "setNodeDrainHandler drained pathID query d = (code, revision, d')"
  obtains "d' = d" "code \<noteq> 204"
  | i expected n where "pathID = Some i" "UpdateNodeDrained drained i expected d = Inr (n, d')" "code = 204"
    "revision = Some (node_DrainRevision n)" "expected = Option.bind query ParseInt64"
    "query \<noteq> None \<longleftrightarrow> expected \<noteq> None"
  using assms
  by (auto simp: setNodeDrainHandler_def intro: that
      split: option.splits sum.splits if_splits prod.splits store_error.splits unit.splits)

lemma drain_rel:
  assumes "setNodeDrainHandler drained pathID query d = (code, revision, d')"
  shows "access_rel d d'"
  using assms
proof (cases rule: setNodeDrainHandler_cases)
  case (2 i expected n)
  obtain m where "d' = d\<lparr>db_nodes := update_where (\<lambda>n. node_ID n = i) (set_drained drained) (db_nodes d)\<rparr>"
    using 2(2) by (rule UpdateNodeDrained_Inr)
  then show ?thesis by (simp add: access_rel_def table_step_refl table_step_update set_drained_def same_address_def)
qed simp

lemma access_step_rel: "access_step d d' \<Longrightarrow> access_rel d d'"
proof (induction rule: access_step.induct)
  case (enroll_node parse sign csrCN ca signCSR workerSecret now goNow yearLater tokenID header csr d code tok d')
  then show ?case by (cases rule: bootstrapCertificateHandler_cases) (auto intro: enrollment_rel)
next
  case (revoke now pathID d code d')
  then show ?case
    by (auto simp: revokeAPITokenHandler_def RevokeAPIToken_def access_rel_def table_step_refl still_revoked_def
        intro!: table_step_update split: option.splits)
next
  case (used d now tokenID)
  show ?case
    by (auto simp: UpdateAPITokenLastUsed_def access_rel_def table_step_refl still_revoked_def intro!: table_step_update)
qed (auto intro: issue_rel issue_bootstrap_rel heartbeat_rel drain_rel)

section \<open>What no sequence of requests undoes\<close>

interpretation access: invariant_system access_init access_step access_inv
proof unfold_locales
  show "access_inv d" if "access_init d" for d using that by (simp add: access_init_def access_inv_def)
  show "access_inv d'" if "access_inv d" "access_step d d'" for d d'
    using that(1) access_step_rel [OF that(2)] by (auto simp: access_inv_def access_rel_def intro: table_step_distinct)
qed

lemma rows_later:
  assumes "\<And>s s'. access_rel s s' \<Longrightarrow> table_step key ok (tab s) (tab s')" "\<And>x. ok x x"
    and "\<And>x y z. ok x y \<Longrightarrow> ok y z \<Longrightarrow> ok x z"
    and "access_step\<^sup>*\<^sup>* d d'" "find_by key k (tab d) = Some x"
  shows "\<exists>x'. find_by key k (tab d') = Some x' \<and> ok x x'"
  using assms(4)
proof (induction rule: rtranclp_induct)
  case base
  then show ?case using assms(2,5) by blast
next
  case (step s s')
  then obtain y where y: "find_by key k (tab s) = Some y" "ok x y" by blast
  have t: "table_step key ok (tab s) (tab s')" using step.hyps(2) by (intro assms(1) access_step_rel)
  obtain z where "find_by key k (tab s') = Some z" "ok y z" using t y(1) assms(2) by (rule table_step_row)
  then show ?case using y(2) assms(3) by blast
qed

lemma access_later:
  assumes "access_step\<^sup>*\<^sup>* d d'"
  shows node_later: "find_by node_ID i (db_nodes d) = Some n \<Longrightarrow> \<exists>n'. find_by node_ID i (db_nodes d') = Some n' \<and> same_address n n'"
    and api_token_later: "find_by at_TokenID k (db_api_tokens d) = Some t \<Longrightarrow>
      \<exists>t'. find_by at_TokenID k (db_api_tokens d') = Some t' \<and> still_revoked t t'"
    and bootstrap_token_later: "find_by bt_TokenID k (db_bootstrap_tokens d) = Some b \<Longrightarrow>
      \<exists>b'. find_by bt_TokenID k (db_bootstrap_tokens d') = Some b' \<and> still_used b b'"
  by (rule rows_later [OF _ _ _ assms]; (simp add: access_rel_def; fail | simp add: row_order_defs))+

text \<open>The row of an issued token.\<close>

lemma issued_token_row:
  assumes "createAPITokenHandler parse sign hash addDays secret now goNow tokenID identity body d = (200, Some tok, d')"
    and "parse tok = Some claims"
  obtains t where "find_by at_TokenID (tc_ID claims) (db_api_tokens d') = Some t"
proof -
  from assms obtain t where t: "InsertAPIToken t d = Inr d'" "at_TokenID t = tc_ID claims"
    by (auto simp: createAPITokenHandler_def Let_def split: sum.splits if_splits option.splits)
  then have "t \<in> set (db_api_tokens d')" by (auto simp: InsertAPIToken_def split: if_splits)
  then show thesis using that t(2) by (metis find_by_None_iff imageI not_Some_eq)
qed

section \<open>Drain requests\<close>

lemma drained_row:
  assumes "setNodeDrainHandler True (Some i) query d = (204, Some v, d')"
  obtains n where "find_by node_ID i (db_nodes d') = Some n" "node_DrainRevision n = v" "node_Drained n"
  using assms
proof (cases rule: setNodeDrainHandler_cases)
  case (2 k expected n)
  obtain m where "find_by node_ID i (db_nodes d) = Some m" "n = set_drained True m"
    "d' = d\<lparr>db_nodes := update_where (\<lambda>n. node_ID n = i) (set_drained True) (db_nodes d)\<rparr>"
    using 2(1,2) by (auto elim: UpdateNodeDrained_Inr)
  then show thesis using 2(4) find_by_update_node [of i "db_nodes d" m "set_drained True"]
    by (intro that [of n]) (simp_all add: set_drained_def)
qed auto

text \<open>A sequence of requests leaves the row of a node, or raises its revision.\<close>

lemma run_drain_row:
  assumes n: "find_by node_ID i (db_nodes d) = Some n"
  obtains n' where "find_by node_ID i (db_nodes (run_drain (b, k, e) d)) = Some n'"
    "n' = n \<or> node_DrainRevision n < node_DrainRevision n' \<and> k = i \<and> n' = set_drained b n"
proof (cases "UpdateNodeDrained b k e d")
  case (Inl err)
  then show thesis using n by (intro that [of n]) (simp_all add: run_drain_def)
next
  case (Inr r)
  have id: "node_ID (set_drained b m) = node_ID m" for m by (simp add: set_drained_def)
  obtain n1 d1 where r: "r = (n1, d1)" by (cases r)
  obtain n0 where d1: "d1 = d\<lparr>db_nodes := update_where (\<lambda>n. node_ID n = k) (set_drained b) (db_nodes d)\<rparr>"
    using Inr [unfolded r] by (rule UpdateNodeDrained_Inr)
  have run: "run_drain (b, k, e) d = d1" using Inr r by (simp add: run_drain_def)
  show thesis
  proof (cases "i = k")
    case True
    moreover have "node_DrainRevision n < node_DrainRevision (set_drained b n)" by (simp add: set_drained_def)
    ultimately show thesis using find_by_update_node [OF n id]
      by (intro that [of "set_drained b n"]) (simp_all add: run d1)
  next
    case False
    then show thesis using n find_by_update_other [OF False id] by (intro that [of n]) (simp_all add: run d1)
  qed
qed

lemma run_drains_row:
  assumes "find_by node_ID i (db_nodes d) = Some n"
  shows "\<exists>n'. find_by node_ID i (db_nodes (fold run_drain ops d)) = Some n' \<and>
    (n' = n \<or> node_DrainRevision n < node_DrainRevision n')"
  using assms
proof (induction ops arbitrary: d n)
  case (Cons op ops)
  obtain b k e where op: "op = (b, k, e)" by (cases op)
  obtain n1 where n1: "find_by node_ID i (db_nodes (run_drain op d)) = Some n1" "n1 = n \<or> node_DrainRevision n < node_DrainRevision n1"
    unfolding op using Cons.prems by (rule run_drain_row) blast
  then show ?case using Cons.IH [OF n1(1)] by fastforce
qed simp

lemma run_drains_drained:
  assumes "find_by node_ID i (db_nodes d) = Some n" "node_Drained n" "\<forall>(b, k, e) \<in> set ops. k = i \<longrightarrow> b"
  shows "\<exists>n'. find_by node_ID i (db_nodes (fold run_drain ops d)) = Some n' \<and> node_Drained n'"
  using assms
proof (induction ops arbitrary: d n)
  case (Cons op ops)
  obtain b k e where op: "op = (b, k, e)" by (cases op)
  obtain n1 where n1: "find_by node_ID i (db_nodes (run_drain op d)) = Some n1" "n1 = n \<or> k = i \<and> n1 = set_drained b n"
    unfolding op using Cons.prems(1) by (rule run_drain_row) blast
  then have "node_Drained n1" using Cons.prems(2,3) by (auto simp: op set_drained_def)
  then show ?case using Cons.IH [OF n1(1)] Cons.prems(3) by simp
qed auto

end
