(* ===== verification/Access_Properties.thy ===== *)
theory Access_Properties
  imports Sample_Run Access
begin

text \<open>
  Properties of authentication, tokens, enrollment and nodes.
\<close>

section \<open>Routes and roles\<close>

definition public_routes :: "string list" where
  "public_routes = [''/health'', ''GET /healthz'', ''GET /readyz'']"

definition admin_routes :: "string list" where
  "admin_routes = [''GET /v1/config/env'', ''GET /v1/config/env/{key}'', ''PUT /v1/config/env/{key}'',
     ''DELETE /v1/config/env/{key}'', ''POST /v1/tokens'', ''GET /v1/tokens'', ''DELETE /v1/tokens/{id}'']"

definition worker_routes :: "string list" where
  "worker_routes = [''POST /v1/pki/bootstrap'', ''GET /v1/artifacts/{id}'', ''GET /v1/runs/{run_id}/snapshot'',
     ''GET /v1/runs/{run_id}/diffs'', ''POST /v1/nodes/{id}/heartbeat'', ''POST /v1/nodes/{id}/claim'',
     ''POST /v1/nodes/{id}/events'', ''POST /v1/nodes/{id}/logs'', ''POST /v1/nodes/{id}/diagnostics'',
     ''POST /v1/nodes/{id}/daemon-logs'', ''GET /v1/spec-bundles/{id}'',
     ''POST /v1/runs/{run_id}/jobs/{job_id}/artifact'', ''POST /v1/runs/{run_id}/jobs/{job_id}/diff'',
     ''POST /v1/jobs/{job_id}/logs'', ''POST /v1/jobs/{job_id}/complete'', ''GET /v1/jobs/{job_id}/status'',
     ''POST /v1/jobs/{job_id}/image'', ''POST /v1/jobs/{job_id}/sbom'']"

text \<open>What the route table says of each role.\<close>

lemma routes_classified:
  "list_all (\<lambda>(p, q, rs). (rs = [] \<longleftrightarrow> p \<in> set public_routes) \<and> (p \<in> set admin_routes \<longrightarrow> rs = [RoleCLIAdmin]) \<and>
     (RoleWorker \<in> set rs \<longleftrightarrow> p \<in> set worker_routes) \<and> set rs \<subseteq> {RoleControlPlane, RoleWorker, RoleCLIAdmin}) routes"
  by code_simp

lemma route_class:
  assumes "map_of routes p = Some (q, rs)"
  shows "rs = [] \<longleftrightarrow> p \<in> set public_routes" "p \<in> set admin_routes \<longrightarrow> rs = [RoleCLIAdmin]"
    "RoleWorker \<in> set rs \<longleftrightarrow> p \<in> set worker_routes" "set rs \<subseteq> {RoleControlPlane, RoleWorker, RoleCLIAdmin}"
proof -
  note cls = bspec [OF routes_classified [unfolded list_all_iff] map_of_SomeD [OF assms], unfolded prod.case]
  show "rs = [] \<longleftrightarrow> p \<in> set public_routes" by (rule cls [THEN conjunct1])
  show "p \<in> set admin_routes \<longrightarrow> rs = [RoleCLIAdmin]" by (rule cls [THEN conjunct2, THEN conjunct1])
  show "RoleWorker \<in> set rs \<longleftrightarrow> p \<in> set worker_routes" by (rule cls [THEN conjunct2, THEN conjunct2, THEN conjunct1])
  show "set rs \<subseteq> {RoleControlPlane, RoleWorker, RoleCLIAdmin}" by (rule cls [THEN conjunct2, THEN conjunct2, THEN conjunct2])
qed

text \<open>
  C25. A request passes the middleware with no identity on the health routes only. Everywhere else it
  has one of the three roles; the configuration and token routes admit the administrator alone, and a worker reaches
  only the worker routes, in particular no route that submits, cancels, restarts, drains or issues tokens.
\<close>

theorem route_access:
  assumes a: "admit opts parse goNow querier p r = Inr x"
  shows "case x of
      None \<Rightarrow> p \<in> set public_routes
    | Some identity \<Rightarrow> p \<notin> set public_routes \<and> id_Role identity \<in> {RoleControlPlane, RoleWorker, RoleCLIAdmin} \<and>
        (p \<in> set admin_routes \<longrightarrow> id_Role identity = RoleCLIAdmin) \<and>
        (id_Role identity = RoleWorker \<longrightarrow> p \<in> set worker_routes)"
proof -
  obtain q rs where m: "map_of routes p = Some (q, rs)" using a by (auto simp: admit_def split: option.splits)
  note cls = route_class [OF m]
  have ne: "RoleControlPlane \<noteq> RoleCLIAdmin" "RoleWorker \<noteq> RoleCLIAdmin" by (simp_all add: role_defs)
  show ?thesis
  proof (cases "rs = []")
    case True
    then have "x = None" using a m by (simp add: admit_def)
    then show ?thesis using cls(1) True by simp
  next
    case False
    then obtain identity where x: "x = Some identity" and al: "allows rs (id_Role identity)"
      using a unfolding admit_Inr [OF m False] by blast
    have "p \<notin> set public_routes" using cls(1) False by simp
    moreover have "id_Role identity \<in> {RoleControlPlane, RoleWorker, RoleCLIAdmin}" using al cls(4) unfolding allows_def by blast
    moreover have "id_Role identity = RoleCLIAdmin" if "p \<in> set admin_routes"
      using cls(2) that al ne unfolding allows_def by auto
    moreover have "p \<in> set worker_routes" if "id_Role identity = RoleWorker"
      using cls(3) that al ne unfolding allows_def by simp
    ultimately show ?thesis unfolding x option.case by blast
  qed
qed

definition sample_claims :: "role \<Rightarrow> string \<Rightarrow> TokenClaims" where
  "sample_claims r kind = \<lparr>tc_Role = r, tc_TokenType = kind, tc_NodeID = ''n9'', tc_ExpiresAt = 100, tc_IssuedAt = 0, tc_ID = ''t1''\<rparr>"

definition sample_request :: http_request where
  "sample_request = \<lparr>rq_Authorization = ''Bearer tok'', rq_IsGet = False, rq_QueryTokenAllowed = False, rq_AuthToken = [],
     rq_PeerCertificate = None\<rparr>"

definition sample_options :: auth_options where
  "sample_options = \<lparr>ao_AllowInsecure = False, ao_DefaultRole = []\<rparr>"

lemma sample_admit:
  "admit sample_options (\<lambda>_. Some (sample_claims RoleWorker TokenTypeAPI)) 50 (Some sample_init)
     ''POST /v1/jobs/{job_id}/complete'' sample_request =
   Inr (Some \<lparr>id_Role = RoleWorker, id_CommonName = ''t1'', id_Serial = [], id_TokenID = ''t1''\<rparr>)"
  by code_simp

theorem route_access_witness:
  "''POST /v1/jobs/{job_id}/complete'' \<notin> set public_routes \<and> ''POST /v1/jobs/{job_id}/complete'' \<in> set worker_routes"
  using route_access [OF sample_admit] by simp

section \<open>Credentials\<close>

text \<open>
  C26. With mutual TLS switched on and no client certificate, whoever passes the middleware presented a
  bearer token that the JWT library accepts, that has not expired and is not revoked, in the
  \<^verbatim>\<open>Authorization\<close> header, or in the query of a GET on a route that allows it; the identity has the role and the id of
  the token.
\<close>

theorem bearer_identity_is_valid:
  assumes a: "admit opts parse goNow (Some d) p r = Inr (Some identity)"
    and tls: "\<not> ao_AllowInsecure opts" "rq_PeerCertificate r = None"
  shows "\<exists>tok claims. parse tok = Some claims \<and> goNow \<le> tc_ExpiresAt claims \<and>
      id_Role identity = tc_Role claims \<and> id_TokenID identity = tc_ID claims \<and>
      (tc_TokenType claims = TokenTypeAPI \<and> \<not> CheckAPITokenRevoked (tc_ID claims) d \<or>
       tc_TokenType claims = TokenTypeBootstrap \<and> \<not> CheckBootstrapTokenRevoked (tc_ID claims) d) \<and>
      (rq_Authorization r = ''Bearer '' @ tok \<or>
       rq_IsGet r \<and> (\<exists>roles. map_of routes p = Some (True, roles)) \<and> tok = TrimSpace (rq_AuthToken r))"
proof -
  obtain q rs where m: "map_of routes p = Some (q, rs)" "rs \<noteq> []"
    using a by (auto simp: admit_def split: option.splits if_splits)
  have i: "identityFromRequest opts parse goNow (Some d) (r\<lparr>rq_QueryTokenAllowed := q\<rparr>) = Inr identity"
    using a unfolding admit_Inr [OF m] by blast
  have bearer: "\<exists>claims. parse tok = Some claims \<and> goNow \<le> tc_ExpiresAt claims \<and>
      id_Role identity = tc_Role claims \<and> id_TokenID identity = tc_ID claims \<and>
      (tc_TokenType claims = TokenTypeAPI \<and> \<not> CheckAPITokenRevoked (tc_ID claims) d \<or>
       tc_TokenType claims = TokenTypeBootstrap \<and> \<not> CheckBootstrapTokenRevoked (tc_ID claims) d)"
    if "identityFromBearerToken parse goNow (Some d) tok = Inr identity" for tok
    using that by (auto simp: identityFromBearerToken_def isTokenRevoked_def split: option.splits if_splits sum.splits bool.splits)
  show ?thesis
  proof (cases "HasPrefix (rq_Authorization r) ''Bearer ''")
    case True
    then obtain tok where tok: "rq_Authorization r = ''Bearer '' @ tok" by (blast dest: HasPrefixD)
    then have "identityFromBearerToken parse goNow (Some d) tok = Inr identity"
      using i True by (simp add: identityFromRequest_def Let_def TrimPrefix_def HasPrefix_def)
    then show ?thesis using bearer tok by blast
  next
    case False
    then have "rq_IsGet r" "q" "identityFromBearerToken parse goNow (Some d) (TrimSpace (rq_AuthToken r)) = Inr identity"
      using i tls by (auto simp: identityFromRequest_def Let_def split: if_splits)
    note q = this
    obtain claims where "parse (TrimSpace (rq_AuthToken r)) = Some claims" "goNow \<le> tc_ExpiresAt claims"
        "id_Role identity = tc_Role claims" "id_TokenID identity = tc_ID claims"
        "tc_TokenType claims = TokenTypeAPI \<and> \<not> CheckAPITokenRevoked (tc_ID claims) d \<or>
         tc_TokenType claims = TokenTypeBootstrap \<and> \<not> CheckBootstrapTokenRevoked (tc_ID claims) d"
      using bearer [OF q(3)] by blast
    moreover have "\<exists>roles. map_of routes p = Some (True, roles)" using m(1) q(2) by simp
    ultimately show ?thesis using q(1) by blast
  qed
qed

theorem bearer_identity_is_valid_witness:
  "\<exists>tok. rq_Authorization sample_request = ''Bearer '' @ tok"
  using bearer_identity_is_valid [OF sample_admit] by (auto simp: sample_options_def sample_request_def)

text \<open>
  C27. A revoked token never works again. After the token was issued and later revoked by its id, and
  after any further requests to the access handlers, every route that asks for a role answers 401 to it. The JWT library is
  assumed only to return, for the issued token, claims of the type that was signed into it.
\<close>

theorem revoked_token_is_rejected:
  assumes issued: "createAPITokenHandler parse sign hash addDays secret now goNow tokenID identity body d = (200, Some tok, d1)"
    and claims: "parse tok = Some claims" "tc_TokenType claims = TokenTypeAPI"
    and between: "access_step\<^sup>*\<^sup>* d1 d2"
    and revoked: "revokeAPITokenHandler now' (Some (tc_ID claims)) d2 = (200, d3)"
    and later: "access_step\<^sup>*\<^sup>* d3 d4"
    and request: "rq_Authorization r = ''Bearer '' @ tok" "map_of routes p = Some (q, roles)" "roles \<noteq> []"
  shows "admit opts parse goNow' (Some d4) p r = Inl 401"
proof -
  obtain t where t: "find_by at_TokenID (tc_ID claims) (db_api_tokens d1) = Some t"
    using issued claims(1) by (rule issued_token_row)
  obtain t2 where t2: "find_by at_TokenID (tc_ID claims) (db_api_tokens d2) = Some t2"
    using api_token_later [OF between t] by blast
  have "find_by at_TokenID (tc_ID claims) (db_api_tokens d3) = Some (t2\<lparr>at_RevokedAt := Some now'\<rparr>)"
    using revoked find_by_update_row [OF t2, where f = "\<lambda>t. t\<lparr>at_RevokedAt := Some now'\<rparr>"]
    by (auto simp: revokeAPITokenHandler_def RevokeAPIToken_def)
  then obtain t4 where "find_by at_TokenID (tc_ID claims) (db_api_tokens d4) = Some t4" "at_RevokedAt t4 \<noteq> None"
    using api_token_later [OF later] by (fastforce simp: still_revoked_def)
  then have "CheckAPITokenRevoked (tc_ID claims) d4"
    unfolding CheckAPITokenRevoked_def list_ex_iff by (metis find_by_SomeD)
  then have "\<exists>e. identityFromBearerToken parse goNow' (Some d4) tok = Inl e"
    using claims by (simp add: identityFromBearerToken_def isTokenRevoked_def)
  then obtain e where "identityFromRequest opts parse goNow' (Some d4) (r\<lparr>rq_QueryTokenAllowed := q\<rparr>) = Inl e"
    using request(1) by (auto simp: identityFromRequest_def HasPrefix_def TrimPrefix_def)
  then show ?thesis using request(2,3) by (simp add: admit_def Middleware_def)
qed

definition sample_issue :: "db \<Rightarrow> nat \<times> string option \<times> db" where
  "sample_issue d = createAPITokenHandler (\<lambda>_. Some (sample_claims RoleWorker TokenTypeAPI)) (\<lambda>_ _. ''tok'') (\<lambda>t. t) (\<lambda>t n. t + n) ''key''
     5 5 ''t1'' None (Inr \<lparr>ca_Role = ''worker'', ca_Username = [], ca_Description = [], ca_ExpiresInDays = 0\<rparr>) d"

definition sample_revoked :: db where
  "sample_revoked = snd (revokeAPITokenHandler 6 (Some ''t1'') (snd (snd (sample_issue sample_init))))"

theorem revoked_token_is_rejected_witness:
  "admit sample_options (\<lambda>_. Some (sample_claims RoleWorker TokenTypeAPI)) 50 (Some sample_revoked)
     ''POST /v1/jobs/{job_id}/complete'' sample_request = Inl 401"
proof (rule revoked_token_is_rejected)
  show "createAPITokenHandler (\<lambda>_. Some (sample_claims RoleWorker TokenTypeAPI)) (\<lambda>_ _. ''tok'') (\<lambda>t. t) (\<lambda>t n. t + n) ''key''
      5 5 ''t1'' None (Inr \<lparr>ca_Role = ''worker'', ca_Username = [], ca_Description = [], ca_ExpiresInDays = 0\<rparr>) sample_init =
    (200, Some ''tok'', snd (snd (sample_issue sample_init)))" by code_simp
  show "revokeAPITokenHandler 6 (Some (tc_ID (sample_claims RoleWorker TokenTypeAPI))) (snd (snd (sample_issue sample_init))) =
      (200, sample_revoked)" by code_simp
  show "map_of routes ''POST /v1/jobs/{job_id}/complete'' = Some (False, [RoleWorker])" by code_simp
qed (simp_all add: sample_claims_def sample_request_def)

section \<open>Enrollment\<close>

text \<open>
  C28. A bootstrap token enrolls at most once: after a request with it was answered with a certificate,
  and after any further requests, a second request with the same header is answered 401 and changes nothing.
\<close>

theorem bootstrap_token_works_once:
  assumes first: "bootstrapCertificateHandler parse sign csrCN ca signCSR workerSecret now goNow yearLater tokenID header (Inr csr) d =
      (200, tok, d1)"
    and later: "access_step\<^sup>*\<^sup>* d1 d2"
  shows "bootstrapCertificateHandler parse sign' csrCN' ca' signCSR' workerSecret' now' goNow' yearLater' tokenID' header csr' d2 =
    (401, None, d2)"
  using first
proof (cases rule: bootstrapCertificateHandler_cases)
  case (2 claims arg)
  obtain t where t: "find_by bt_TokenID (tc_ID claims) (db_bootstrap_tokens d) = Some t"
    and d1: "d1 = d\<lparr>db_nodes := db_nodes d @ [certify arg (new_node now (bootstrap_node (be_NodeID arg)))],
        db_bootstrap_tokens := update_where (\<lambda>t. bt_TokenID t = be_TokenID arg) (consume now) (db_bootstrap_tokens d)\<rparr>"
    using 2(4) unfolding 2(2) [symmetric] by (rule enrollment_Inr)
  have "find_by bt_TokenID (tc_ID claims) (db_bootstrap_tokens d1) = Some (consume now t)"
    using t 2(2) by (simp add: d1 find_by_update_row consume_def)
  then obtain t2 where t2: "find_by bt_TokenID (tc_ID claims) (db_bootstrap_tokens d2) = Some t2" "bt_UsedAt t2 \<noteq> None"
    using bootstrap_token_later [OF later] by (fastforce simp: still_used_def consume_def)
  have "\<exists>e. validateBootstrapToken parse goNow' header d2 = Inl e"
    using 2(1) t2 by (auto simp: validateBootstrapToken_def GetBootstrapToken_def get_row_def split: if_splits option.splits sum.splits)
  then show ?thesis by (auto simp: bootstrapCertificateHandler_def)
qed auto

definition sample_tokens :: db where
  "sample_tokens = snd (snd (createBootstrapTokenHandler (\<lambda>_. Some (sample_claims RoleWorker TokenTypeBootstrap)) (\<lambda>_ _. ''tok'')
     (\<lambda>t. t) ''key'' 5 ''t1'' None (Inr \<lparr>cb_NodeID = ''n9'', cb_ExpiresInMinutes = 0\<rparr>) sample_init))"

definition sample_enroll :: "db \<Rightarrow> nat \<times> string option \<times> db" where
  "sample_enroll = bootstrapCertificateHandler (\<lambda>_. Some (sample_claims RoleWorker TokenTypeBootstrap)) (\<lambda>_ _. ''api'')
     (\<lambda>_. Some ''node:n9'') CALoaded (\<lambda>_. Some \<lparr>sc_Serial = ''1'', sc_Fingerprint = ''f'', sc_NotBefore = 0, sc_NotAfter = 90\<rparr>)
     ''key'' 7 7 99 ''t2'' ''Bearer tok'' (Inr ''csr'')"

lemma sample_enrolled: "sample_enroll sample_tokens = (200, Some ''api'', snd (snd (sample_enroll sample_tokens)))"
  by code_simp

theorem bootstrap_token_works_once_witness:
  "sample_enroll (snd (snd (sample_enroll sample_tokens))) = (401, None, snd (snd (sample_enroll sample_tokens)))"
  using bootstrap_token_works_once [OF sample_enrolled [unfolded sample_enroll_def] rtranclp.rtrancl_refl]
  by (simp add: sample_enroll_def)

text \<open>
  C29. The handler enrolls every node with the address 0.0.0.0, which the schema keeps unique. So once a node was enrolled this
  way, no other node is: whatever the token, the node and the certificate request, the answer is not 200 and the state stays.
\<close>

theorem bootstrap_enrolls_one_node:
  assumes first: "bootstrapCertificateHandler parse sign csrCN ca signCSR workerSecret now goNow yearLater tokenID header (Inr csr) d =
      (200, tok, d1)"
    and later: "access_step\<^sup>*\<^sup>* d1 d2"
    and second: "bootstrapCertificateHandler parse' sign' csrCN' ca' signCSR' workerSecret' now' goNow' yearLater' tokenID' header'
      (Inr csr') d2 = (code, tok', d3)"
  shows "code \<noteq> 200 \<and> d3 = d2"
  using first
proof (cases rule: bootstrapCertificateHandler_cases)
  case (2 claims arg)
  obtain t where fresh: "be_NodeID arg \<notin> node_ID ` set (db_nodes d)"
    and d1: "d1 = d\<lparr>db_nodes := db_nodes d @ [certify arg (new_node now (bootstrap_node (be_NodeID arg)))],
        db_bootstrap_tokens := update_where (\<lambda>t. bt_TokenID t = be_TokenID arg) (consume now) (db_bootstrap_tokens d)\<rparr>"
    using 2(4) by (rule enrollment_Inr)
  define n where "n = certify arg (new_node now (bootstrap_node (be_NodeID arg)))"
  have n: "node_ID n = be_NodeID arg" "node_IpAddress n = ''0.0.0.0''"
    by (simp_all add: n_def certify_def new_node_def bootstrap_node_def)
  have "find_by node_ID (be_NodeID arg) (db_nodes d) = None" using fresh by (simp add: find_by_None_iff)
  then have "find_by node_ID (be_NodeID arg) (db_nodes d1) = Some n"
    by (simp add: d1 find_by_append n_def [symmetric]) (simp add: find_by_def n)
  then obtain n2 where n2: "find_by node_ID (be_NodeID arg) (db_nodes d2) = Some n2" "same_address n n2"
    using node_later [OF later] by blast
  then have taken: "''0.0.0.0'' \<in> node_IpAddress ` set (db_nodes d2)"
    using n(2) by (metis find_by_SomeD imageI same_address_def)
  show ?thesis using second
  proof (cases rule: bootstrapCertificateHandler_cases)
    case (2 claims' arg')
    then show ?thesis using taken enrollment_Inr by metis
  qed auto
qed auto

theorem bootstrap_enrolls_one_node_witness:
  "fst (bootstrapCertificateHandler (\<lambda>_. Some (sample_claims RoleWorker TokenTypeBootstrap\<lparr>tc_NodeID := ''n8'', tc_ID := ''t8''\<rparr>))
     (\<lambda>_ _. ''api'') (\<lambda>_. Some ''node:n8'') CALoaded (\<lambda>_. None) ''key'' 8 8 99 ''t3'' ''Bearer tok8'' (Inr ''csr'')
     (snd (snd (sample_enroll sample_tokens)))) \<noteq> 200"
proof -
  have prod3: "p = (fst p, fst (snd p), snd (snd p))" for p :: "nat \<times> string option \<times> db" by simp
  show ?thesis
    using bootstrap_enrolls_one_node [OF sample_enrolled [unfolded sample_enroll_def] rtranclp.rtrancl_refl prod3]
    by (simp add: sample_enroll_def)
qed

text \<open>
  The worker token that comes with the certificate is not entered in the token table. A request to revoke it by its id is
  answered 200, and the token is accepted as before.
\<close>

theorem worker_token_cannot_be_revoked:
  assumes first: "bootstrapCertificateHandler parse sign csrCN ca signCSR workerSecret now goNow yearLater tokenID header (Inr csr) d =
      (200, Some tok, d1)"
    and claims: "parse' tok = Some claims" "find_by at_TokenID (tc_ID claims) (db_api_tokens d) = None"
  shows "\<exists>d2. revokeAPITokenHandler now' (Some (tc_ID claims)) d1 = (200, d2) \<and>
    identityFromBearerToken parse' goNow' (Some d2) tok = identityFromBearerToken parse' goNow' (Some d1) tok"
proof -
  have "find_by at_TokenID (tc_ID claims) (db_api_tokens d1) = None" using first
  proof (cases rule: bootstrapCertificateHandler_cases)
    case (2 c arg)
    then have "db_api_tokens d1 = db_api_tokens d" by (elim enrollment_Inr) simp
    then show ?thesis using claims(2) by simp
  qed (use claims(2) in auto)
  then have "CheckAPITokenRevoked (tc_ID claims) (RevokeAPIToken now' (tc_ID claims) d1) = CheckAPITokenRevoked (tc_ID claims) d1"
    by (simp add: revoke_check)
  moreover have "CheckBootstrapTokenRevoked (tc_ID claims) (RevokeAPIToken now' (tc_ID claims) d1) = CheckBootstrapTokenRevoked (tc_ID claims) d1"
    by (simp add: CheckBootstrapTokenRevoked_def RevokeAPIToken_def)
  ultimately show ?thesis
    by (simp add: revokeAPITokenHandler_def identityFromBearerToken_def claims(1) isTokenRevoked_def)
qed

section \<open>Nodes\<close>

text \<open>
  A heartbeat with plausible numbers is never refused by the database: the answer is 400 exactly for
  a missing node id or numbers out of range, 404 for an unknown node, and otherwise 204. Then the numbers are stored as sent,
  although the processor shares are narrowed to 32 bits, and a metrics row is added.
\<close>

theorem heartbeat_stores_what_was_sent:
  assumes "heartbeatHandler goNow (Some i) (Inr req) d = (code, d')"
  shows "code = 400 \<and> validateHeartbeat req \<noteq> None \<and> d' = d \<or>
    code = 404 \<and> i \<notin> node_ID ` set (db_nodes d) \<and> d' = d \<or>
    code = 204 \<and> (\<exists>n n'. find_by node_ID i (db_nodes d) = Some n \<and> find_by node_ID i (db_nodes d') = Some n' \<and>
      node_resources_ok n' \<and> node_LastHeartbeat n' = Some goNow \<and>
      node_CpuTotalMillis n' = hbr_CPUTotalMillis req \<and> node_CpuFreeMillis n' = hbr_CPUFreeMillis req \<and>
      node_MemTotalBytes n' = hbr_MemTotalBytes req \<and> node_MemFreeBytes n' = hbr_MemFreeBytes req \<and>
      node_DiskTotalBytes n' = hbr_DiskTotalBytes req \<and> node_DiskFreeBytes n' = hbr_DiskFreeBytes req \<and>
      node_Drained n' = node_Drained n \<and> length (db_node_metrics d') = length (db_node_metrics d) + 1)"
proof (cases "validateHeartbeat req = None")
  case True
  note v = validateHeartbeat_params [OF True, of goNow i]
  show ?thesis
  proof (cases "find_by node_ID i (db_nodes d)")
    case None
    moreover from None have "i \<notin> node_ID ` set (db_nodes d)" by (simp add: find_by_None_iff)
    ultimately show ?thesis using assms True by (simp add: heartbeatHandler_def GetNode_eq)
  next
    case (Some n)
    define arg where "arg = heartbeat_params goNow i req"
    have i: "hb_ID arg = i" by (simp add: arg_def heartbeat_params_def)
    have "code = 204" and d': "d' = d\<lparr>db_nodes := update_where (\<lambda>n. node_ID n = i) (beat arg) (db_nodes d),
        db_node_metrics := db_node_metrics d @ [heartbeat_metric arg]\<rparr>"
      using assms True Some v(3) [of n] by (simp_all add: heartbeatHandler_def GetNode_eq UpdateNodeHeartbeat_def i arg_def [symmetric])
    moreover have "find_by node_ID i (db_nodes d') = Some (beat arg n)"
      using find_by_update_node [OF Some, of "beat arg"] by (simp add: d' beat_def)
    moreover have "node_resources_ok (beat arg n)" using v(3) by (simp add: arg_def)
    ultimately show ?thesis using Some v(1,2) by (simp add: beat_def arg_def) (simp add: heartbeat_params_def)
  qed
qed (use assms in \<open>simp add: heartbeatHandler_def\<close>)

definition sample_heartbeat :: NodeHeartbeatRequest where
  "sample_heartbeat = \<lparr>hbr_CPUFreeMillis = 2147483647, hbr_CPUTotalMillis = 2147483647, hbr_MemFreeBytes = 1, hbr_MemTotalBytes = 2,
     hbr_DiskFreeBytes = 3, hbr_DiskTotalBytes = 4, hbr_Version = ''v1''\<rparr>"

lemma sample_beat: "heartbeatHandler 9 (Some ''n1'') (Inr sample_heartbeat) sample_init =
    (204, snd (heartbeatHandler 9 (Some ''n1'') (Inr sample_heartbeat) sample_init))"
  by code_simp

theorem heartbeat_stores_what_was_sent_witness:
  "\<exists>n. find_by node_ID ''n1'' (db_nodes (snd (heartbeatHandler 9 (Some ''n1'') (Inr sample_heartbeat) sample_init))) = Some n \<and>
     node_CpuFreeMillis n = 2147483647"
  using heartbeat_stores_what_was_sent [OF sample_beat] by (auto simp: sample_heartbeat_def)

text \<open>
  The revision of a drain makes the release exact: the caller that drained a node and got a revision
  back releases it with this revision if and only if nobody else changed the node's drain state since; otherwise the
  release is answered 409 and changes nothing.
\<close>

theorem drain_release_is_exact:
  assumes drained: "setNodeDrainHandler True (Some i) None d = (204, Some v, d1)"
    and raw: "ParseInt64 raw = Some v" "0 \<le> v" "v + 1 < 2 ^ 63"
    and release: "setNodeDrainHandler False (Some i) (Some raw) (fold run_drain ops d1) = (code, revision, d2)"
  shows "if find_by node_ID i (db_nodes (fold run_drain ops d1)) = find_by node_ID i (db_nodes d1)
    then code = 204 \<and> revision = Some (v + 1) \<and> (\<exists>n. find_by node_ID i (db_nodes d2) = Some n \<and> \<not> node_Drained n)
    else code = 409 \<and> d2 = fold run_drain ops d1"
proof -
  define d1' where "d1' = fold run_drain ops d1"
  obtain n where n: "find_by node_ID i (db_nodes d1) = Some n" "node_DrainRevision n = v" "node_Drained n"
    using drained by (rule drained_row)
  obtain n' where n': "find_by node_ID i (db_nodes d1') = Some n'" and le: "n' = n \<or> v < node_DrainRevision n'"
    using run_drains_row [OF n(1), of ops] n(2) unfolding d1'_def by blast
  show ?thesis
  proof (cases "n' = n")
    case True
    have "code = 204 \<and> revision = Some (v + 1) \<and>
        d2 = d1'\<lparr>db_nodes := update_where (\<lambda>n. node_ID n = i) (set_drained False) (db_nodes d1')\<rparr>"
      using release raw n n' True unfolding d1'_def [symmetric]
      by (auto simp: setNodeDrainHandler_def UpdateNodeDrained_def set_drained_def)
    moreover from this have "find_by node_ID i (db_nodes d2) = Some (set_drained False n)"
      using find_by_update_node [OF n', of "set_drained False"] True by (simp add: set_drained_def)
    ultimately show ?thesis using n n' True by (simp add: d1'_def [symmetric]) (simp add: set_drained_def)
  next
    case False
    then have "node_DrainRevision n' \<noteq> v" using le by auto
    then have "code = 409 \<and> d2 = d1'"
      using release raw n' unfolding d1'_def [symmetric]
      by (auto simp: setNodeDrainHandler_def UpdateNodeDrained_def GetNode_eq)
    then show ?thesis using n n' False by (simp add: d1'_def [symmetric])
  qed
qed

definition sample_drained :: db where
  "sample_drained = snd (snd (setNodeDrainHandler True (Some ''n1'') None sample_init))"

theorem drain_release_is_exact_witness:
  "fst (setNodeDrainHandler False (Some ''n1'') (Some ''1'') (fold run_drain [(True, ''n1'', None)] sample_drained)) = 409 \<and>
   fst (setNodeDrainHandler False (Some ''n1'') (Some ''1'') (fold run_drain [(True, ''n2'', None)] sample_drained)) = 204"
proof -
  have prod3: "p = (fst p, fst (snd p), snd (snd p))" for p :: "nat \<times> int option \<times> db" by simp
  have d: "setNodeDrainHandler True (Some ''n1'') None sample_init = (204, Some 1, sample_drained)" by code_simp
  have raw: "ParseInt64 ''1'' = Some 1" by code_simp
  have "find_by node_ID ''n1'' (db_nodes (fold run_drain [(True, ''n1'', None)] sample_drained)) \<noteq>
      find_by node_ID ''n1'' (db_nodes sample_drained)" by code_simp
  moreover have "find_by node_ID ''n1'' (db_nodes (fold run_drain [(True, ''n2'', None)] sample_drained)) =
      find_by node_ID ''n1'' (db_nodes sample_drained)" by code_simp
  ultimately show ?thesis
    using drain_release_is_exact [OF d raw _ _ prod3, where ops = "[(True, ''n1'', None)]"]
      drain_release_is_exact [OF d raw _ _ prod3, where ops = "[(True, ''n2'', None)]"] by simp
qed



end
