(* ===== verification/Global_Env.thy ===== *)
theory Global_Env
  imports Hydra "HOL-Library.List_Lexorder" "HOL-Library.Char_ord"
begin

text \<open>
  The runtime configuration of the server: the in-memory holder of \<^verbatim>\<open>internal/server/handlers/config_gitlab.go\<close>, the handlers of
  \<^verbatim>\<open>config_env.go\<close>, the queries of \<^verbatim>\<open>internal/store/config_env.sql.go\<close> behind them and the loading at start
  of \<^verbatim>\<open>cmd/ployd/server.go\<close>.

  Go maps with string keys are association lists with distinct keys. The state of the configuration is the table, the holder and the
  environment of the server process.
\<close>

section \<open>The table\<close>

record ConfigEnv =
  ce_Key :: string
  ce_Target :: string
  ce_Value :: string
  ce_Secret :: bool
  ce_UpdatedAt :: timestamp

text \<open>
  PostgreSQL accepts no NUL byte in a text value. \<open>ok\<close> is false when the statement fails for another reason, such as a lost connection.
  The composite primary key is \<open>(key, target)\<close>.
\<close>

definition sql_text :: "string \<Rightarrow> bool" where
  "sql_text s \<longleftrightarrow> CHR 0x00 \<notin> set s"

definition row_key :: "ConfigEnv \<Rightarrow> string \<times> string" where
  "row_key r = (ce_Key r, ce_Target r)"

definition UpsertGlobalEnv ::
  "bool \<Rightarrow> timestamp \<Rightarrow> string \<Rightarrow> string \<Rightarrow> string \<Rightarrow> bool \<Rightarrow> ConfigEnv list \<Rightarrow> ConfigEnv list option" where
  "UpsertGlobalEnv ok now key target v secret rows =
     (if \<not> ok \<or> \<not> sql_text key \<or> \<not> sql_text target \<or> \<not> sql_text v then None
      else if \<exists>r \<in> set rows. row_key r = (key, target)
      then Some (update_where (\<lambda>r. row_key r = (key, target)) (\<lambda>r. r\<lparr>ce_Value := v, ce_Secret := secret, ce_UpdatedAt := now\<rparr>) rows)
      else Some (rows @ [\<lparr>ce_Key = key, ce_Target = target, ce_Value = v, ce_Secret = secret, ce_UpdatedAt = now\<rparr>]))"

definition DeleteGlobalEnv :: "bool \<Rightarrow> string \<Rightarrow> string \<Rightarrow> ConfigEnv list \<Rightarrow> ConfigEnv list option" where
  "DeleteGlobalEnv ok key target rows =
     (if \<not> ok \<or> \<not> sql_text key then None else Some (filter (\<lambda>r. row_key r \<noteq> (key, target)) rows))"

text \<open>Ordered by key, then target. The collation of the database may order keys otherwise, which the reader of the list does not see.\<close>

definition ListGlobalEnv :: "ConfigEnv list \<Rightarrow> ConfigEnv list" where
  "ListGlobalEnv rows = sort_key ce_Key (sort_key ce_Target rows)"

section \<open>The holder\<close>

record ConfigInEntry =
  cin_Entry :: string
  cin_Dst :: string
  cin_Section :: string

record ConfigHolder =
  cfh_GlobalEnv :: "(string \<times> GlobalEnvVar list) list"
  cfh_Hydra :: "(string \<times> HydraJobConfig) list"
  cfh_ConfigIn :: "(string \<times> ConfigInEntry list) list"
  cfh_BundleMap :: "(string \<times> string) list"

definition NewConfigHolder :: "(string \<times> GlobalEnvVar list) list \<Rightarrow> ConfigHolder" where
  "NewConfigHolder globalEnv = \<lparr>cfh_GlobalEnv = globalEnv, cfh_Hydra = [], cfh_ConfigIn = [], cfh_BundleMap = []\<rparr>"

definition setSectionSlice :: "string \<Rightarrow> 'a list \<Rightarrow> (string \<times> 'a list) list \<Rightarrow> (string \<times> 'a list) list" where
  "setSectionSlice name entries m = (if entries = [] then AList.delete name m else AList.update name entries m)"

definition ensureHydraSectionLocked :: "string \<Rightarrow> ConfigHolder \<Rightarrow> HydraJobConfig \<times> ConfigHolder" where
  "ensureHydraSectionLocked name h =
     (case map_of (cfh_Hydra h) name of
        Some cfg \<Rightarrow> (cfg, h)
      | None \<Rightarrow> (empty_overlay, h\<lparr>cfh_Hydra := AList.update name empty_overlay (cfh_Hydra h)\<rparr>))"

definition GetGlobalEnvEntries :: "string \<Rightarrow> ConfigHolder \<Rightarrow> GlobalEnvVar list" where
  "GetGlobalEnvEntries key h = (case map_of (cfh_GlobalEnv h) key of None \<Rightarrow> [] | Some entries \<Rightarrow> entries)"

definition GetGlobalEnvAll :: "ConfigHolder \<Rightarrow> (string \<times> GlobalEnvVar list) list" where
  "GetGlobalEnvAll h = cfh_GlobalEnv h"

text \<open>The loop replaces the first entry of the target; the result tells whether there was one.\<close>

fun replace_target :: "GlobalEnvVar \<Rightarrow> GlobalEnvVar list \<Rightarrow> GlobalEnvVar list option" where
  "replace_target v [] = None"
| "replace_target v (e # es) =
     (if gev_Target e = gev_Target v then Some (v # es) else map_option (Cons e) (replace_target v es))"

definition SetGlobalEnvVar :: "string \<Rightarrow> GlobalEnvVar \<Rightarrow> ConfigHolder \<Rightarrow> ConfigHolder" where
  "SetGlobalEnvVar key v h =
     (let entries = GetGlobalEnvEntries key h
      in h\<lparr>cfh_GlobalEnv := AList.update key
             (case replace_target v entries of Some entries' \<Rightarrow> entries' | None \<Rightarrow> entries @ [v]) (cfh_GlobalEnv h)\<rparr>)"

fun remove_target :: "GlobalEnvTarget \<Rightarrow> GlobalEnvVar list \<Rightarrow> GlobalEnvVar list option" where
  "remove_target t [] = None"
| "remove_target t (e # es) = (if gev_Target e = t then Some es else map_option (Cons e) (remove_target t es))"

definition DeleteGlobalEnvVar :: "string \<Rightarrow> GlobalEnvTarget \<Rightarrow> ConfigHolder \<Rightarrow> ConfigHolder" where
  "DeleteGlobalEnvVar key t h =
     (case remove_target t (GetGlobalEnvEntries key h) of
        None \<Rightarrow> h
      | Some [] \<Rightarrow> h\<lparr>cfh_GlobalEnv := AList.delete key (cfh_GlobalEnv h)\<rparr>
      | Some entries \<Rightarrow> h\<lparr>cfh_GlobalEnv := AList.update key entries (cfh_GlobalEnv h)\<rparr>)"

definition GetHydraOverlays :: "ConfigHolder \<Rightarrow> (string \<times> HydraJobConfig) list" where
  "GetHydraOverlays h = cfh_Hydra h"

definition syncHydraInLocked :: "string \<Rightarrow> ConfigHolder \<Rightarrow> ConfigHolder" where
  "syncHydraInLocked name h =
     (case ensureHydraSectionLocked name h of
        (cfg, h') \<Rightarrow>
          let entries = (case map_of (cfh_ConfigIn h') name of None \<Rightarrow> [] | Some es \<Rightarrow> es)
          in h'\<lparr>cfh_Hydra := AList.update name (cfg\<lparr>hj_In := map cin_Entry entries\<rparr>) (cfh_Hydra h')\<rparr>)"

definition SetConfigIn :: "string \<Rightarrow> ConfigInEntry list \<Rightarrow> ConfigHolder \<Rightarrow> ConfigHolder" where
  "SetConfigIn name entries h =
     syncHydraInLocked name (h\<lparr>cfh_ConfigIn := setSectionSlice name entries (cfh_ConfigIn h)\<rparr>)"

definition AddBundleMapping :: "string \<Rightarrow> string \<Rightarrow> ConfigHolder \<Rightarrow> ConfigHolder" where
  "AddBundleMapping hash bundleID h = h\<lparr>cfh_BundleMap := AList.update hash bundleID (cfh_BundleMap h)\<rparr>"

definition GetBundleMap :: "ConfigHolder \<Rightarrow> (string \<times> string) list" where
  "GetBundleMap h = cfh_BundleMap h"

text \<open>What a claim reads of the holder.\<close>

definition claim_config_of :: "ConfigHolder \<Rightarrow> claim_config" where
  "claim_config_of h = \<lparr>cc_GlobalEnv = GetGlobalEnvAll h, cc_HydraOverlays = GetHydraOverlays h, cc_BundleMap = GetBundleMap h\<rparr>"

section \<open>Start of the server\<close>

text \<open>
  \<^verbatim>\<open>os.Setenv\<close> refuses an empty key, a key with \<^verbatim>\<open>=\<close> and NUL bytes; the callers log the error and go on.
\<close>

definition Setenv :: "string \<Rightarrow> string \<Rightarrow> (string \<times> string) list \<Rightarrow> (string \<times> string) list" where
  "Setenv key v env =
     (if key = [] \<or> CHR ''='' \<in> set key \<or> CHR 0x00 \<in> set key \<or> CHR 0x00 \<in> set v then env else AList.update key v env)"

definition Unsetenv :: "string \<Rightarrow> (string \<times> string) list \<Rightarrow> (string \<times> string) list" where
  "Unsetenv key env = AList.delete key env"

definition globalEnvMapFromStoreEntries :: "ConfigEnv list \<Rightarrow> (string \<times> GlobalEnvVar list) list" where
  "globalEnvMapFromStoreEntries entries =
     fold (\<lambda>e m. case ParseGlobalEnvTarget (ce_Target e) of
         None \<Rightarrow> m
       | Some t \<Rightarrow>
           AList.update (ce_Key e)
             ((case map_of m (ce_Key e) of None \<Rightarrow> [] | Some es \<Rightarrow> es) @
              [\<lparr>gev_Value = ce_Value e, gev_Target = t, gev_Secret = ce_Secret e\<rparr>]) m) entries []"

definition applyServerTargetEnv :: "(string \<times> GlobalEnvVar list) list \<Rightarrow> (string \<times> string) list \<Rightarrow> (string \<times> string) list" where
  "applyServerTargetEnv envMap env =
     fold (\<lambda>(key, entries) env.
       fold (\<lambda>e env. if gev_Target e = GlobalEnvTargetServer then Setenv key (gev_Value e) env else env) entries env) envMap env"

definition by_section :: "ConfigInEntry list \<Rightarrow> (string \<times> ConfigInEntry list) list" where
  "by_section es =
     fold (\<lambda>e m. AList.update (cin_Section e) ((case map_of m (cin_Section e) of None \<Rightarrow> [] | Some xs \<Rightarrow> xs) @ [e]) m) es []"

record config_state =
  cs_Rows :: "ConfigEnv list"
  cs_Holder :: ConfigHolder
  cs_Env :: "(string \<times> string) list"

text \<open>
  The start of the process with the environment \<open>env\<close>. When the table cannot be read (\<open>ok\<close> is false) the server starts with an empty
  map. The entries of \<^verbatim>\<open>config_in\<close> and \<^verbatim>\<open>config_bundle_map\<close> are the rows that were read.
\<close>

definition boot ::
  "bool \<Rightarrow> ConfigInEntry list \<Rightarrow> (string \<times> string) list \<Rightarrow> (string \<times> string) list \<Rightarrow> ConfigEnv list \<Rightarrow> config_state" where
  "boot ok inEntries bundles env rows =
     (let globalEnv = globalEnvMapFromStoreEntries (if ok then ListGlobalEnv rows else []);
          h = fold (\<lambda>(name, es) h. SetConfigIn name es h) (by_section inEntries) (NewConfigHolder globalEnv)
      in \<lparr>cs_Rows = rows, cs_Holder = fold (\<lambda>(hash, b) h. AddBundleMapping hash b h) bundles h,
          cs_Env = applyServerTargetEnv globalEnv env\<rparr>)"

section \<open>Handlers\<close>

record GlobalEnvPutRequest =
  gp_Value :: string
  gp_Target :: string
  gp_Secret :: "bool option"

record GlobalEnvResponse =
  gr_Key :: string
  gr_Value :: string
  gr_Target :: string
  gr_Secret :: bool

text \<open>An entry of the listing is a \<^typ>\<open>GlobalEnvResponse\<close> with an empty value when it is secret.\<close>

definition list_item :: "string \<Rightarrow> GlobalEnvVar \<Rightarrow> GlobalEnvResponse" where
  "list_item k v = \<lparr>gr_Key = k, gr_Value = (if gev_Secret v then [] else gev_Value v),
     gr_Target = GlobalEnvTarget_String (gev_Target v), gr_Secret = gev_Secret v\<rparr>"

definition listGlobalEnvHandler :: "ConfigHolder \<Rightarrow> GlobalEnvResponse list" where
  "listGlobalEnvHandler h =
     (let envMap = GetGlobalEnvAll h
      in concat (map (\<lambda>k. map (list_item k) (sort_key (\<lambda>v. GlobalEnvTarget_String (gev_Target v)) (the (map_of envMap k))))
           (sort (map fst envMap))))"

datatype resolve_error = ErrTargetInvalid | ErrTargetNotFound | ErrAmbiguousKey

definition resolveAmbiguousEntry :: "GlobalEnvVar list \<Rightarrow> string \<Rightarrow> resolve_error + GlobalEnvVar" where
  "resolveAmbiguousEntry entries targetStr =
     (if targetStr \<noteq> [] then
        (case ParseGlobalEnvTarget targetStr of
           None \<Rightarrow> Inl ErrTargetInvalid
         | Some t \<Rightarrow> (case List.find (\<lambda>e. gev_Target e = t) entries of
             Some e \<Rightarrow> Inr e
           | None \<Rightarrow> Inl ErrTargetNotFound))
      else if length entries = 1 then Inr (hd entries)
      else Inl ErrAmbiguousKey)"

text \<open>The results are the status code and, for 200, the response.\<close>

definition getGlobalEnvHandler :: "string \<Rightarrow> string \<Rightarrow> ConfigHolder \<Rightarrow> nat \<times> GlobalEnvResponse option" where
  "getGlobalEnvHandler rawKey targetStr h =
     (let key = TrimSpace rawKey; entries = GetGlobalEnvEntries key h in
      if key = [] then (400, None)
      else if entries = [] then (404, None)
      else case resolveAmbiguousEntry entries targetStr of
        Inl ErrAmbiguousKey \<Rightarrow> (409, None)
      | Inl ErrTargetNotFound \<Rightarrow> (404, None)
      | Inl ErrTargetInvalid \<Rightarrow> (400, None)
      | Inr v \<Rightarrow> (200, Some \<lparr>gr_Key = key, gr_Value = gev_Value v, gr_Target = GlobalEnvTarget_String (gev_Target v),
                    gr_Secret = gev_Secret v\<rparr>))"

text \<open>The body is \<open>None\<close> when it is not a valid request document. The writes of the two handlers are split where the store has
  answered, because other requests can run in between.\<close>

definition put_holder :: "string \<Rightarrow> GlobalEnvVar \<Rightarrow> config_state \<Rightarrow> config_state" where
  "put_holder key v s =
     s\<lparr>cs_Holder := SetGlobalEnvVar key v (cs_Holder s),
       cs_Env := (if gev_Target v = GlobalEnvTargetServer then Setenv key (gev_Value v) (cs_Env s) else cs_Env s)\<rparr>"

definition putGlobalEnvHandler ::
  "bool \<Rightarrow> timestamp \<Rightarrow> string \<Rightarrow> GlobalEnvPutRequest option \<Rightarrow> config_state \<Rightarrow> nat \<times> GlobalEnvResponse option \<times> config_state" where
  "putGlobalEnvHandler ok now rawKey body s =
     (let key = TrimSpace rawKey in
      if key = [] then (400, None, s)
      else case body of
        None \<Rightarrow> (400, None, s)
      | Some req \<Rightarrow> (case ParseGlobalEnvTarget (gp_Target req) of
          None \<Rightarrow> (400, None, s)
        | Some t \<Rightarrow>
            let secret = (case gp_Secret req of None \<Rightarrow> True | Some b \<Rightarrow> b) in
            case UpsertGlobalEnv ok now key (GlobalEnvTarget_String t) (gp_Value req) secret (cs_Rows s) of
              None \<Rightarrow> (500, None, s)
            | Some rows \<Rightarrow>
                (200, Some \<lparr>gr_Key = key, gr_Value = gp_Value req, gr_Target = GlobalEnvTarget_String t, gr_Secret = secret\<rparr>,
                 put_holder key \<lparr>gev_Value = gp_Value req, gev_Target = t, gev_Secret = secret\<rparr> (s\<lparr>cs_Rows := rows\<rparr>))))"

definition delete_holder :: "string \<Rightarrow> GlobalEnvTarget \<Rightarrow> config_state \<Rightarrow> config_state" where
  "delete_holder key t s =
     s\<lparr>cs_Holder := DeleteGlobalEnvVar key t (cs_Holder s),
       cs_Env := (if t = GlobalEnvTargetServer then Unsetenv key (cs_Env s) else cs_Env s)\<rparr>"

text \<open>The target of a deletion: given, or the only one of the key. \<open>Inl\<close> is the status code of the answer.\<close>

definition delete_target :: "string \<Rightarrow> GlobalEnvVar list \<Rightarrow> nat + GlobalEnvTarget" where
  "delete_target targetStr entries =
     (if targetStr \<noteq> [] then (case ParseGlobalEnvTarget targetStr of None \<Rightarrow> Inl 400 | Some t \<Rightarrow> Inr t)
      else case entries of [] \<Rightarrow> Inl 204 | [e] \<Rightarrow> Inr (gev_Target e) | _ \<Rightarrow> Inl 409)"

definition deleteGlobalEnvHandler :: "bool \<Rightarrow> string \<Rightarrow> string \<Rightarrow> config_state \<Rightarrow> nat \<times> config_state" where
  "deleteGlobalEnvHandler ok rawKey targetStr s =
     (let key = TrimSpace rawKey in
      if key = [] then (400, s)
      else case delete_target targetStr (GetGlobalEnvEntries key (cs_Holder s)) of
        Inl code \<Rightarrow> (code, s)
      | Inr t \<Rightarrow> (case DeleteGlobalEnv ok key (GlobalEnvTarget_String t) (cs_Rows s) of
          None \<Rightarrow> (500, s)
        | Some rows \<Rightarrow> (204, delete_holder key t (s\<lparr>cs_Rows := rows\<rparr>))))"

end
