(* ===== verification/Config_Mirror.thy ===== *)
theory Config_Mirror
  imports Global_Env
begin

text \<open>
  The holder mirrors the table: the laws of a store of variables, which both fulfil, the agreement of the two under the handlers and at
  the start of the server, and what a claimed job reads of it.
\<close>

section \<open>Stores of variables\<close>

text \<open>
  The contract of a store of variables with key, target, value and secrecy. \<open>put\<close> and \<open>del\<close> may fail.
\<close>

type_synonym env_setting = "string \<times> bool"

datatype env_op = OpPut string GlobalEnvTarget env_setting | OpDel string GlobalEnvTarget

fun op_effect :: "string \<Rightarrow> GlobalEnvTarget \<Rightarrow> env_op \<Rightarrow> env_setting option \<Rightarrow> env_setting option" where
  "op_effect k t (OpPut k' t' v) cur = (if k' = k \<and> t' = t then Some v else cur)"
| "op_effect k t (OpDel k' t') cur = (if k' = k \<and> t' = t then None else cur)"

locale variable_store =
  fixes ok :: "'s \<Rightarrow> bool"
    and look :: "'s \<Rightarrow> string \<Rightarrow> GlobalEnvTarget \<Rightarrow> env_setting option"
    and put :: "string \<Rightarrow> GlobalEnvTarget \<Rightarrow> env_setting \<Rightarrow> 's \<Rightarrow> 's option"
    and del :: "string \<Rightarrow> GlobalEnvTarget \<Rightarrow> 's \<Rightarrow> 's option"
  assumes ok_put: "ok s \<Longrightarrow> put k t v s = Some s' \<Longrightarrow> ok s'"
    and ok_del: "ok s \<Longrightarrow> del k t s = Some s' \<Longrightarrow> ok s'"
    and look_put: "ok s \<Longrightarrow> put k t v s = Some s' \<Longrightarrow> look s' k' t' = op_effect k' t' (OpPut k t v) (look s k' t')"
    and look_del: "ok s \<Longrightarrow> del k t s = Some s' \<Longrightarrow> look s' k' t' = op_effect k' t' (OpDel k t) (look s k' t')"

text \<open>Two stores that agree and see the same writes agree afterwards.\<close>

locale mirrored_store = a: variable_store ok1 look1 put1 del1 + b: variable_store ok2 look2 put2 del2
  for ok1 :: "'a \<Rightarrow> bool" and look1 put1 del1 and ok2 :: "'b \<Rightarrow> bool" and look2 put2 del2
begin

lemma agree_put:
  "ok1 s \<Longrightarrow> ok2 u \<Longrightarrow> look1 s = look2 u \<Longrightarrow> put1 k t v s = Some s' \<Longrightarrow> put2 k t v u = Some u' \<Longrightarrow> look1 s' = look2 u'"
  by (intro ext) (simp only: a.look_put b.look_put)

lemma agree_del:
  "ok1 s \<Longrightarrow> ok2 u \<Longrightarrow> look1 s = look2 u \<Longrightarrow> del1 k t s = Some s' \<Longrightarrow> del2 k t u = Some u' \<Longrightarrow> look1 s' = look2 u'"
  by (intro ext) (simp only: a.look_del b.look_del)

end

section \<open>The table\<close>

interpretation env_target_enum: wire_enum global_env_targets GlobalEnvTarget_String
proof
  fix c d :: GlobalEnvTarget
  show "c \<in> set global_env_targets" by (cases c) (simp_all add: global_env_targets_def)
  show "GlobalEnvTarget_String c = GlobalEnvTarget_String d \<Longrightarrow> c = d" by (cases c; cases d) simp_all
  show "TrimSpace (GlobalEnvTarget_String c) = GlobalEnvTarget_String c" by (cases c) (simp_all add: TrimSpace_fixed is_space_def)
qed

lemma ParseGlobalEnvTarget_enum: "ParseGlobalEnvTarget s = validate_enum global_env_targets GlobalEnvTarget_String (TrimSpace s)"
  by (simp add: ParseGlobalEnvTarget_def validate_enum_def)

lemma ParseGlobalEnvTarget_String [simp]: "ParseGlobalEnvTarget (GlobalEnvTarget_String t) = Some t"
  by (simp add: ParseGlobalEnvTarget_enum env_target_enum.str_trimmed)

lemma ParseGlobalEnvTarget_Some: "ParseGlobalEnvTarget s = Some t \<longleftrightarrow> TrimSpace s = GlobalEnvTarget_String t"
  by (simp add: ParseGlobalEnvTarget_enum env_target_enum.validate_iff)

definition row_of :: "ConfigEnv list \<Rightarrow> string \<Rightarrow> GlobalEnvTarget \<Rightarrow> env_setting option" where
  "row_of rows k t = map_option (\<lambda>r. (ce_Value r, ce_Secret r)) (find_by row_key (k, GlobalEnvTarget_String t) rows)"

definition rows_ok :: "ConfigEnv list \<Rightarrow> bool" where
  "rows_ok rows \<longleftrightarrow> distinct (map row_key rows) \<and>
     (\<forall>r \<in> set rows. sql_text (ce_Key r) \<and> sql_text (ce_Value r) \<and> (\<exists>t. ce_Target r = GlobalEnvTarget_String t))"

definition table_put :: "timestamp \<Rightarrow> string \<Rightarrow> GlobalEnvTarget \<Rightarrow> env_setting \<Rightarrow> ConfigEnv list \<Rightarrow> ConfigEnv list option" where
  "table_put now k t v rows = UpsertGlobalEnv True now k (GlobalEnvTarget_String t) (fst v) (snd v) rows"

definition table_del :: "string \<Rightarrow> GlobalEnvTarget \<Rightarrow> ConfigEnv list \<Rightarrow> ConfigEnv list option" where
  "table_del k t rows = DeleteGlobalEnv True k (GlobalEnvTarget_String t) rows"

lemma find_by_filter_key: "find_by key k (filter (\<lambda>r. key r \<noteq> k') t) = (if k = k' then None else find_by key k t)"
  by (induction t) (auto simp: find_by_def)

lemma find_by_update_key:
  "(\<And>r. key (f r) = key r) \<Longrightarrow> find_by key q (update_where (\<lambda>r. key r = k) f t) =
     (if q = k then map_option f (find_by key k t) else find_by key q t)"
  by (induction t) (auto simp: find_by_def update_where_def)

lemma table_put_law:
  assumes "rows_ok rows" "table_put now k t v rows = Some rows'"
  shows "rows_ok rows'" "row_of rows' k' t' = op_effect k' t' (OpPut k t v) (row_of rows k' t')"
proof -
  let ?key = "(k, GlobalEnvTarget_String t)"
  let ?f = "\<lambda>r. r\<lparr>ce_Value := fst v, ce_Secret := snd v, ce_UpdatedAt := now\<rparr>"
  let ?new = "\<lparr>ce_Key = k, ce_Target = GlobalEnvTarget_String t, ce_Value = fst v, ce_Secret = snd v, ce_UpdatedAt = now\<rparr>"
  have ex: "?key \<in> row_key ` set rows \<longleftrightarrow> (\<exists>r \<in> set rows. row_key r = ?key)" by force
  have sql: "sql_text k" "sql_text (fst v)"
    and rows': "rows' = (if ?key \<in> row_key ` set rows then update_where (\<lambda>r. row_key r = ?key) ?f rows else rows @ [?new])"
    using assms(2) unfolding ex table_put_def UpsertGlobalEnv_def by (auto split: if_splits)
  have key: "row_key (?f r) = row_key r" for r by (simp add: row_key_def)
  have new: "row_key ?new = ?key" by (simp add: row_key_def)
  have d: "distinct (map row_key rows)" using assms(1) by (simp add: rows_ok_def)
  show "rows_ok rows'"
  proof (cases "?key \<in> row_key ` set rows")
    case True
    then have "map row_key rows' = map row_key rows" by (simp add: rows' map_update_where key)
    then show ?thesis using assms(1) sql True by (auto simp: rows_ok_def rows' set_update_where)
  next
    case False
    then show ?thesis using assms(1) sql by (auto simp: rows_ok_def rows' new)
  qed
  show "row_of rows' k' t' = op_effect k' t' (OpPut k t v) (row_of rows k' t')"
  proof (cases "?key \<in> row_key ` set rows")
    case True
    then obtain r where "find_by row_key ?key rows = Some r" using find_by_None_iff [of row_key ?key rows] by (cases "find_by row_key ?key rows") auto
    then show ?thesis using True by (auto simp: row_of_def rows' find_by_update_key [where key = row_key and f = ?f, OF key])
  next
    case False
    then have "find_by row_key ?key rows = None" by (simp add: find_by_None_iff)
    then show ?thesis using False by (auto simp: row_of_def rows' find_by_append new) (auto simp: find_by_def row_key_def split: option.splits)
  qed
qed

lemma table_del_law:
  assumes "rows_ok rows" "table_del k t rows = Some rows'"
  shows "rows_ok rows'" "row_of rows' k' t' = op_effect k' t' (OpDel k t) (row_of rows k' t')"
proof -
  have rows': "rows' = filter (\<lambda>r. row_key r \<noteq> (k, GlobalEnvTarget_String t)) rows"
    using assms(2) by (auto simp: table_del_def DeleteGlobalEnv_def split: if_splits)
  show "rows_ok rows'" using assms(1) by (auto simp: rows_ok_def rows' distinct_map_filter)
  show "row_of rows' k' t' = op_effect k' t' (OpDel k t) (row_of rows k' t')"
    by (auto simp: row_of_def rows' find_by_filter_key)
qed

interpretation env_table: variable_store rows_ok row_of "table_put now" table_del for now
  by unfold_locales (fact table_put_law table_del_law)+

section \<open>The holder\<close>

definition entry_of :: "ConfigHolder \<Rightarrow> string \<Rightarrow> GlobalEnvTarget \<Rightarrow> env_setting option" where
  "entry_of h k t = map_option (\<lambda>v. (gev_Value v, gev_Secret v)) (find_by gev_Target t (GetGlobalEnvEntries k h))"

text \<open>An entry has at most one setting per target, no key is left without settings, and overlays carry no variables of their own.\<close>

definition entries_ok :: "(string \<times> GlobalEnvVar list) list \<Rightarrow> bool" where
  "entries_ok m \<longleftrightarrow> distinct (map fst m) \<and> (\<forall>k es. map_of m k = Some es \<longrightarrow> es \<noteq> [] \<and> distinct (map gev_Target es))"

definition holder_ok :: "ConfigHolder \<Rightarrow> bool" where
  "holder_ok h \<longleftrightarrow> entries_ok (cfh_GlobalEnv h) \<and> (\<forall>k cfg. map_of (cfh_Hydra h) k = Some cfg \<longrightarrow> hj_Envs cfg = None)"

definition holder_put :: "string \<Rightarrow> GlobalEnvTarget \<Rightarrow> env_setting \<Rightarrow> ConfigHolder \<Rightarrow> ConfigHolder option" where
  "holder_put k t v h = Some (SetGlobalEnvVar k \<lparr>gev_Value = fst v, gev_Target = t, gev_Secret = snd v\<rparr> h)"

definition holder_del :: "string \<Rightarrow> GlobalEnvTarget \<Rightarrow> ConfigHolder \<Rightarrow> ConfigHolder option" where
  "holder_del k t h = Some (DeleteGlobalEnvVar k t h)"

lemma replace_target_None: "replace_target v es = None \<longleftrightarrow> gev_Target v \<notin> gev_Target ` set es"
  by (induction es) auto

lemma replace_target_Some:
  "replace_target v es = Some es' \<Longrightarrow> map gev_Target es' = map gev_Target es \<and>
     find_by gev_Target t es' = (if t = gev_Target v then Some v else find_by gev_Target t es)"
proof (induction es arbitrary: es')
  case (Cons e es)
  show ?case
  proof (cases "gev_Target e = gev_Target v")
    case False
    then obtain es1 where "replace_target v es = Some es1" "es' = e # es1" using Cons.prems by auto
    then show ?thesis using Cons.IH [of es1] False by (auto simp: find_by_def)
  qed (use Cons.prems in \<open>auto simp: find_by_def\<close>)
qed simp

lemma set_entries:
  assumes "distinct (map gev_Target es)" "es' = (case replace_target v es of Some es' \<Rightarrow> es' | None \<Rightarrow> es @ [v])"
  shows "es' \<noteq> []" "distinct (map gev_Target es')" "find_by gev_Target t es' = (if t = gev_Target v then Some v else find_by gev_Target t es)"
proof -
  have "es' \<noteq> [] \<and> distinct (map gev_Target es') \<and>
    find_by gev_Target t es' = (if t = gev_Target v then Some v else find_by gev_Target t es)"
  proof (cases "replace_target v es")
    case None
    then have n: "gev_Target v \<notin> gev_Target ` set es" by (simp add: replace_target_None)
    then have "find_by gev_Target (gev_Target v) es = None" by (simp add: find_by_None_iff)
    then show ?thesis using None n assms by (cases "find_by gev_Target t es") (auto simp: find_by_append, auto simp: find_by_def)
  next
    case (Some es1)
    then have "es \<noteq> []" by auto
    then show ?thesis using Some assms replace_target_Some [OF Some, of t] by (auto dest: arg_cong [of _ _ length])
  qed
  then show "es' \<noteq> []" "distinct (map gev_Target es')"
    "find_by gev_Target t es' = (if t = gev_Target v then Some v else find_by gev_Target t es)" by blast+
qed

lemma remove_target_spec:
  "distinct (map gev_Target es) \<Longrightarrow>
   remove_target t es = (if t \<in> gev_Target ` set es then Some (filter (\<lambda>v. gev_Target v \<noteq> t) es) else None)"
proof (induction es)
  case (Cons e es)
  have "filter (\<lambda>v. gev_Target v \<noteq> t) es = es" if "t \<notin> gev_Target ` set es" using that by (auto simp: filter_id_conv)
  then show ?case using Cons by auto
qed simp

lemma entries_distinct: "holder_ok h \<Longrightarrow> distinct (map gev_Target (GetGlobalEnvEntries k h))"
  by (auto simp: holder_ok_def entries_ok_def GetGlobalEnvEntries_def split: option.splits)

lemma entries_ok_update: "entries_ok m \<Longrightarrow> es \<noteq> [] \<Longrightarrow> distinct (map gev_Target es) \<Longrightarrow> entries_ok (AList.update k es m)"
  by (auto simp: entries_ok_def distinct_update update_conv' simp del: map_of_eq_Some_iff split: if_splits)

lemma entries_ok_delete: "entries_ok m \<Longrightarrow> entries_ok (AList.delete k m)"
  by (auto simp: entries_ok_def distinct_delete delete_conv' simp del: map_of_eq_Some_iff)

lemma holder_put_law:
  assumes "holder_ok h" "holder_put k t v h = Some h'"
  shows "holder_ok h'" "entry_of h' k' t' = op_effect k' t' (OpPut k t v) (entry_of h k' t')"
proof -
  let ?v = "\<lparr>gev_Value = fst v, gev_Target = t, gev_Secret = snd v\<rparr>"
  define es where "es = (case replace_target ?v (GetGlobalEnvEntries k h) of Some es \<Rightarrow> es | None \<Rightarrow> GetGlobalEnvEntries k h @ [?v])"
  have h': "h' = h\<lparr>cfh_GlobalEnv := AList.update k es (cfh_GlobalEnv h)\<rparr>"
    using assms(2) by (simp add: holder_put_def SetGlobalEnvVar_def es_def Let_def)
  note s = set_entries [OF entries_distinct [OF assms(1)] es_def]
  show "holder_ok h'" using assms(1) s(1,2) by (simp add: h' holder_ok_def entries_ok_update)
  have "GetGlobalEnvEntries k' h' = (if k' = k then es else GetGlobalEnvEntries k' h)"
    by (simp add: h' GetGlobalEnvEntries_def update_conv')
  then show "entry_of h' k' t' = op_effect k' t' (OpPut k t v) (entry_of h k' t')" by (simp add: entry_of_def s(3))
qed

lemma holder_del_law:
  assumes "holder_ok h" "holder_del k t h = Some h'"
  shows "holder_ok h'" "entry_of h' k' t' = op_effect k' t' (OpDel k t) (entry_of h k' t')"
proof -
  let ?es = "GetGlobalEnvEntries k h"
  let ?rest = "filter (\<lambda>v. gev_Target v \<noteq> t) ?es"
  note d = entries_distinct [OF assms(1), of k]
  have h': "h' = (if t \<in> gev_Target ` set ?es
      then (if ?rest = [] then h\<lparr>cfh_GlobalEnv := AList.delete k (cfh_GlobalEnv h)\<rparr> else h\<lparr>cfh_GlobalEnv := AList.update k ?rest (cfh_GlobalEnv h)\<rparr>)
      else h)"
    using assms(2) by (auto simp: holder_del_def DeleteGlobalEnvVar_def remove_target_spec [OF d] split: list.splits)
  have "distinct (map gev_Target ?rest)" using d by (rule distinct_map_filter)
  then show "holder_ok h'" using assms(1) by (simp add: h' holder_ok_def entries_ok_update entries_ok_delete)
  have "?rest = ?es" if "t \<notin> gev_Target ` set ?es" using that by (auto simp: filter_id_conv)
  then have "GetGlobalEnvEntries k' h' = (if k' = k then ?rest else GetGlobalEnvEntries k' h)"
    by (auto simp: h' GetGlobalEnvEntries_def update_conv' delete_conv')
  then show "entry_of h' k' t' = op_effect k' t' (OpDel k t) (entry_of h k' t')" by (simp add: entry_of_def find_by_filter_key)
qed

interpretation env_holder: variable_store holder_ok entry_of holder_put holder_del
  by unfold_locales (fact holder_put_law holder_del_law)+

interpretation mirror: mirrored_store rows_ok row_of "table_put now" table_del holder_ok entry_of holder_put holder_del for now
  by unfold_locales

end
