(* ===== verification/Config_System.thy ===== *)
theory Config_System
  imports Config_Mirror
begin

text \<open>
  The configuration as a transition system: requests that set and delete variables and restarts of the server, in any order. In every
  reachable state the holder, the table and the environment of the process agree, and both hold what the accepted requests wrote.
\<close>

section \<open>Passes over the variables\<close>

text \<open>A pass writes the variables of one target; \<open>upd\<close> writes a variable into the result when \<open>good\<close>.\<close>

lemma pass_entries:
  "distinct (map gev_Target es) \<Longrightarrow>
   fold (\<lambda>v m. if gev_Target v = t then upd k (gev_Value v) m else m) es m =
     (case find_by gev_Target t es of None \<Rightarrow> m | Some v \<Rightarrow> upd k (gev_Value v) m)"
proof (induction es arbitrary: m)
  case (Cons e es)
  show ?case
  proof (cases "gev_Target e = t")
    case True
    then have "find_by gev_Target t es = None" using Cons.prems by (auto simp: find_by_None_iff)
    then show ?thesis using True Cons by (simp add: find_by_def)
  next
    case False
    then show ?thesis using Cons by (simp add: find_by_def)
  qed
qed (simp add: find_by_def)

lemma entries_ok_Cons:
  assumes "entries_ok ((k, es) # m)"
  shows "distinct (map gev_Target es)" "map_of m k = None" "entries_ok m"
proof -
  have d: "k \<notin> fst ` set m" "distinct (map fst m)" using assms by (simp_all add: entries_ok_def)
  then show n: "map_of m k = None" by (simp add: map_of_eq_None_iff)
  have all: "map_of ((k, es) # m) k' = Some es' \<Longrightarrow> es' \<noteq> [] \<and> distinct (map gev_Target es')" for k' es'
    using assms unfolding entries_ok_def by blast
  show "distinct (map gev_Target es)" using all [of k es] by simp
  have "es' \<noteq> [] \<and> distinct (map gev_Target es')" if "map_of m k' = Some es'" for k' es'
    using all [of k' es'] that n by (cases "k' = k") auto
  then show "entries_ok m" using d(2) unfolding entries_ok_def by blast
qed

lemma pass_lookup:
  assumes law: "\<And>k v m k'. map_of (upd k v m) k' = (if k' = k \<and> good k v then Some v else map_of m k')"
  shows "entries_ok G \<Longrightarrow>
    map_of (fold (\<lambda>(k, es) m. fold (\<lambda>v m. if gev_Target v = t then upd k (gev_Value v) m else m) es m) G m) k =
      (case find_by gev_Target t (case map_of G k of None \<Rightarrow> [] | Some es \<Rightarrow> es) of
         None \<Rightarrow> map_of m k
       | Some v \<Rightarrow> if good k (gev_Value v) then Some (gev_Value v) else map_of m k)"
proof (induction G arbitrary: m)
  case (Cons x G)
  obtain k0 es where x: "x = (k0, es)" by (cases x)
  note e = entries_ok_Cons [OF Cons.prems [unfolded x]]
  show ?case
    unfolding x fold_Cons comp_apply prod.case pass_entries [OF e(1)] Cons.IH [OF e(3)]
    using e(2) law by (cases "find_by gev_Target t es"; cases "k = k0") (auto simp: find_by_def split: option.splits)
qed (simp add: find_by_def)

definition settable :: "string \<Rightarrow> string \<Rightarrow> bool" where
  "settable k v \<longleftrightarrow> k \<noteq> [] \<and> CHR ''='' \<notin> set k \<and> sql_text k \<and> sql_text v"

lemma Setenv_lookup: "map_of (Setenv k v env) k' = (if k' = k \<and> settable k v then Some v else map_of env k')"
  by (simp add: Setenv_def settable_def sql_text_def update_conv')

lemma applyServerTargetEnv_lookup:
  assumes "entries_ok G"
  shows "map_of (applyServerTargetEnv G env) k =
    (case find_by gev_Target GlobalEnvTargetServer (case map_of G k of None \<Rightarrow> [] | Some es \<Rightarrow> es) of
       None \<Rightarrow> map_of env k
     | Some v \<Rightarrow> if settable k (gev_Value v) then Some (gev_Value v) else map_of env k)"
  unfolding applyServerTargetEnv_def by (rule pass_lookup [where upd = Setenv and good = settable, OF Setenv_lookup assms])

lemma env_pass_lookup:
  assumes "entries_ok G"
  shows "map_of (env_pass (\<lambda>t'. t' = t) G m) k =
    (case find_by gev_Target t (case map_of G k of None \<Rightarrow> [] | Some es \<Rightarrow> es) of None \<Rightarrow> map_of m k | Some v \<Rightarrow> Some (gev_Value v))"
  unfolding env_pass_def
  by (subst pass_lookup [where upd = AList.update and good = "\<lambda>_ _. True", OF _ assms]) (simp_all add: update_conv' split: option.split)

lemma env_pass_distinct: "distinct (map fst m) \<Longrightarrow> distinct (map fst (env_pass sel G m))"
proof -
  have inner: "distinct (map fst m) \<Longrightarrow>
      distinct (map fst (fold (\<lambda>v m. if sel (gev_Target v) then AList.update k (gev_Value v) m else m) es m))" for k es m
    by (induction es arbitrary: m) (simp_all add: distinct_update)
  show "distinct (map fst m) \<Longrightarrow> distinct (map fst (env_pass sel G m))"
    unfolding env_pass_def by (induction G arbitrary: m) (simp_all add: inner split: prod.split)
qed

section \<open>What a job gets\<close>

definition job_target :: "job_type \<Rightarrow> GlobalEnvTarget" where
  "job_target ty = (if ty = JobTypeMig then GlobalEnvTargetSteps else GlobalEnvTargetGates)"

lemma MatchesJobType_iff: "MatchesJobType t ty \<longleftrightarrow> t = job_target ty"
  by (cases t; cases ty) (simp_all add: job_target_def)

lemma holder_overlay:
  fixes h ty
  defines "overlay \<equiv> envs_of (assembleHydraOverlay (GetHydraOverlays h) (JobType_String ty) (GetGlobalEnvAll h) ty)"
  assumes "holder_ok h"
  shows "distinct (map fst overlay)" "map_of overlay k =
    (case entry_of h k (job_target ty) of Some v \<Rightarrow> Some (fst v) | None \<Rightarrow> map_option fst (entry_of h k GlobalEnvTargetNodes))"
proof -
  let ?G = "cfh_GlobalEnv h"
  let ?m = "env_pass (\<lambda>t. t = job_target ty) ?G (env_pass (\<lambda>t. t = GlobalEnvTargetNodes) ?G [])"
  have G: "entries_ok ?G" and envs: "map_of (cfh_Hydra h) s = Some cfg \<Longrightarrow> hj_Envs cfg = None" for s cfg
    using assms(2) by (auto simp: holder_ok_def)
  have base: "hj_Envs (case map_of (cfh_Hydra h) s of None \<Rightarrow> empty_overlay | Some cfg \<Rightarrow> cfg) = None" for s
    using envs by (simp add: empty_overlay_def split: option.split)
  have o: "overlay = ?m"
    unfolding overlay_def assembleHydraOverlay_def Let_def GetHydraOverlays_def GetGlobalEnvAll_def MatchesJobType_iff
    using base by (simp add: envs_of_def)
  show "distinct (map fst overlay)" unfolding o by (simp add: env_pass_distinct)
  show "map_of overlay k = (case entry_of h k (job_target ty) of Some v \<Rightarrow> Some (fst v) | None \<Rightarrow> map_option fst (entry_of h k GlobalEnvTargetNodes))"
    unfolding o env_pass_lookup [OF G] entry_of_def GetGlobalEnvEntries_def by (simp split: option.splits)
qed

section \<open>Loading\<close>

definition stored_var :: "ConfigEnv \<Rightarrow> GlobalEnvVar" where
  "stored_var e = \<lparr>gev_Value = ce_Value e, gev_Target = the (ParseGlobalEnvTarget (ce_Target e)), gev_Secret = ce_Secret e\<rparr>"

definition vars_at :: "string \<Rightarrow> ConfigEnv list \<Rightarrow> GlobalEnvVar list" where
  "vars_at k es = map stored_var (filter (\<lambda>e. ce_Key e = k \<and> ParseGlobalEnvTarget (ce_Target e) \<noteq> None) es)"

lemma loaded_entries:
  "map_of (globalEnvMapFromStoreEntries es) k = (if vars_at k es = [] then None else Some (vars_at k es))"
proof (induction es rule: rev_induct)
  case (snoc e es)
  then show ?case
    by (cases "ParseGlobalEnvTarget (ce_Target e)")
      (auto simp: globalEnvMapFromStoreEntries_def vars_at_def update_conv' stored_var_def)
qed (simp add: globalEnvMapFromStoreEntries_def vars_at_def)

lemma loaded_distinct: "distinct (map fst (globalEnvMapFromStoreEntries es))"
  by (induction es rule: rev_induct) (auto simp: globalEnvMapFromStoreEntries_def distinct_update split: option.split)

lemma rows_okD:
  assumes "rows_ok rows" "r \<in> set rows"
  obtains t where "ce_Target r = GlobalEnvTarget_String t" "sql_text (ce_Key r)" "sql_text (ce_Value r)"
  using assms by (auto simp: rows_ok_def)

lemma vars_at_find:
  assumes "rows_ok rows"
  shows "find_by gev_Target t (vars_at k rows) = map_option stored_var (find_by row_key (k, GlobalEnvTarget_String t) rows)"
proof -
  have "\<forall>r \<in> set rows. \<exists>t. ce_Target r = GlobalEnvTarget_String t" using assms by (auto simp: rows_ok_def)
  then show ?thesis
    by (induction rows) (auto simp: vars_at_def find_by_def row_key_def stored_var_def)
qed

lemma vars_at_distinct:
  assumes "rows_ok rows"
  shows "distinct (map gev_Target (vars_at k rows))"
proof -
  let ?f = "filter (\<lambda>e. ce_Key e = k \<and> ParseGlobalEnvTarget (ce_Target e) \<noteq> None) rows"
  have d: "distinct rows" "inj_on row_key (set rows)" using assms by (auto simp: rows_ok_def distinct_map)
  have "inj_on (\<lambda>e. gev_Target (stored_var e)) (set ?f)"
  proof (rule inj_onI)
    fix x y assume xy: "x \<in> set ?f" "y \<in> set ?f" "gev_Target (stored_var x) = gev_Target (stored_var y)"
    then obtain t u where "ce_Target x = GlobalEnvTarget_String t" "ce_Target y = GlobalEnvTarget_String u"
      using rows_okD [OF assms] by (metis (no_types, lifting) filter_is_subset subsetD)
    then have "row_key x = row_key y" using xy by (simp add: row_key_def stored_var_def)
    then show "x = y" using d(2) xy by (auto dest: inj_onD)
  qed
  then show ?thesis using d(1) by (simp add: vars_at_def distinct_map comp_def)
qed

lemma rows_ok_ListGlobalEnv: "rows_ok rows \<Longrightarrow> rows_ok (ListGlobalEnv rows)"
  by (simp add: rows_ok_def ListGlobalEnv_def distinct_map)

lemma row_of_ListGlobalEnv: "rows_ok rows \<Longrightarrow> row_of (ListGlobalEnv rows) = row_of rows"
proof -
  assume ok: "rows_ok rows"
  have d: "distinct (map row_key rows)" "distinct (map row_key (ListGlobalEnv rows))"
    using ok rows_ok_ListGlobalEnv [OF ok] by (simp_all add: rows_ok_def)
  have "set (ListGlobalEnv rows) = set rows" by (simp add: ListGlobalEnv_def)
  then have "find_by row_key q (ListGlobalEnv rows) = Some r \<longleftrightarrow> find_by row_key q rows = Some r" for q r
    unfolding find_by_iff [OF d(1)] find_by_iff [OF d(2)] by simp
  then have "find_by row_key q (ListGlobalEnv rows) = find_by row_key q rows" for q by (metis option.exhaust)
  then show ?thesis by (simp add: row_of_def fun_eq_iff)
qed

lemma loaded_ok: "rows_ok rows \<Longrightarrow> entries_ok (globalEnvMapFromStoreEntries (ListGlobalEnv rows))"
  using loaded_distinct vars_at_distinct [OF rows_ok_ListGlobalEnv]
  by (simp add: entries_ok_def loaded_entries del: map_of_eq_Some_iff)

lemma loaded_find:
  assumes "rows_ok rows"
  shows "map_option (\<lambda>v. (gev_Value v, gev_Secret v))
      (find_by gev_Target t (case map_of (globalEnvMapFromStoreEntries (ListGlobalEnv rows)) k of None \<Rightarrow> [] | Some es \<Rightarrow> es)) =
    row_of rows k t"
proof -
  have "(case map_of (globalEnvMapFromStoreEntries (ListGlobalEnv rows)) k of None \<Rightarrow> [] | Some es \<Rightarrow> es) = vars_at k (ListGlobalEnv rows)"
    by (simp add: loaded_entries)
  moreover have "map_option (\<lambda>v. (gev_Value v, gev_Secret v)) (find_by gev_Target t (vars_at k (ListGlobalEnv rows))) = row_of (ListGlobalEnv rows) k t"
    unfolding vars_at_find [OF rows_ok_ListGlobalEnv [OF assms]] row_of_def by (simp add: option.map_comp comp_def stored_var_def)
  ultimately show ?thesis by (simp add: row_of_ListGlobalEnv [OF assms])
qed

section \<open>The start of the server\<close>

lemma SetConfigIn_holder:
  assumes "holder_ok h"
  shows "holder_ok (SetConfigIn name es h) \<and> cfh_GlobalEnv (SetConfigIn name es h) = cfh_GlobalEnv h"
  using assms
  by (auto simp: SetConfigIn_def syncHydraInLocked_def ensureHydraSectionLocked_def holder_ok_def Let_def update_conv' empty_overlay_def
      split: option.splits if_splits)

lemma boot_holder:
  assumes "rows_ok rows"
  shows "holder_ok (cs_Holder (boot True ins bundles env rows))" "entry_of (cs_Holder (boot True ins bundles env rows)) = row_of rows"
proof -
  let ?g = "globalEnvMapFromStoreEntries (ListGlobalEnv rows)"
  let ?P = "\<lambda>h. holder_ok h \<and> cfh_GlobalEnv h = ?g"
  have "?P (NewConfigHolder ?g)" using loaded_ok [OF assms] by (simp add: holder_ok_def NewConfigHolder_def)
  then have "?P (fold (\<lambda>(name, es) h. SetConfigIn name es h) (by_section ins) (NewConfigHolder ?g))"
    by (rule fold_invariant [where Q = "\<lambda>_. True", rotated]) (auto simp: SetConfigIn_holder split: prod.splits)
  then have "?P (fold (\<lambda>(hash, b) h. AddBundleMapping hash b h) bundles
      (fold (\<lambda>(name, es) h. SetConfigIn name es h) (by_section ins) (NewConfigHolder ?g)))"
    by (rule fold_invariant [where Q = "\<lambda>_. True", rotated]) (auto simp: AddBundleMapping_def holder_ok_def split: prod.splits)
  then have P: "?P (cs_Holder (boot True ins bundles env rows))" by (simp add: boot_def Let_def)
  then show "holder_ok (cs_Holder (boot True ins bundles env rows))" by blast
  show "entry_of (cs_Holder (boot True ins bundles env rows)) = row_of rows"
    using P loaded_find [OF assms] by (simp add: fun_eq_iff entry_of_def GetGlobalEnvEntries_def)
qed

lemma row_of_sql:
  assumes "rows_ok rows" "row_of rows k t = Some (v, b)"
  shows "sql_text k" "sql_text v"
proof -
  obtain r where "r \<in> set rows" "ce_Key r = k" "ce_Value r = v"
    using assms(2) by (auto simp: row_of_def row_key_def dest: find_by_SomeD)
  then show "sql_text k" "sql_text v" using assms(1) by (auto simp: rows_ok_def)
qed

text \<open>Variables for the server are in the environment of its process, unless the process cannot hold the name.\<close>

definition server_ok :: "config_state \<Rightarrow> bool" where
  "server_ok s \<longleftrightarrow> (\<forall>k v b. row_of (cs_Rows s) k GlobalEnvTargetServer = Some (v, b) \<longrightarrow> k \<noteq> [] \<longrightarrow> CHR ''='' \<notin> set k \<longrightarrow>
     map_of (cs_Env s) k = Some v)"

lemma boot_server: "rows_ok rows \<Longrightarrow> server_ok (boot True ins bundles env rows)"
proof -
  assume ok: "rows_ok rows"
  let ?g = "globalEnvMapFromStoreEntries (ListGlobalEnv rows)"
  let ?find = "\<lambda>k. find_by gev_Target GlobalEnvTargetServer (case map_of ?g k of None \<Rightarrow> [] | Some es \<Rightarrow> es)"
  have "map_of (applyServerTargetEnv ?g env) k = Some v"
    if r: "row_of rows k GlobalEnvTargetServer = Some (v, b)" and k: "k \<noteq> []" "CHR ''='' \<notin> set k" for k v b
  proof -
    from loaded_find [OF ok, of GlobalEnvTargetServer k] r obtain w where "?find k = Some w" "gev_Value w = v" by auto
    moreover have "settable k v" using k row_of_sql [OF ok r] by (simp add: settable_def)
    ultimately show ?thesis by (simp add: applyServerTargetEnv_lookup [OF loaded_ok [OF ok]])
  qed
  then show ?thesis by (simp add: server_ok_def boot_def Let_def)
qed

section \<open>Requests and restarts\<close>

text \<open>The write of an accepted request.\<close>

definition put_log :: "nat \<Rightarrow> string \<Rightarrow> GlobalEnvPutRequest option \<Rightarrow> env_op list" where
  "put_log code rawKey body =
     (case body of
        Some req \<Rightarrow> (case ParseGlobalEnvTarget (gp_Target req) of
          Some t \<Rightarrow> if code = 200
            then [OpPut (TrimSpace rawKey) t (gp_Value req, case gp_Secret req of None \<Rightarrow> True | Some b \<Rightarrow> b)] else []
        | None \<Rightarrow> [])
      | None \<Rightarrow> [])"

definition delete_log :: "nat \<Rightarrow> string \<Rightarrow> string \<Rightarrow> config_state \<Rightarrow> env_op list" where
  "delete_log code rawKey targetStr s =
     (case delete_target targetStr (GetGlobalEnvEntries (TrimSpace rawKey) (cs_Holder s)) of
        Inr t \<Rightarrow> if code = 204 then [OpDel (TrimSpace rawKey) t] else []
      | Inl _ \<Rightarrow> [])"

lemma put_handler_cases:
  assumes "putGlobalEnvHandler ok now rawKey body s = (code, resp, s')"
  obtains "s' = s" "put_log code rawKey body = []"
  | k t v rows where "code = 200" "put_log code rawKey body = [OpPut k t v]" "table_put now k t v (cs_Rows s) = Some rows"
      "s' = put_holder k \<lparr>gev_Value = fst v, gev_Target = t, gev_Secret = snd v\<rparr> (s\<lparr>cs_Rows := rows\<rparr>)"
proof (cases "code = 200")
  case True
  then obtain req t where req: "body = Some req" "ParseGlobalEnvTarget (gp_Target req) = Some t"
    using assms by (auto simp: putGlobalEnvHandler_def Let_def split: if_splits option.splits)
  let ?b = "case gp_Secret req of None \<Rightarrow> True | Some b \<Rightarrow> b"
  obtain rows where up: "UpsertGlobalEnv ok now (TrimSpace rawKey) (GlobalEnvTarget_String t) (gp_Value req) ?b (cs_Rows s) = Some rows"
    and s': "s' = put_holder (TrimSpace rawKey) \<lparr>gev_Value = gp_Value req, gev_Target = t, gev_Secret = ?b\<rparr> (s\<lparr>cs_Rows := rows\<rparr>)"
    using assms True by (cases "TrimSpace rawKey = []"; cases "UpsertGlobalEnv ok now (TrimSpace rawKey) (GlobalEnvTarget_String t) (gp_Value req) ?b (cs_Rows s)")
      (simp_all add: putGlobalEnvHandler_def Let_def req)
  have "ok" using up by (cases ok) (simp_all add: UpsertGlobalEnv_def)
  then have "table_put now (TrimSpace rawKey) t (gp_Value req, ?b) (cs_Rows s) = Some rows" using up by (simp add: table_put_def)
  then show ?thesis using True req s' by (intro that(2) [of "TrimSpace rawKey" t "(gp_Value req, ?b)" rows]) (simp_all add: put_log_def)
next
  case False
  then have "s' = s" using assms by (auto simp: putGlobalEnvHandler_def Let_def split: if_splits option.splits)
  then show ?thesis using False by (intro that(1)) (simp_all add: put_log_def split: option.split)
qed

lemma delete_handler_cases:
  assumes "deleteGlobalEnvHandler ok rawKey targetStr s = (code, s')"
  obtains "s' = s" "delete_log code rawKey targetStr s = []"
  | k t rows where "delete_log code rawKey targetStr s = [OpDel k t]" "table_del k t (cs_Rows s) = Some rows"
      "s' = delete_holder k t (s\<lparr>cs_Rows := rows\<rparr>)"
proof (cases "delete_target targetStr (GetGlobalEnvEntries (TrimSpace rawKey) (cs_Holder s))")
  case (Inl c)
  then have "s' = s" using assms by (auto simp: deleteGlobalEnvHandler_def Let_def split: if_splits)
  then show ?thesis using Inl by (intro that(1)) (simp_all add: delete_log_def)
next
  case (Inr t)
  show ?thesis
  proof (cases "TrimSpace rawKey = [] \<or> DeleteGlobalEnv ok (TrimSpace rawKey) (GlobalEnvTarget_String t) (cs_Rows s) = None")
    case True
    then have "s' = s" "code \<noteq> 204" using assms Inr by (auto simp: deleteGlobalEnvHandler_def Let_def split: if_splits)
    then show ?thesis using Inr by (intro that(1)) (simp_all add: delete_log_def)
  next
    case False
    then obtain rows where del: "DeleteGlobalEnv ok (TrimSpace rawKey) (GlobalEnvTarget_String t) (cs_Rows s) = Some rows" by auto
    then have "table_del (TrimSpace rawKey) t (cs_Rows s) = Some rows"
      by (simp add: table_del_def DeleteGlobalEnv_def split: if_splits)
    then show ?thesis using assms False Inr del
      by (intro that(2) [of "TrimSpace rawKey" t rows]) (auto simp: deleteGlobalEnvHandler_def delete_log_def Let_def)
  qed
qed

text \<open>
  A state carries the log of the writes. A restart reads the table; the case that the table cannot be read is excluded, since the server
  then runs without variables until it is started again.
\<close>

definition config_init :: "env_op list \<times> config_state \<Rightarrow> bool" where
  "config_init Ls \<longleftrightarrow> (\<exists>ins bundles env. Ls = ([], boot True ins bundles env []))"

inductive config_step :: "env_op list \<times> config_state \<Rightarrow> env_op list \<times> config_state \<Rightarrow> bool" where
  put: "putGlobalEnvHandler ok now rawKey body s = (code, resp, s') \<Longrightarrow> config_step (L, s) (L @ put_log code rawKey body, s')"
| delete: "deleteGlobalEnvHandler ok rawKey targetStr s = (code, s') \<Longrightarrow> config_step (L, s) (L @ delete_log code rawKey targetStr s, s')"
| restart: "config_step (L, s) (L, boot True ins bundles env (cs_Rows s))"

fun config_inv :: "env_op list \<times> config_state \<Rightarrow> bool" where
  "config_inv (L, s) \<longleftrightarrow> rows_ok (cs_Rows s) \<and> holder_ok (cs_Holder s) \<and> row_of (cs_Rows s) = entry_of (cs_Holder s) \<and>
     row_of (cs_Rows s) = (\<lambda>k t. fold (op_effect k t) L None) \<and> server_ok s"

lemma config_invD:
  assumes "config_inv (L, s)"
  shows "rows_ok (cs_Rows s)" "holder_ok (cs_Holder s)" "row_of (cs_Rows s) = entry_of (cs_Holder s)"
    "row_of (cs_Rows s) = (\<lambda>k t. fold (op_effect k t) L None)" "server_ok s"
  using assms unfolding config_inv.simps by blast+

lemma put_holder_inv:
  assumes inv: "config_inv (L, s)" and up: "table_put now k t v (cs_Rows s) = Some rows"
  shows "config_inv (L @ [OpPut k t v], put_holder k \<lparr>gev_Value = fst v, gev_Target = t, gev_Secret = snd v\<rparr> (s\<lparr>cs_Rows := rows\<rparr>))"
proof -
  let ?h = "SetGlobalEnvVar k \<lparr>gev_Value = fst v, gev_Target = t, gev_Secret = snd v\<rparr> (cs_Holder s)"
  have ok: "rows_ok (cs_Rows s)" "holder_ok (cs_Holder s)" and agree: "row_of (cs_Rows s) = entry_of (cs_Holder s)"
    and log: "row_of (cs_Rows s) = (\<lambda>k t. fold (op_effect k t) L None)" and server: "server_ok s"
    using config_invD [OF inv] by blast+
  have h: "holder_put k t v (cs_Holder s) = Some ?h" by (simp add: holder_put_def)
  note look = env_table.look_put [OF ok(1) up]
  have "sql_text k" "sql_text (fst v)" using up by (auto simp: table_put_def UpsertGlobalEnv_def split: if_splits)
  then have "server_ok (put_holder k \<lparr>gev_Value = fst v, gev_Target = t, gev_Secret = snd v\<rparr> (s\<lparr>cs_Rows := rows\<rparr>))"
    using server by (auto simp: server_ok_def put_holder_def look Setenv_lookup settable_def split: if_splits)
  moreover have "row_of rows = (\<lambda>k' t'. fold (op_effect k' t') (L @ [OpPut k t v]) None)" using look log by (simp add: fun_eq_iff)
  ultimately show ?thesis
    using env_table.ok_put [OF ok(1) up] env_holder.ok_put [OF ok(2) h] mirror.agree_put [OF ok agree up h] by (simp add: put_holder_def)
qed

lemma delete_holder_inv:
  assumes inv: "config_inv (L, s)" and del: "table_del k t (cs_Rows s) = Some rows"
  shows "config_inv (L @ [OpDel k t], delete_holder k t (s\<lparr>cs_Rows := rows\<rparr>))"
proof -
  let ?h = "DeleteGlobalEnvVar k t (cs_Holder s)"
  have ok: "rows_ok (cs_Rows s)" "holder_ok (cs_Holder s)" and agree: "row_of (cs_Rows s) = entry_of (cs_Holder s)"
    and log: "row_of (cs_Rows s) = (\<lambda>k t. fold (op_effect k t) L None)" and server: "server_ok s"
    using config_invD [OF inv] by blast+
  have h: "holder_del k t (cs_Holder s) = Some ?h" by (simp add: holder_del_def)
  note look = env_table.look_del [OF ok(1) del]
  have "server_ok (delete_holder k t (s\<lparr>cs_Rows := rows\<rparr>))"
    using server by (auto simp: server_ok_def delete_holder_def look Unsetenv_def delete_conv' split: if_splits)
  moreover have "row_of rows = (\<lambda>k' t'. fold (op_effect k' t') (L @ [OpDel k t]) None)" using look log by (simp add: fun_eq_iff)
  ultimately show ?thesis
    using env_table.ok_del [OF ok(1) del] env_holder.ok_del [OF ok(2) h] mirror.agree_del [OF ok agree del h] by (simp add: delete_holder_def)
qed

lemma boot_inv:
  assumes "rows_ok rows" "row_of rows = (\<lambda>k t. fold (op_effect k t) L None)"
  shows "config_inv (L, boot True ins bundles env rows)"
proof -
  have "cs_Rows (boot True ins bundles env rows) = rows" by (simp add: boot_def Let_def)
  then show ?thesis using assms boot_holder [OF assms(1)] boot_server [OF assms(1)] by simp
qed

interpretation config: invariant_system config_init config_step config_inv
proof
  fix x y
  show "config_init x \<Longrightarrow> config_inv x"
    by (auto simp: config_init_def rows_ok_def row_of_def find_by_def fun_eq_iff intro!: boot_inv simp del: config_inv.simps)
  assume "config_step x y" "config_inv x"
  then show "config_inv y"
  proof (induction rule: config_step.induct)
    case (put ok now rawKey body s code resp s' L)
    from put(1) show ?case by (rule put_handler_cases) (use put(2) put_holder_inv in \<open>simp_all del: config_inv.simps\<close>)
  next
    case (delete ok rawKey targetStr s code s' L)
    from delete(1) show ?case by (rule delete_handler_cases) (use delete(2) delete_holder_inv in \<open>simp_all del: config_inv.simps\<close>)
  next
    case (restart L s ins bundles env)
    then show ?case using config_invD(1,4) by (intro boot_inv)
  qed
qed

end
