(* ===== verification/Config_Properties.thy ===== *)
theory Config_Properties
  imports Config_System
begin

text \<open>
  Properties of the runtime configuration: what an administrator reads is what was written, what is written reaches the jobs, and
  secrets do not appear in listings.
\<close>

section \<open>Reading and writing\<close>


definition sample_boot :: "ConfigEnv list \<Rightarrow> config_state" where
  "sample_boot rows = boot True [] [] [] rows"

definition sample_put :: GlobalEnvPutRequest where
  "sample_put = \<lparr>gp_Value = ''s3cret'', gp_Target = ''steps'', gp_Secret = None\<rparr>"

definition sample_configured :: config_state where
  "sample_configured = snd (snd (putGlobalEnvHandler True 7 ''TOKEN'' (Some sample_put) (sample_boot [])))"

definition sample_restarted_config :: config_state where
  "sample_restarted_config = sample_boot (cs_Rows sample_configured)"

lemma sample_config_reachable:
  "reachable config_init config_step ([OpPut ''TOKEN'' GlobalEnvTargetSteps (''s3cret'', True)], sample_restarted_config)"
proof -
  have "config_init ([], sample_boot [])" by (auto simp: config_init_def sample_boot_def)
  then have r0: "reachable config_init config_step ([], sample_boot [])" by (rule reachable.init)
  have "putGlobalEnvHandler True 7 ''TOKEN'' (Some sample_put) (sample_boot []) =
      (200, Some \<lparr>gr_Key = ''TOKEN'', gr_Value = ''s3cret'', gr_Target = ''steps'', gr_Secret = True\<rparr>, sample_configured)" by code_simp
  note r1 = reachable.step [of config_init config_step, OF r0 config_step.put [OF this]]
  have "ParseGlobalEnvTarget ''steps'' = Some GlobalEnvTargetSteps" "TrimSpace ''TOKEN'' = ''TOKEN''" by code_simp+
  then have "[] @ put_log 200 ''TOKEN'' (Some sample_put) = [OpPut ''TOKEN'' GlobalEnvTargetSteps (''s3cret'', True)]"
    by (simp add: put_log_def sample_put_def)
  from reachable.step [of config_init config_step, OF r1 config_step.restart, unfolded this] show ?thesis unfolding sample_restarted_config_def sample_boot_def .
qed


section \<open>Jobs\<close>

text \<open>
  C32. Configured variables reach the jobs: the environment in the spec of a claimed job is the environment of the stored spec,
  completed by the variables of the table for steps or gates, whichever the job is, and these by the variables for nodes. Variables for the
  server or for the other kind of job never reach it.
\<close>

theorem configured_variables_reach_jobs:
  assumes r: "reachable config_init config_step (L, s)"
    and m: "mutateClaimSpec (claim_config_of (cs_Holder s)) (RawJson (JObj spec)) jobID ty = Inr (JObj doc)"
  shows "spec_env doc k =
    (case spec_env spec k of
       Some v \<Rightarrow> Some v
     | None \<Rightarrow> map_option JStr (case row_of (cs_Rows s) k (if ty = JobTypeMig then GlobalEnvTargetSteps else GlobalEnvTargetGates) of
         Some v \<Rightarrow> Some (fst v)
       | None \<Rightarrow> map_option fst (row_of (cs_Rows s) k GlobalEnvTargetNodes)))"
proof -
  note inv = config_invD [OF config.reachable_inv [OF r]]
  let ?o = "envs_of (assembleHydraOverlay (GetHydraOverlays (cs_Holder s)) (JobType_String ty) (GetGlobalEnvAll (cs_Holder s)) ty)"
  have "envs_of (assembleHydraOverlay (cc_HydraOverlays (claim_config_of (cs_Holder s))) (JobType_String ty)
      (cc_GlobalEnv (claim_config_of (cs_Holder s))) ty) = ?o" by (simp add: claim_config_of_def)
  from claimed_spec_parts [OF m this holder_overlay(1) [OF inv(2)]]
  have "spec_env doc k = (case spec_env spec k of Some v \<Rightarrow> Some v | None \<Rightarrow> map_option JStr (map_of ?o k))" by blast
  then show ?thesis unfolding holder_overlay(2) [OF inv(2)] inv(3) job_target_def .
qed

theorem configured_variables_reach_jobs_witness:
  "\<exists>doc. mutateClaimSpec (claim_config_of (cs_Holder sample_restarted_config)) (RawJson (JObj [])) ''j1'' JobTypeMig = Inr (JObj doc) \<and>
     spec_env doc ''TOKEN'' = Some (JStr ''s3cret'')"
proof -
  let ?doc = "case mutateClaimSpec (claim_config_of (cs_Holder sample_restarted_config)) (RawJson (JObj [])) ''j1'' JobTypeMig of
      Inr (JObj fs) \<Rightarrow> fs | _ \<Rightarrow> []"
  have m: "mutateClaimSpec (claim_config_of (cs_Holder sample_restarted_config)) (RawJson (JObj [])) ''j1'' JobTypeMig = Inr (JObj ?doc)"
    by code_simp
  have "row_of (cs_Rows sample_restarted_config) ''TOKEN'' GlobalEnvTargetSteps = Some (''s3cret'', True)" by code_simp
  with configured_variables_reach_jobs [OF sample_config_reachable m, of "''TOKEN''"] have "spec_env ?doc ''TOKEN'' = Some (JStr ''s3cret'')"
    by (simp add: spec_env_def)
  with m show ?thesis by blast
qed

section \<open>Secrets\<close>

definition hide_secret :: "GlobalEnvVar \<Rightarrow> GlobalEnvVar" where
  "hide_secret v = (if gev_Secret v then v\<lparr>gev_Value := []\<rparr> else v)"

definition public_view :: "(string \<times> GlobalEnvVar list) list \<Rightarrow> (string \<times> GlobalEnvVar list) list" where
  "public_view m = map (\<lambda>(k, es). (k, map hide_secret es)) m"

lemma insort_key_map: "(\<And>x. f (g x) = f x) \<Longrightarrow> insort_key f (g x) (map g xs) = map g (insort_key f x xs)"
  by (induction xs) simp_all

lemma sort_key_map: "(\<And>x. f (g x) = f x) \<Longrightarrow> sort_key f (map g xs) = map g (sort_key f xs)"
  by (induction xs) (simp_all add: insort_key_map)

lemma list_item_hide: "list_item k (hide_secret v) = list_item k v"
  by (simp add: list_item_def hide_secret_def)

lemma list_public:
  "listGlobalEnvHandler h =
     concat (map (\<lambda>k. map (list_item k) (sort_key (\<lambda>v. GlobalEnvTarget_String (gev_Target v)) (the (map_of (public_view (cfh_GlobalEnv h)) k))))
       (sort (map fst (public_view (cfh_GlobalEnv h)))))"
proof -
  let ?m = "cfh_GlobalEnv h" and ?f = "\<lambda>v. GlobalEnvTarget_String (gev_Target v)"
  have f: "?f (hide_secret v) = ?f v" for v by (simp add: hide_secret_def)
  have keys: "map fst (public_view ?m) = map fst ?m" by (simp add: public_view_def case_prod_unfold)
  have "map (list_item k) (sort_key ?f (the (map_of (public_view ?m) k))) = map (list_item k) (sort_key ?f (the (map_of ?m k)))"
    if k: "k \<in> fst ` set ?m" for k
  proof -
    obtain es where es: "map_of ?m k = Some es" using k by (cases "map_of ?m k") (auto simp: map_of_eq_None_iff)
    then have "map_of (public_view ?m) k = Some (map hide_secret es)" by (simp add: public_view_def map_of_map)
    then have "sort_key ?f (the (map_of (public_view ?m) k)) = map hide_secret (sort_key ?f es)" using sort_key_map [of ?f hide_secret es] f by simp
    then show ?thesis by (simp add: es list_item_hide)
  qed
  then have "map (\<lambda>k. map (list_item k) (sort_key ?f (the (map_of ?m k)))) (sort (map fst ?m)) =
      map (\<lambda>k. map (list_item k) (sort_key ?f (the (map_of (public_view ?m) k)))) (sort (map fst ?m))" by simp
  then show ?thesis unfolding listGlobalEnvHandler_def GetGlobalEnvAll_def Let_def keys by (rule arg_cong)
qed

text \<open>
  C33. The listing reveals no secret: two configurations that differ only in the values of secret variables give the same list.
\<close>

theorem list_reveals_no_secret:
  assumes "public_view (cfh_GlobalEnv h1) = public_view (cfh_GlobalEnv h2)"
  shows "listGlobalEnvHandler h1 = listGlobalEnvHandler h2"
  unfolding list_public assms ..

theorem list_reveals_no_secret_witness:
  "listGlobalEnvHandler (cs_Holder sample_restarted_config) =
     listGlobalEnvHandler (SetGlobalEnvVar ''TOKEN'' \<lparr>gev_Value = ''other'', gev_Target = GlobalEnvTargetSteps, gev_Secret = True\<rparr>
       (cs_Holder sample_restarted_config))"
  by (rule list_reveals_no_secret) code_simp

section \<open>Overlapping requests\<close>

text \<open>
  The table and the holder are written one after the other without a common lock. When two requests for one variable overlap, the table
  can keep the value of one and the holder that of the other, until the server is restarted.
\<close>

theorem overlapping_puts_disagree:
  "\<exists>rows1 rows2 s. table_put 1 ''TOKEN'' GlobalEnvTargetSteps (''a'', True) (cs_Rows (sample_boot [])) = Some rows1 \<and>
     table_put 2 ''TOKEN'' GlobalEnvTargetSteps (''b'', True) rows1 = Some rows2 \<and>
     s = put_holder ''TOKEN'' \<lparr>gev_Value = ''a'', gev_Target = GlobalEnvTargetSteps, gev_Secret = True\<rparr>
       (put_holder ''TOKEN'' \<lparr>gev_Value = ''b'', gev_Target = GlobalEnvTargetSteps, gev_Secret = True\<rparr> ((sample_boot [])\<lparr>cs_Rows := rows2\<rparr>)) \<and>
     row_of (cs_Rows s) ''TOKEN'' GlobalEnvTargetSteps = Some (''b'', True) \<and>
     entry_of (cs_Holder s) ''TOKEN'' GlobalEnvTargetSteps = Some (''a'', True)"
proof -
  let ?r1 = "the (table_put 1 ''TOKEN'' GlobalEnvTargetSteps (''a'', True) (cs_Rows (sample_boot [])))"
  let ?r2 = "the (table_put 2 ''TOKEN'' GlobalEnvTargetSteps (''b'', True) ?r1)"
  let ?s = "put_holder ''TOKEN'' \<lparr>gev_Value = ''a'', gev_Target = GlobalEnvTargetSteps, gev_Secret = True\<rparr>
       (put_holder ''TOKEN'' \<lparr>gev_Value = ''b'', gev_Target = GlobalEnvTargetSteps, gev_Secret = True\<rparr> ((sample_boot [])\<lparr>cs_Rows := ?r2\<rparr>))"
  have steps: "table_put 1 ''TOKEN'' GlobalEnvTargetSteps (''a'', True) (cs_Rows (sample_boot [])) = Some ?r1"
    "table_put 2 ''TOKEN'' GlobalEnvTargetSteps (''b'', True) ?r1 = Some ?r2"
    "row_of (cs_Rows ?s) ''TOKEN'' GlobalEnvTargetSteps = Some (''b'', True)"
    "entry_of (cs_Holder ?s) ''TOKEN'' GlobalEnvTargetSteps = Some (''a'', True)" by code_simp+
  show ?thesis by (rule exI [of _ ?r1], rule exI [of _ ?r2], rule exI [of _ ?s]) (intro conjI refl steps)
qed

end
