(* ===== verification/Wire_Properties.thy ===== *)
theory Wire_Properties
  imports Sample_Run
begin

text \<open>
  Properties of the values the server stores, reads back and hands to the nodes: statuses, job metadata,
  stored file entries, the spec of a claimed job; and of the computations on lists of jobs and runs.
\<close>

section \<open>Statuses\<close>

text \<open>
  A status column holds a status and nothing else: reading accepts exactly the wire strings, as bytes or
  text, and gives back the status that was written, for jobs, runs and waves alike.
\<close>

theorem status_columns_roundtrip:
  "(scanDatabaseStatus JobStatus_Validate ''JobStatus'' v = Inr js \<longleftrightarrow> v = SqlBytes (JobStatus_String js) \<or> v = SqlText (JobStatus_String js)) \<and>
   (scanDatabaseStatus RunStatus_Validate ''RunStatus'' v = Inr rs \<longleftrightarrow> v = SqlBytes (RunStatus_String rs) \<or> v = SqlText (RunStatus_String rs)) \<and>
   (scanDatabaseStatus WaveStatus_Validate ''WaveStatus'' v = Inr ws \<longleftrightarrow> v = SqlBytes (WaveStatus_String ws) \<or> v = SqlText (WaveStatus_String ws)) \<and>
   databaseStatusValue JobStatus_Validate (JobStatus_String js) = Some (SqlText (JobStatus_String js)) \<and>
   databaseStatusValue RunStatus_Validate (RunStatus_String rs) = Some (SqlText (RunStatus_String rs)) \<and>
   databaseStatusValue WaveStatus_Validate (WaveStatus_String ws) = Some (SqlText (WaveStatus_String ws))"
  by (simp add: JobStatus_Validate_def [abs_def] RunStatus_Validate_def [abs_def] WaveStatus_Validate_def [abs_def]
      job_status_enum.scan_Inr_iff run_status_enum.scan_Inr_iff wave_status_enum.scan_Inr_iff databaseStatusValue_def)

section \<open>Job metadata\<close>

text \<open>
  Job metadata survives storage: a valid \<^verbatim>\<open>JobMeta\<close> is encoded by \<^verbatim>\<open>MarshalJobMeta\<close> and
  \<^verbatim>\<open>UnmarshalJobMeta\<close> decodes the document to the same value.
\<close>

theorem job_meta_storage_roundtrip:
  assumes "JobMeta_Validate m" "meta_canonical m"
  shows "\<exists>doc. MarshalJobMeta (Some m) = Some doc \<and> UnmarshalJobMeta (RawJson doc) = Some m"
  using assms by (rule job_meta_roundtrip)

theorem job_meta_storage_roundtrip_witness:
  "\<exists>doc. MarshalJobMeta (Some \<lparr>jm_Kind = ''mig'', jm_Gate = None, jm_Build = None, jm_MigStepName = ''upgrade'',
      jm_MigStepIndex = Some 2, jm_GateCycleName = []\<rparr>) = Some doc \<and>
    UnmarshalJobMeta (RawJson doc) = Some \<lparr>jm_Kind = ''mig'', jm_Gate = None, jm_Build = None,
      jm_MigStepName = ''upgrade'', jm_MigStepIndex = Some 2, jm_GateCycleName = []\<rparr>"
  by (rule job_meta_storage_roundtrip) (simp_all add: JobMeta_Validate_def JobKind_Valid_def meta_canonical_def int64_range_def)

section \<open>File entries\<close>

text \<open>
  C35. An accepted file entry cannot leave its directory: the destination has no parent component, is
  already clean, and lies below the root of its kind; in a home directory it is relative.
\<close>

theorem file_destination_confined:
  assumes "ParseStoredEntry kind s = Inr e"
  shows "''..'' \<notin> set (split_on CHR ''/'' (pe_Dst e)) \<and> path_Clean (pe_Dst e) = pe_Dst e \<and> IsHydraShortHash (pe_Hash e) \<and>
    (if kind = HydraFileHome then \<not> HasPrefix (pe_Dst e) ''/'' \<and> pe_Dst e \<notin> {[], ''.''}
     else HasPrefix (pe_Dst e) (''/'' @ HydraFileKind_String kind @ ''/''))"
  using ParseStoredEntry_Inr [OF assms] by (auto simp: ValidateHydraPathSafety_def kind_root_def)

lemma sample_entry:
  "ParseStoredEntry HydraFileIn ''0123abc:/in//conf/./app.yml'' =
     Inr \<lparr>pe_Hash = ''0123abc'', pe_Dst = ''/in/conf/app.yml'', pe_ReadOnly = True\<rparr>"
  by code_simp

theorem file_destination_confined_witness:
  "''..'' \<notin> set (split_on CHR ''/'' ''/in/conf/app.yml'')"
  using file_destination_confined [OF sample_entry] by simp

text \<open>
  Entries are stable under storage: an accepted entry, written as its hash and cleaned destination,
  parses to itself.
\<close>

theorem file_entry_roundtrip:
  assumes "ParseStoredEntry kind s = Inr e" "kind \<noteq> HydraFileHome"
  shows "ParseStoredEntry kind (pe_Hash e @ '':'' @ pe_Dst e) = Inr e"
proof -
  note e = ParseStoredEntry_Inr [OF assms(1)]
  have "pe_ReadOnly e = (kind = HydraFileIn)"
    using assms by (auto simp: ParseStoredEntry_def Let_def res_bind_Inr_iff split: if_splits prod.splits)
  then have "e = \<lparr>pe_Hash = pe_Hash e, pe_Dst = pe_Dst e, pe_ReadOnly = (kind = HydraFileIn)\<rparr>" by simp
  then show ?thesis using stored_entry_roundtrip [OF e(1-3) e(4) [OF assms(2)] assms(2)] by simp
qed

theorem file_entry_roundtrip_witness:
  "ParseStoredEntry HydraFileIn ''0123abc:/in/conf/app.yml'' = Inr \<lparr>pe_Hash = ''0123abc'', pe_Dst = ''/in/conf/app.yml'', pe_ReadOnly = True\<rparr>"
  using file_entry_roundtrip [OF sample_entry] by simp

text \<open>
  The validation of a list of entries accepts exactly the lists whose entries all parse and whose
  destinations, after cleaning, differ.
\<close>

theorem entries_valid_iff:
  "ValidateHydraEntries kind es = None \<longleftrightarrow>
   list_all (\<lambda>e. \<not> isl (ParseStoredEntry kind e)) es \<and> distinct (map (\<lambda>e. pe_Dst (projr (ParseStoredEntry kind e))) es)"
proof -
  have wf: "well_formed_entry kind e \<longleftrightarrow> \<not> isl (ParseStoredEntry kind e)" for e
    by (cases "ParseStoredEntry kind e") (simp_all add: well_formed_entry_def)
  have dst: "entry_dst kind e = pe_Dst (projr (ParseStoredEntry kind e))" if "\<not> isl (ParseStoredEntry kind e)" for e
    using that by (cases "ParseStoredEntry kind e") (simp_all add: entry_dst_def)
  have "map (entry_dst kind) es = map (\<lambda>e. pe_Dst (projr (ParseStoredEntry kind e))) es"
    if "list_all (\<lambda>e. \<not> isl (ParseStoredEntry kind e)) es"
    using that dst by (simp add: list_all_iff)
  then show ?thesis unfolding ValidateHydraEntries_None wf list_all_iff by metis
qed

section \<open>Claimed specs\<close>

text \<open>
  What a node gets as spec is the stored spec with the server's configuration added: the job id is set,
  an environment variable of the spec keeps its value and one that it lacks comes from the configuration for this type of
  job, the steps change for migration jobs only, and every other field is the stored one.
\<close>

theorem claimed_spec_keeps_settings:
  assumes m: "mutateClaimSpec cfg (RawJson (JObj spec)) jobID jobType = Inr (JObj doc)"
    and envs: "envs_of (assembleHydraOverlay (cc_HydraOverlays cfg) (JobType_String jobType) (cc_GlobalEnv cfg) jobType) = overlay"
      "distinct (map fst overlay)"
  shows "map_of doc ''job_id'' = Some (JStr jobID) \<and>
    (\<forall>k. spec_env doc k = (case spec_env spec k of Some v \<Rightarrow> Some v | None \<Rightarrow> map_option JStr (map_of overlay k))) \<and>
    (jobType \<noteq> JobTypeMig \<longrightarrow> map_of doc ''steps'' = map_of spec ''steps'') \<and>
    (\<forall>k. k \<notin> {''job_id'', ''envs'', ''steps'', ''bundle_map''} \<longrightarrow> map_of doc k = map_of spec k)"
  using assms by (rule claimed_spec_parts)

definition sample_config :: claim_config where
  "sample_config = \<lparr>cc_GlobalEnv = [(''TOKEN'', [\<lparr>gev_Value = ''g'', gev_Target = GlobalEnvTargetNodes, gev_Secret = True\<rparr>])],
     cc_HydraOverlays = [(''mig'', \<lparr>hj_Envs = Some [(''MODE'', ''overlay'')], hj_In = [''0123abc:/in/ca.pem''], hj_Out = []\<rparr>)], cc_BundleMap = []\<rparr>"

definition sample_spec :: "(string \<times> json) list" where
  "sample_spec = [(''envs'', JObj [(''MODE'', JStr ''own'')]), (''steps'', JArr [JObj [(''in'', JArr [JStr ''0123abd:/in/app.yml''])]])]"

definition sample_spec_out :: "(string \<times> json) list" where
  "sample_spec_out = (case mutateClaimSpec sample_config (RawJson (JObj sample_spec)) ''j1'' JobTypeMig of Inr (JObj fs) \<Rightarrow> fs | _ \<Rightarrow> [])"

lemma sample_spec_mutated: "mutateClaimSpec sample_config (RawJson (JObj sample_spec)) ''j1'' JobTypeMig = Inr (JObj sample_spec_out)"
  by code_simp

lemma sample_overlay_envs:
  "envs_of (assembleHydraOverlay (cc_HydraOverlays sample_config) (JobType_String JobTypeMig) (cc_GlobalEnv sample_config) JobTypeMig) =
     [(''MODE'', ''overlay''), (''TOKEN'', ''g'')]"
  by code_simp

theorem claimed_spec_keeps_settings_witness:
  "spec_env sample_spec_out ''MODE'' = Some (JStr ''own'') \<and> spec_env sample_spec_out ''TOKEN'' = Some (JStr ''g'')"
  using claimed_spec_keeps_settings [OF sample_spec_mutated sample_overlay_envs] by (simp add: spec_env_def sample_spec_def)

text \<open>
  File entries of the configuration never replace a file of the spec: in every block the spec's entries
  stay, in order, and of the configured ones exactly those with a new destination are appended.
\<close>

theorem configured_files_are_appended:
  assumes "mergeRecordsByDstBlock kind overlay block = Inr block'" "overlay \<noteq> []"
    and "map_of block (HydraFileKind_String kind) = Some (JArr raw)"
  shows "\<exists>added. map_of block' (HydraFileKind_String kind) = Some (JArr (raw @ map JStr added)) \<and>
    distinct (map (entry_dst kind) added) \<and> set added \<subseteq> set overlay \<and>
    entry_dst kind ` set added \<inter> entry_dst kind ` set (string_entries raw) = {} \<and>
    entry_dst kind ` set overlay \<subseteq> entry_dst kind ` set (string_entries raw @ added)"
  using mergeRecords_Inr [OF assms] by (metis (no_types, lifting) image_subsetI)

theorem configured_files_are_appended_witness:
  "\<exists>added. map_of [(''in'', JArr [JStr ''0123abd:/in/app.yml'', JStr ''0123abc:/in/ca.pem''])] ''in'' =
     Some (JArr ([JStr ''0123abd:/in/app.yml''] @ map JStr added)) \<and> set added \<subseteq> {''0123abc:/in/ca.pem'', ''0123abe:/in/./app.yml''}"
proof -
  have m: "mergeRecordsByDstBlock HydraFileIn [''0123abc:/in/ca.pem'', ''0123abe:/in/./app.yml''] [(''in'', JArr [JStr ''0123abd:/in/app.yml''])] =
      Inr [(''in'', JArr [JStr ''0123abd:/in/app.yml'', JStr ''0123abc:/in/ca.pem''])]" by code_simp
  have raw: "map_of [(''in'', JArr [JStr ''0123abd:/in/app.yml''])] (HydraFileKind_String HydraFileIn) = Some (JArr [JStr ''0123abd:/in/app.yml''])"
    by simp
  show ?thesis using configured_files_are_appended [OF m list.distinct(2) raw]
    unfolding HydraFileKind_String.simps list.set(2) list.set(1) by (elim exE conjE, intro exI conjI)
qed

section \<open>Job chains and waves\<close>

text \<open>
  The ordering of jobs is exact on chains: from whatever order the rows of a chain are read,
  \<^verbatim>\<open>jobchain.Order\<close> gives back the chain.
\<close>

theorem order_restores_chain:
  assumes "is_chain idOf nextOf c" "distinct (map idOf c)" "list_all (\<lambda>x. \<not> IsEmpty (idOf x)) c" "mset items = mset c"
  shows "Order idOf nextOf items = c"
  using assms by (intro Order_chain) (simp_all add: list_all_iff)

theorem order_restores_chain_witness:
  "Order job_ID job_NextID [sample_job 1, sample_job 0] = [sample_job 0, sample_job 1]"
proof (rule order_restores_chain)
  show "is_chain job_ID job_NextID [sample_job 0, sample_job 1]" by code_simp
  show "distinct (map job_ID [sample_job 0, sample_job 1])" by code_simp
  show "list_all (\<lambda>x. \<not> IsEmpty (job_ID x)) [sample_job 0, sample_job 1]" by code_simp
qed simp

text \<open>
  C36. The ordering loses and repeats nothing on any table of jobs with distinct ids, even when the links
  branch or form a cycle: the walk over them ends, and the result is a permutation of the input that does not depend on
  the order of the rows.
\<close>

theorem order_is_permutation:
  assumes "distinct (map idOf items)" "mset items' = mset items"
  shows "mset (Order idOf nextOf items) = mset items \<and> Order idOf nextOf items' = Order idOf nextOf items"
  using assms Order_perm [of idOf items nextOf] Order_cong [of idOf items items' nextOf] by simp

theorem order_is_permutation_witness:
  "mset (Order fst snd [(''a'', Some ''b''), (''b'', Some ''a'')]) = mset [(''a'', Some ''b''), (''b'', Some ''a'')]"
  using order_is_permutation [of fst "[(''a'', Some ''b''), (''b'', Some ''a'')]" "[(''a'', Some ''b''), (''b'', Some ''a'')]" snd] by simp

text \<open>
  The decision whether a wave is finished, made on 32-bit counters grouped by status, is the decision
  on the runs themselves: finished when there is a run and all are terminal; failed, cancelled and succeeded in this order
  of precedence.
\<close>

theorem wave_decision_counts_runs:
  assumes "group_by_status ss rows" "length ss < 2 ^ 31"
  shows "EvaluateWaveCompletionFromRunCounts rows =
    (if ss = [] \<or> \<not> list_all IsTerminalRunStatus ss then \<lparr>ShouldFinish = False, RunState = None\<rparr>
     else \<lparr>ShouldFinish = True,
           RunState = Some (if RunStatusFail \<in> set ss then RunStateFailed
             else if RunStatusCancelled \<in> set ss then RunStateCancelled else RunStateSucceeded)\<rparr>)"
  unfolding EvaluateWaveCompletion_runs [OF assms] by (simp add: list_all_iff)

theorem wave_decision_counts_runs_witness:
  "EvaluateWaveCompletionFromRunCounts [\<lparr>row_Status = RunStatusFail, row_Count = 1\<rparr>, \<lparr>row_Status = RunStatusSuccess, row_Count = 2\<rparr>] =
   \<lparr>ShouldFinish = True, RunState = Some RunStateFailed\<rparr>"
  using wave_decision_counts_runs [of "[RunStatusSuccess, RunStatusFail, RunStatusSuccess]"
      "[\<lparr>row_Status = RunStatusFail, row_Count = 1\<rparr>, \<lparr>row_Status = RunStatusSuccess, row_Count = 2\<rparr>]"]
  by (simp add: group_by_status_def IsTerminalRunStatus_iff insert_commute)

end
