(* ===== verification/Gate_Images.thy ===== *)
theory Gate_Images
  imports Mig_Spec "HOL-Library.Multiset" "HOL-Library.List_Lexorder" "HOL-Library.Char_ord"
begin

text \<open>
  The images of build gates: the template expansion of \<^verbatim>\<open>internal/workflow/contracts/image_template.go\<close> and the resolver of
  \<^verbatim>\<open>internal/workflow/step/build_gate_image_resolver.go\<close>. The environment of the process is the argument \<open>lookup\<close>, the catalog
  file what reading and decoding it gave.
\<close>

section \<open>Templates\<close>

text \<open>
  \<^verbatim>\<open>ReplaceAllStringFunc\<close>: the text as literal characters and matches. \<open>mt\<close> is the regular expression, anchored at the head of
  the text: it returns the submatch and the text behind the match, which is shorter.
\<close>

function split_template :: "(string \<Rightarrow> ('m \<times> string) option) \<Rightarrow> string \<Rightarrow> (char + 'm) list" where
  "split_template mt [] = []"
| "split_template mt (c # s) =
     (case mt (c # s) of
        Some (m, rest) \<Rightarrow> if length rest \<le> length s then Inr m # split_template mt rest else Inl c # split_template mt s
      | None \<Rightarrow> Inl c # split_template mt s)"
  by pat_completeness auto
termination by (relation "measure (\<lambda>(_, s). length s)") auto

text \<open>The expression \<^verbatim>\<open>\$\{stack\.([^}]+)\}\<close>.\<close>

definition stack_placeholder :: "string \<Rightarrow> (string \<times> string) option" where
  "stack_placeholder s =
     (if take 8 s = ''${stack.'' then
        (let key = takeWhile (\<lambda>c. c \<noteq> CHR ''}'') (drop 8 s); rest = dropWhile (\<lambda>c. c \<noteq> CHR ''}'') (drop 8 s)
         in if key \<noteq> [] \<and> rest \<noteq> [] then Some (key, tl rest) else None)
      else None)"

definition name_start :: "char \<Rightarrow> bool" where
  "name_start c \<longleftrightarrow> (CHR ''A'' \<le> c \<and> c \<le> CHR ''Z'') \<or> (CHR ''a'' \<le> c \<and> c \<le> CHR ''z'') \<or> c = CHR ''_''"

definition name_char :: "char \<Rightarrow> bool" where
  "name_char c \<longleftrightarrow> name_start c \<or> (CHR ''0'' \<le> c \<and> c \<le> CHR ''9'')"

text \<open>A name at the head of a text, and the text behind it.\<close>

definition take_name :: "string \<Rightarrow> (string \<times> string) option" where
  "take_name s =
     (case s of [] \<Rightarrow> None
      | c # _ \<Rightarrow> if name_start c then Some (takeWhile name_char s, dropWhile name_char s) else None)"

text \<open>The expression \<^verbatim>\<open>\$\{([A-Za-z_][A-Za-z0-9_]*)\}|\$([A-Za-z_][A-Za-z0-9_]*)\<close>.\<close>

definition env_placeholder :: "string \<Rightarrow> (string \<times> string) option" where
  "env_placeholder s =
     (if take 2 s = ''${'' then
        (case take_name (drop 2 s) of
           Some (name, c # rest) \<Rightarrow> if c = CHR ''}'' then Some (name, rest) else None
         | _ \<Rightarrow> None)
      else if take 1 s = ''$'' then take_name (drop 1 s)
      else None)"

definition joinSortedKeys :: "string list \<Rightarrow> string" where
  "joinSortedKeys keys = (case sort (remdups keys) of [] \<Rightarrow> [] | k # ks \<Rightarrow> k @ concat (map (\<lambda>k. '', '' @ k) ks))"

text \<open>The value of a stack key; \<open>None\<close> is an unknown key.\<close>

definition stack_value :: "StackExpectation option \<Rightarrow> string \<Rightarrow> string option" where
  "stack_value stack key =
     (let field = (\<lambda>f. case stack of None \<Rightarrow> [] | Some e \<Rightarrow> f e) in
      if key = ''language'' then Some (field se_Language)
      else if key = ''release'' then Some (field se_Release)
      else if key = ''tool'' then Some (field se_Tool)
      else None)"

definition expand_stack :: "StackExpectation option \<Rightarrow> string \<Rightarrow> string + string" where
  "expand_stack stack img =
     (let toks = split_template stack_placeholder img;
          keys = map TrimSpace (List.map_filter (\<lambda>x. case x of Inr k \<Rightarrow> Some k | Inl _ \<Rightarrow> None) toks);
          unknown = filter (\<lambda>k. stack_value stack k = None) keys;
          missing = filter (\<lambda>k. case stack_value stack k of Some v \<Rightarrow> TrimSpace v = [] | None \<Rightarrow> False) keys
      in if unknown \<noteq> [] then Inl (''unknown stack placeholders: '' @ joinSortedKeys (map (\<lambda>k. ''stack.'' @ k) unknown))
         else if missing \<noteq> [] then Inl (''unresolved stack placeholders: '' @ joinSortedKeys (map (\<lambda>k. ''stack.'' @ k) missing))
         else Inr (concat (map (\<lambda>x. case x of Inl c \<Rightarrow> [c] | Inr k \<Rightarrow> the (stack_value stack (TrimSpace k))) toks)))"

definition expand_env :: "(string \<Rightarrow> string option) \<Rightarrow> string \<Rightarrow> string + string" where
  "expand_env lookup img =
     (let toks = split_template env_placeholder img;
          missing = filter (\<lambda>n. lookup n = None) (List.map_filter (\<lambda>x. case x of Inr n \<Rightarrow> Some n | Inl _ \<Rightarrow> None) toks)
      in if missing \<noteq> [] then Inl (''unresolved environment variables: '' @ joinSortedKeys missing)
         else Inr (concat (map (\<lambda>x. case x of Inl c \<Rightarrow> [c] | Inr n \<Rightarrow> the (lookup n)) toks)))"

definition ExpandImageTemplate :: "(string \<Rightarrow> string option) \<Rightarrow> string \<Rightarrow> StackExpectation option \<Rightarrow> string + string" where
  "ExpandImageTemplate lookup img stack =
     (case expand_stack (NormalizeStackExpectation stack) img of
        Inl e \<Rightarrow> Inl e
      | Inr s \<Rightarrow> expand_env lookup s)"

section \<open>The catalog\<close>

record rawCatalogEntry =
  rce_Lang :: string
  rce_Tool :: string
  rce_Image :: string
  rce_Release :: "json option"

datatype resolver_error =
    CatalogMissing
  | CatalogUnreadable
  | CatalogInvalid nat
  | TemplateError nat string
  | RulesInvalid rule_error
  | NoRules
  | NoRuleMatches
  | ResolveTemplate string

text \<open>\<^verbatim>\<open>ParseReleaseValue\<close> accepts strings and numbers; \<^verbatim>\<open>null\<close> is no release.\<close>

definition toRule :: "nat \<Rightarrow> rawCatalogEntry \<Rightarrow> resolver_error + BuildGateImageRule" where
  "toRule i e =
     (if TrimSpace (rce_Lang e) = [] then Inl (CatalogInvalid i)
      else case unmarshalReleaseJSON (rce_Release e) of
        None \<Rightarrow> Inl (CatalogInvalid i)
      | Some release \<Rightarrow>
          if TrimSpace (rce_Image e) = [] then Inl (CatalogInvalid i)
          else Inr \<lparr>bgr_Stack = \<lparr>se_Language = TrimSpace (rce_Lang e), se_Tool = TrimSpace (rce_Tool e), se_Release = TrimSpace release\<rparr>,
                    bgr_Image = TrimSpace (rce_Image e)\<rparr>)"

fun toRules :: "nat \<Rightarrow> rawCatalogEntry list \<Rightarrow> resolver_error + BuildGateImageRule list" where
  "toRules i [] = Inr []"
| "toRules i (e # es) = res_bind (toRule i e) (\<lambda>r. res_bind (toRules (i + 1) es) (\<lambda>rs. Inr (r # rs)))"

datatype catalog_file = FileMissing | FileUnreadable | FileGates "rawCatalogEntry list"

definition loadCatalogFile :: "catalog_file \<Rightarrow> bool \<Rightarrow> resolver_error + BuildGateImageRule list" where
  "loadCatalogFile file required =
     (case file of
        FileMissing \<Rightarrow> if required then Inl CatalogMissing else Inr []
      | FileUnreadable \<Rightarrow> Inl CatalogUnreadable
      | FileGates entries \<Rightarrow> toRules 0 entries)"

section \<open>The resolver\<close>

definition Contains :: "string \<Rightarrow> string \<Rightarrow> bool" where
  "Contains s sub \<longleftrightarrow> list_ex (\<lambda>i. take (length sub) (drop i s) = sub) [0..<Suc (length s)]"

definition normalize_rule :: "(string \<Rightarrow> string option) \<Rightarrow> nat \<Rightarrow> BuildGateImageRule \<Rightarrow> resolver_error + BuildGateImageRule" where
  "normalize_rule lookup i r =
     (case ExpandImageTemplate lookup (bgr_Image r) (Some (bgr_Stack r)) of
        Inl e \<Rightarrow> if Contains e ''unresolved stack placeholders:'' then Inr (r\<lparr>bgr_Image := TrimSpace (bgr_Image r)\<rparr>)
               else Inl (TemplateError i e)
      | Inr expanded \<Rightarrow> Inr (r\<lparr>bgr_Image := TrimSpace expanded\<rparr>))"

fun normalizeImageRules ::
  "(string \<Rightarrow> string option) \<Rightarrow> nat \<Rightarrow> BuildGateImageRule list \<Rightarrow> resolver_error + BuildGateImageRule list" where
  "normalizeImageRules lookup i [] = Inr []"
| "normalizeImageRules lookup i (r # rs) =
     res_bind (normalize_rule lookup i r) (\<lambda>r'. res_bind (normalizeImageRules lookup (i + 1) rs) (\<lambda>rs'. Inr (r' # rs')))"

text \<open>The rules of one source; the source without rules is skipped.\<close>

definition source_rules :: "(string \<Rightarrow> string option) \<Rightarrow> BuildGateImageRule list \<Rightarrow> resolver_error + BuildGateImageRule list" where
  "source_rules lookup rules =
     (if rules = [] then Inr []
      else res_bind (normalizeImageRules lookup 0 rules) (\<lambda>normalized.
        case BuildGateImageMapping_Validate normalized of
          Some e \<Rightarrow> Inl (RulesInvalid e)
        | None \<Rightarrow> Inr normalized))"

text \<open>The catalog is \<open>None\<close> when no path is configured.\<close>

definition newImageResolver ::
  "(string \<Rightarrow> string option) \<Rightarrow> catalog_file option \<Rightarrow> BuildGateImageRule list \<Rightarrow> bool \<Rightarrow> resolver_error + BuildGateImageRule list" where
  "newImageResolver lookup catalog migOverride required =
     res_bind (case catalog of None \<Rightarrow> Inr [] | Some file \<Rightarrow> res_bind (loadCatalogFile file required) (source_rules lookup)) (\<lambda>fileRules.
     res_bind (source_rules lookup migOverride) (\<lambda>overrides. Inr (fileRules @ overrides)))"

definition maxSpecificity :: "BuildGateImageRule list \<Rightarrow> nat" where
  "maxSpecificity matches = fold (\<lambda>m acc. if Specificity m > acc then Specificity m else acc) matches 0"

definition imageResolver_Resolve ::
  "(string \<Rightarrow> string option) \<Rightarrow> BuildGateImageRule list \<Rightarrow> StackExpectation \<Rightarrow> resolver_error + string" where
  "imageResolver_Resolve lookup rules exp =
     (if rules = [] then Inl NoRules
      else let matches = filter (\<lambda>r. Matches r exp) rules in
        if matches = [] then Inl NoRuleMatches
        else case List.find (\<lambda>m. Specificity m = maxSpecificity matches) (rev matches) of
          None \<Rightarrow> Inl NoRuleMatches
        | Some m \<Rightarrow> (case ExpandImageTemplate lookup (bgr_Image m) (Some exp) of
            Inl e \<Rightarrow> Inl (ResolveTemplate e)
          | Inr expanded \<Rightarrow> Inr (TrimSpace expanded)))"

definition resolveImageForExpectation ::
  "(string \<Rightarrow> string option) \<Rightarrow> catalog_file option \<Rightarrow> BuildGateImageRule list \<Rightarrow> StackExpectation \<Rightarrow> bool \<Rightarrow> resolver_error + string" where
  "resolveImageForExpectation lookup catalog overrides exp required =
     res_bind (newImageResolver lookup catalog overrides required) (\<lambda>rules. imageResolver_Resolve lookup rules exp)"

definition resolveExpectedRuntimeImageForStackGate ::
  "(string \<Rightarrow> string option) \<Rightarrow> catalog_file option \<Rightarrow> BuildGateImageRule list \<Rightarrow> StackExpectation option \<Rightarrow> resolver_error + string" where
  "resolveExpectedRuntimeImageForStackGate lookup catalog overrides expect =
     (case expect of
        None \<Rightarrow> Inl NoRules
      | Some e \<Rightarrow> if TrimSpace (se_Release e) = [] then Inl NoRules
                else resolveImageForExpectation lookup catalog overrides e True)"

section \<open>Selection\<close>

lemma maxSpecificity_Max: "maxSpecificity ms = Max (insert 0 (Specificity ` set ms))"
proof -
  have "(\<lambda>m acc. if Specificity m > acc then Specificity m else acc) = (\<lambda>m. max (Specificity m))" by (auto simp: fun_eq_iff max_def)
  then have "maxSpecificity ms = fold max (map Specificity ms) 0" by (simp add: maxSpecificity_def fold_map comp_def)
  also have "\<dots> = Max (set (0 # map Specificity ms))" by (rule Max.set_eq_fold [symmetric])
  finally show ?thesis by simp
qed

lemma Specificity_pos: "0 < Specificity r"
  by (simp add: Specificity_def)

text \<open>The candidates: the matching rules of the highest specificity.\<close>

definition candidates :: "StackExpectation \<Rightarrow> nat \<Rightarrow> BuildGateImageRule list \<Rightarrow> BuildGateImageRule list" where
  "candidates exp k rules = filter (\<lambda>r. Matches r exp \<and> Specificity r = k) rules"

definition best :: "StackExpectation \<Rightarrow> BuildGateImageRule list \<Rightarrow> nat" where
  "best exp rules = maxSpecificity (filter (\<lambda>r. Matches r exp) rules)"

lemma best_candidate:
  assumes "r \<in> set rules" "Matches r exp"
  shows "Specificity r \<le> best exp rules" "candidates exp (best exp rules) rules \<noteq> []"
proof -
  let ?S = "Specificity ` {r \<in> set rules. Matches r exp}"
  have b: "best exp rules = Max (insert 0 ?S)" by (simp add: best_def maxSpecificity_Max)
  show "Specificity r \<le> best exp rules" unfolding b using assms by simp
  have "best exp rules \<in> insert 0 ?S" unfolding b by (rule Max_in) auto
  moreover have "best exp rules \<noteq> 0" using \<open>Specificity r \<le> best exp rules\<close> Specificity_pos [of r] by simp
  ultimately obtain r' where "r' \<in> set rules" "Matches r' exp" "Specificity r' = best exp rules" by auto
  then show "candidates exp (best exp rules) rules \<noteq> []" by (auto simp: candidates_def filter_empty_conv)
qed

lemma Resolve_candidate:
  "imageResolver_Resolve lookup rules exp =
     (if rules = [] then Inl NoRules
      else if filter (\<lambda>r. Matches r exp) rules = [] then Inl NoRuleMatches
      else case ExpandImageTemplate lookup (bgr_Image (last (candidates exp (best exp rules) rules))) (Some exp) of
          Inl e \<Rightarrow> Inl (ResolveTemplate e) | Inr expanded \<Rightarrow> Inr (TrimSpace expanded))"
proof (cases "filter (\<lambda>r. Matches r exp) rules = []")
  case False
  let ?ms = "filter (\<lambda>r. Matches r exp) rules"
  obtain r where r: "r \<in> set rules" "Matches r exp" using False by (auto simp: filter_empty_conv)
  have find: "List.find P (rev xs) = (if filter P xs = [] then None else Some (last (filter P xs)))" for P and xs :: "BuildGateImageRule list"
    by (induction xs rule: rev_induct) auto
  have c: "filter (\<lambda>m. Specificity m = maxSpecificity ?ms) ?ms = candidates exp (best exp rules) rules"
    by (simp add: candidates_def best_def conj_commute)
  show ?thesis using False best_candidate(2) [OF r] unfolding imageResolver_Resolve_def Let_def find c by simp
qed (simp add: imageResolver_Resolve_def)

text \<open>In one validated source at most one rule is a candidate.\<close>

lemma source_candidates:
  assumes "source_rules lookup rules = Inr rs"
  shows "length (candidates exp k rs) \<le> 1" "\<forall>r \<in> set rs. TrimSpace (bgr_Image r) \<noteq> []"
proof -
  have rs: "rs = [] \<or> BuildGateImageMapping_Validate rs = None"
    using assms by (auto simp: source_rules_def res_bind_Inr_iff split: if_splits option.splits)
  then have d: "distinct (map SelectorKey rs)" and "\<forall>r \<in> set rs. TrimSpace (bgr_Image r) \<noteq> []"
    by (auto simp: BuildGateImageMapping_Validate_def validate_rules_None)
  then show "\<forall>r \<in> set rs. TrimSpace (bgr_Image r) \<noteq> []" by blast
  have dc: "distinct (map SelectorKey (candidates exp k rs))" using d unfolding candidates_def by (rule distinct_map_filter)
  have False if c: "candidates exp k rs = x # y # zs" for x y zs
  proof -
    have "x \<in> set (candidates exp k rs)" "y \<in> set (candidates exp k rs)" by (simp_all add: c)
    then have "SelectorKey x = SelectorKey y" by (intro same_selector) (auto simp: candidates_def)
    then show False using dc by (simp add: c)
  qed
  then show "length (candidates exp k rs) \<le> 1" by (cases "candidates exp k rs"; cases "tl (candidates exp k rs)") auto
qed

lemma short_mset_eq: "mset xs = mset ys \<Longrightarrow> length xs \<le> 1 \<Longrightarrow> xs = ys"
  by (cases xs) (auto dest: mset_eq_length)

lemma candidates_permuted:
  "mset rs' = mset rs \<Longrightarrow> length (candidates exp k rs) \<le> 1 \<Longrightarrow> candidates exp k rs' = candidates exp k rs"
  by (rule short_mset_eq [symmetric]) (simp_all add: candidates_def)

end
