(* ===== verification/Image_Properties.thy ===== *)
theory Image_Properties
  imports Gate_Images
begin

text \<open>
  The choice of the image of a build gate: it does not depend on the order in which a catalog or a specification lists its rules, the most
  specific matching rule decides, and between rules of one specificity those of the specification win over the catalog.
\<close>

section \<open>Rules and their order\<close>

lemma toRule_index: "toRule i e = Inr r \<longleftrightarrow> toRule 0 e = Inr r"
  by (auto simp: toRule_def split: if_splits option.splits)

lemma normalize_rule_index: "normalize_rule lookup i r = Inr q \<longleftrightarrow> normalize_rule lookup 0 r = Inr q"
  by (auto simp: normalize_rule_def split: sum.splits if_splits)

lemma toRules_Inr:
  "toRules i es = Inr rs \<longleftrightarrow> (\<forall>e \<in> set es. \<exists>r. toRule 0 e = Inr r) \<and> rs = map (projr \<circ> toRule 0) es"
proof (induction es arbitrary: i rs)
  case (Cons e es)
  show ?case using toRule_index [of i e] by (auto simp: res_bind_Inr_iff Cons)
qed auto

lemma normalizeImageRules_Inr:
  "normalizeImageRules lookup i rs = Inr ns \<longleftrightarrow>
   (\<forall>r \<in> set rs. \<exists>q. normalize_rule lookup 0 r = Inr q) \<and> ns = map (projr \<circ> normalize_rule lookup 0) rs"
proof (induction rs arbitrary: i ns)
  case (Cons r rs)
  show ?case using normalize_rule_index [of lookup i r] by (auto simp: res_bind_Inr_iff Cons)
qed auto

lemma toRules_permuted:
  assumes "mset es' = mset es" "toRules 0 es = Inr rs"
  shows "\<exists>rs'. toRules 0 es' = Inr rs' \<and> mset rs' = mset rs"
  using assms mset_eq_setD [OF assms(1)] by (auto simp: toRules_Inr)

lemma source_rules_permuted:
  assumes "mset rules' = mset rules" "source_rules lookup rules = Inr rs"
  shows "\<exists>rs'. source_rules lookup rules' = Inr rs' \<and> mset rs' = mset rs"
proof (cases "rules = []")
  case False
  let ?n = "map (projr \<circ> normalize_rule lookup 0)"
  have n: "normalizeImageRules lookup 0 rules = Inr rs" and v: "BuildGateImageMapping_Validate rs = None"
    using assms(2) False by (auto simp: source_rules_def res_bind_Inr_iff split: option.splits)
  have rs: "rs = ?n rules" using n by (simp add: normalizeImageRules_Inr)
  have m: "mset (?n rules') = mset rs" using assms(1) by (simp add: rs)
  have n': "normalizeImageRules lookup 0 rules' = Inr (?n rules')"
    using n mset_eq_setD [OF assms(1)] by (simp add: normalizeImageRules_Inr)
  have "distinct (map SelectorKey (?n rules')) \<longleftrightarrow> distinct (map SelectorKey rs)"
    using m by (metis mset_eq_imp_distinct_iff mset_map)
  then have v': "BuildGateImageMapping_Validate (?n rules') = None"
    using v mset_eq_setD [OF m] by (simp add: BuildGateImageMapping_Validate_def validate_rules_None del: set_map)
  have "rules' \<noteq> []" using assms(1) False by auto
  then show ?thesis using n' v' m by (simp add: source_rules_def)
qed (use assms in \<open>simp add: source_rules_def\<close>)

lemma permuted_choice:
  assumes "source_rules lookup fileIn = Inr fs" "source_rules lookup over = Inr os" "mset fs' = mset fs" "mset os' = mset os"
  shows "imageResolver_Resolve lookup (fs' @ os') exp = imageResolver_Resolve lookup (fs @ os) exp"
proof -
  have m: "mset (filter (\<lambda>r. Matches r exp) (fs' @ os')) = mset (filter (\<lambda>r. Matches r exp) (fs @ os))" using assms(3,4) by simp
  have "best exp (fs' @ os') = best exp (fs @ os)" using mset_eq_setD [OF m] by (simp only: best_def maxSpecificity_Max)
  moreover have "candidates exp k (fs' @ os') = candidates exp k (fs @ os)" for k
    using candidates_permuted [OF assms(3) source_candidates(1) [OF assms(1)]] candidates_permuted [OF assms(4) source_candidates(1) [OF assms(2)]]
    by (simp add: candidates_def)
  moreover have "fs' @ os' = [] \<longleftrightarrow> fs @ os = []" using assms(3,4) by auto
  moreover have "filter (\<lambda>r. Matches r exp) (fs' @ os') = [] \<longleftrightarrow> filter (\<lambda>r. Matches r exp) (fs @ os) = []" using m by (metis mset_zero_iff)
  ultimately show ?thesis unfolding Resolve_candidate by simp
qed

section \<open>Sample rules\<close>

definition sample_gate_stack :: "string \<Rightarrow> string \<Rightarrow> StackExpectation" where
  "sample_gate_stack tool release = \<lparr>se_Language = ''java'', se_Tool = tool, se_Release = release\<rparr>"

definition sample_gates :: "rawCatalogEntry list" where
  "sample_gates = [\<lparr>rce_Lang = ''java'', rce_Tool = [], rce_Image = ''jdk:${stack.release}'', rce_Release = None\<rparr>,
     \<lparr>rce_Lang = ''java'', rce_Tool = ''maven'', rce_Image = ''mvn'', rce_Release = Some (JStr ''17'')\<rparr>]"

definition sample_overrides :: "BuildGateImageRule list" where
  "sample_overrides = [\<lparr>bgr_Stack = sample_gate_stack ''maven'' ''17'', bgr_Image = ''own-mvn''\<rparr>, \<lparr>bgr_Stack = sample_gate_stack ''gradle'' [], bgr_Image = ''own-gradle''\<rparr>]"

definition sample_file_rules :: "BuildGateImageRule list" where
  "sample_file_rules = [\<lparr>bgr_Stack = sample_gate_stack [] [], bgr_Image = ''jdk:${stack.release}''\<rparr>, \<lparr>bgr_Stack = sample_gate_stack ''maven'' ''17'', bgr_Image = ''mvn''\<rparr>]"

lemma sample_sources:
  "toRules 0 sample_gates = Inr sample_file_rules" "source_rules (\<lambda>_. None) sample_file_rules = Inr sample_file_rules"
  "source_rules (\<lambda>_. None) sample_overrides = Inr sample_overrides"
  by code_simp+

section \<open>The choice\<close>

text \<open>
  C34. When the rules of the catalog and of the specification are accepted, the image chosen for a stack, or the error, does not depend on
  the order in which either lists them.
\<close>

theorem image_choice_order_irrelevant:
  assumes "newImageResolver lookup (Some (FileGates es)) overrides req = Inr rules" "mset es' = mset es" "mset overrides' = mset overrides"
  shows "resolveImageForExpectation lookup (Some (FileGates es')) overrides' exp req =
    resolveImageForExpectation lookup (Some (FileGates es)) overrides exp req"
proof -
  obtain rs fs os where t: "toRules 0 es = Inr rs" and f: "source_rules lookup rs = Inr fs" and ov: "source_rules lookup overrides = Inr os"
    using assms(1) by (auto simp: newImageResolver_def loadCatalogFile_def res_bind_Inr_iff)
  obtain rs' where t': "toRules 0 es' = Inr rs'" "mset rs' = mset rs" using toRules_permuted [OF assms(2) t] by blast
  obtain fs' where f': "source_rules lookup rs' = Inr fs'" "mset fs' = mset fs" using source_rules_permuted [OF t'(2) f] by blast
  obtain os' where ov': "source_rules lookup overrides' = Inr os'" "mset os' = mset os" using source_rules_permuted [OF assms(3) ov] by blast
  show ?thesis using permuted_choice [OF f ov f'(2) ov'(2)]
    by (simp add: resolveImageForExpectation_def newImageResolver_def loadCatalogFile_def t t' f f' ov ov')
qed

theorem image_choice_order_irrelevant_witness:
  "resolveImageForExpectation (\<lambda>_. None) (Some (FileGates (rev sample_gates))) (rev sample_overrides) (sample_gate_stack ''ant'' ''21'') True = Inr ''jdk:21''"
proof -
  have "newImageResolver (\<lambda>_. None) (Some (FileGates sample_gates)) sample_overrides True = Inr (sample_file_rules @ sample_overrides)"
    by (simp add: newImageResolver_def loadCatalogFile_def sample_sources)
  note same = image_choice_order_irrelevant [OF this, of "rev sample_gates" "rev sample_overrides"]
  have "resolveImageForExpectation (\<lambda>_. None) (Some (FileGates sample_gates)) sample_overrides (sample_gate_stack ''ant'' ''21'') True = Inr ''jdk:21''"
    by code_simp
  then show ?thesis using same by simp
qed

text \<open>
  The image of a gate comes from a matching rule that no other matching rule beats in specificity; the rule is one of the specification
  whenever the specification has a matching rule of that specificity.
\<close>

theorem most_specific_image_wins:
  assumes "source_rules lookup fileIn = Inr fs" "source_rules lookup overrides = Inr os"
    and "imageResolver_Resolve lookup (fs @ os) exp = Inr img"
  shows "\<exists>r \<in> set (fs @ os). Matches r exp \<and> (\<forall>q \<in> set (fs @ os). Matches q exp \<longrightarrow> Specificity q \<le> Specificity r) \<and>
    (\<forall>q \<in> set os. Matches q exp \<and> Specificity q = Specificity r \<longrightarrow> r \<in> set os) \<and>
    (\<exists>e. ExpandImageTemplate lookup (bgr_Image r) (Some exp) = Inr e \<and> img = TrimSpace e)"
proof -
  define c where "c = candidates exp (best exp (fs @ os)) (fs @ os)"
  obtain q0 where q0: "q0 \<in> set (fs @ os)" "Matches q0 exp"
    using assms(3) by (auto simp: Resolve_candidate filter_empty_conv split: if_splits)
  have ne: "c \<noteq> []" unfolding c_def by (rule best_candidate(2) [OF q0])
  then have l: "last c \<in> set (fs @ os)" "Matches (last c) exp" "Specificity (last c) = best exp (fs @ os)"
    using last_in_set [OF ne] by (auto simp: c_def candidates_def)
  have "last c \<in> set os" if "q \<in> set os" "Matches q exp" "Specificity q = best exp (fs @ os)" for q
  proof -
    have o: "candidates exp (best exp (fs @ os)) os \<noteq> []" using that by (auto simp: candidates_def filter_empty_conv)
    have "c = candidates exp (best exp (fs @ os)) fs @ candidates exp (best exp (fs @ os)) os" by (simp add: c_def candidates_def)
    then have "last c = last (candidates exp (best exp (fs @ os)) os)" using o by simp
    then show ?thesis using last_in_set [OF o] by (simp add: candidates_def)
  qed
  moreover have "\<exists>e. ExpandImageTemplate lookup (bgr_Image (last c)) (Some exp) = Inr e \<and> img = TrimSpace e"
    using assms(3) by (auto simp: Resolve_candidate c_def split: if_splits sum.splits)
  ultimately show ?thesis using l best_candidate(1) by (intro bexI [of _ "last c"]) auto
qed

theorem most_specific_image_wins_witness:
  "\<exists>r \<in> set (sample_file_rules @ sample_overrides). Specificity r = 4 \<and> r \<in> set sample_overrides \<and>
     ExpandImageTemplate (\<lambda>_. None) (bgr_Image r) (Some (sample_gate_stack ''maven'' ''17'')) = Inr ''own-mvn''"
proof -
  have r: "imageResolver_Resolve (\<lambda>_. None) (sample_file_rules @ sample_overrides) (sample_gate_stack ''maven'' ''17'') = Inr ''own-mvn''"
    by code_simp
  have q: "hd sample_overrides \<in> set sample_overrides" "Matches (hd sample_overrides) (sample_gate_stack ''maven'' ''17'')"
      "Specificity (hd sample_overrides) = 4" by code_simp+
  have four: "Specificity x \<le> 4" for x by (simp add: Specificity_def)
  have img: "bgr_Image x = ''own-mvn'' \<Longrightarrow> ExpandImageTemplate (\<lambda>_. None) (bgr_Image x) (Some (sample_gate_stack ''maven'' ''17'')) = Inr ''own-mvn''" for x
    by simp code_simp
  from most_specific_image_wins [OF sample_sources(2,3) r] obtain x where x: "x \<in> set (sample_file_rules @ sample_overrides)"
      "\<forall>q \<in> set (sample_file_rules @ sample_overrides). Matches q (sample_gate_stack ''maven'' ''17'') \<longrightarrow> Specificity q \<le> Specificity x"
      "\<forall>q \<in> set sample_overrides. Matches q (sample_gate_stack ''maven'' ''17'') \<and> Specificity q = Specificity x \<longrightarrow> x \<in> set sample_overrides" by blast
  have s: "Specificity x = 4" using x(2) q four [of x] by (metis Un_iff le_antisym set_append)
  then have o: "x \<in> set sample_overrides" using x(3) q by metis
  have "bgr_Image x = ''own-mvn''" using o s by (auto simp: sample_overrides_def Specificity_def sample_gate_stack_def)
  then show ?thesis using x(1) s o img by blast
qed

end
