(* ===== verification/Event_Hub.thy ===== *)
theory Event_Hub
  imports Domain_Types "HOL-Library.AList"
begin

text \<open>
  \<^verbatim>\<open>internal/stream/hub.go\<close>: the hub that fans events out to the clients that follow a run or a job. A stream
  keeps its last events in a ring for clients that come later, numbers the events, and hands every event to the channel of
  each subscriber; a subscriber that does not keep up is dropped.

  A channel of Go is the sequence of values sent to it, the number of values received, its capacity and whether it is closed; a send on a
  closed channel panics. \<^verbatim>\<open>publish\<close> and \<^verbatim>\<open>subscribe\<close> hold the lock of the stream only for a part of their work, so they are given in
  parts, which the concurrent theorems interleave and the sequential operation composes. A panic is \<open>None\<close>. Event numbers are 64-bit
  counters that start at 0 and are unbounded here.
\<close>

section \<open>Events\<close>

datatype SSEEventType = SSEEventLog | SSEEventRetention | SSEEventRun | SSEEventStage | SSEEventDone

fun SSEEventType_String :: "SSEEventType \<Rightarrow> string" where
  "SSEEventType_String SSEEventLog = ''log''"
| "SSEEventType_String SSEEventRetention = ''retention''"
| "SSEEventType_String SSEEventRun = ''run''"
| "SSEEventType_String SSEEventStage = ''stage''"
| "SSEEventType_String SSEEventDone = ''done''"

definition sse_event_types :: "SSEEventType list" where
  "sse_event_types = [SSEEventLog, SSEEventRetention, SSEEventRun, SSEEventStage, SSEEventDone]"

text \<open>\<^verbatim>\<open>SSEEventType.Validate\<close>; a blank value and an unknown one are refused with different errors, which the hub replaces by one.\<close>

definition SSEEventType_Validate :: "string \<Rightarrow> SSEEventType option" where
  "SSEEventType_Validate v = (if IsEmpty v then None else validate_enum sse_event_types SSEEventType_String v)"

record Event =
  ev_ID :: int
  ev_Type :: string
  ev_Data :: string

definition zero_event :: Event where
  "zero_event = \<lparr>ev_ID = 0, ev_Type = [], ev_Data = []\<rparr>"

section \<open>Ring\<close>

record ring =
  ring_items :: "Event list"
  ring_head :: nat
  ring_len :: nat
  ring_cap :: nat

definition newRing :: "int \<Rightarrow> ring" where
  "newRing capacity =
     (let c = (if capacity \<le> 0 then 1 else nat capacity)
      in \<lparr>ring_items = replicate c zero_event, ring_head = 0, ring_len = 0, ring_cap = c\<rparr>)"

definition ring_push :: "Event \<Rightarrow> ring \<Rightarrow> ring" where
  "ring_push evt r = r\<lparr>
     ring_items := (ring_items r)[ring_head r := evt],
     ring_head := (ring_head r + 1) mod ring_cap r,
     ring_len := (if ring_len r < ring_cap r then ring_len r + 1 else ring_len r)\<rparr>"

definition ring_oldest :: "ring \<Rightarrow> nat" where
  "ring_oldest r = (ring_head r + ring_cap r - ring_len r) mod ring_cap r"

definition ring_slice :: "ring \<Rightarrow> Event list" where
  "ring_slice r =
     (if ring_len r = 0 then []
      else let start = ring_oldest r in
        if start + ring_len r \<le> ring_cap r then take (ring_len r) (drop start (ring_items r))
        else let n = ring_cap r - start in drop start (ring_items r) @ take (ring_len r - n) (ring_items r))"

fun after_loop :: "ring \<Rightarrow> int \<Rightarrow> nat \<Rightarrow> nat \<Rightarrow> Event list" where
  "after_loop r since 0 idx = []"
| "after_loop r since (Suc n) idx =
     (let evt = ring_items r ! idx; rest = after_loop r since n ((idx + 1) mod ring_cap r)
      in if ev_ID evt > since then evt # rest else rest)"

definition ring_after :: "int \<Rightarrow> ring \<Rightarrow> Event list" where
  "ring_after since r =
     (if ring_len r = 0 then []
      else if since \<le> 0 then ring_slice r
      else after_loop r since (ring_len r) (ring_oldest r))"

section \<open>Subscribers\<close>

record chan =
  ch_Sent :: "Event list"
  ch_Taken :: nat
  ch_Cap :: nat
  ch_Closed :: bool

definition newSubscriber :: "nat \<Rightarrow> chan" where
  "newSubscriber buffer = \<lparr>ch_Sent = [], ch_Taken = 0, ch_Cap = buffer, ch_Closed = False\<rparr>"

definition subscriber_close :: "chan \<Rightarrow> chan" where
  "subscriber_close c = c\<lparr>ch_Closed := True\<rparr>"

definition subscriber_send :: "Event \<Rightarrow> chan \<Rightarrow> (bool \<times> chan) option" where
  "subscriber_send evt c =
     (if ch_Closed c then None
      else if length (ch_Sent c) - ch_Taken c < ch_Cap c then Some (True, c\<lparr>ch_Sent := ch_Sent c @ [evt]\<rparr>)
      else Some (False, subscriber_close c))"

text \<open>What the consumer does: take the next value, if there is one.\<close>

definition chan_receive :: "chan \<Rightarrow> chan" where
  "chan_receive c = (if ch_Taken c < length (ch_Sent c) then c\<lparr>ch_Taken := ch_Taken c + 1\<rparr> else c)"

section \<open>Stream\<close>

record Options =
  op_BufferSize :: int
  op_HistorySize :: int

definition Options_normalize :: "Options \<Rightarrow> Options" where
  "Options_normalize o0 =
     (let o1 = (if op_BufferSize o0 \<le> 0 then o0\<lparr>op_BufferSize := 32\<rparr> else o0);
          o2 = (if op_HistorySize o1 \<le> 0 then o1\<lparr>op_HistorySize := 256\<rparr> else o1)
      in if op_HistorySize o2 < op_BufferSize o2 then o2\<lparr>op_HistorySize := op_BufferSize o2\<rparr> else o2)"

text \<open>
  The subscriber with number \<open>i\<close> has the channel \<open>st_Chans s ! i\<close>, which its consumer holds on to after the subscriber is
  dropped; \<open>st_Subscribers\<close> are the numbers in the map.
\<close>

record stream =
  st_Opts :: Options
  st_History :: ring
  st_Subscribers :: "nat list"
  st_Chans :: "chan list"
  st_NextEventID :: int
  st_NextSubID :: nat
  st_Closed :: bool
  st_ResumeCount :: int
  st_ResumeAttempt :: int

definition newStream :: "Options \<Rightarrow> stream" where
  "newStream opts = \<lparr>st_Opts = opts, st_History = newRing (op_HistorySize opts), st_Subscribers = [], st_Chans = [],
     st_NextEventID = 0, st_NextSubID = 0, st_Closed = False, st_ResumeCount = 0, st_ResumeAttempt = 0\<rparr>"

datatype hub_error = ErrStreamClosed | ErrInvalidRunID | ErrInvalidJobID | ErrInvalidEventType | ErrInvalidSince | ErrContext | ErrMarshal

definition stream_snapshot :: "stream \<Rightarrow> Event list" where
  "stream_snapshot s = ring_slice (st_History s)"

text \<open>\<^verbatim>\<open>publish\<close>: under the lock, then the sends, then under the lock again.\<close>

definition publish_locked :: "Event \<Rightarrow> stream \<Rightarrow> hub_error + Event \<times> nat list \<times> stream" where
  "publish_locked evt s =
     (if st_Closed s then Inl ErrStreamClosed
      else let evt' = evt\<lparr>ev_ID := st_NextEventID s + 1\<rparr>
           in Inr (evt', st_Subscribers s, s\<lparr>st_NextEventID := st_NextEventID s + 1, st_History := ring_push evt' (st_History s)\<rparr>))"

fun publish_sends :: "Event \<Rightarrow> nat list \<Rightarrow> nat list \<Rightarrow> stream \<Rightarrow> (nat list \<times> stream) option" where
  "publish_sends evt [] dropped s = Some (dropped, s)"
| "publish_sends evt (i # is) dropped s =
     (case subscriber_send evt (st_Chans s ! i) of
        None \<Rightarrow> None
      | Some (ok, c) \<Rightarrow> publish_sends evt is (if ok then dropped else dropped @ [i]) (s\<lparr>st_Chans := (st_Chans s)[i := c]\<rparr>))"

definition stream_drop :: "nat \<Rightarrow> stream \<Rightarrow> stream" where
  "stream_drop i s =
     (if i \<in> set (st_Subscribers s)
      then s\<lparr>st_Subscribers := remove1 i (st_Subscribers s), st_Chans := (st_Chans s)[i := subscriber_close (st_Chans s ! i)]\<rparr>
      else s)"

definition stream_publish :: "Event \<Rightarrow> stream \<Rightarrow> (hub_error option \<times> stream) option" where
  "stream_publish evt s =
     (case publish_locked evt s of
        Inl e \<Rightarrow> Some (Some e, s)
      | Inr (evt', snapshot, s1) \<Rightarrow>
          (case publish_sends evt' snapshot [] s1 of
             None \<Rightarrow> None
           | Some (dropped, s2) \<Rightarrow> Some (None, fold stream_drop dropped s2)))"

definition stream_subscribe :: "int \<Rightarrow> stream \<Rightarrow> nat option \<times> Event list \<times> stream" where
  "stream_subscribe sinceID s =
     (let history = ring_after sinceID (st_History s) in
      if st_Closed s then (None, history, s)
      else (Some (st_NextSubID s), history,
            s\<lparr>st_NextSubID := st_NextSubID s + 1, st_Subscribers := st_Subscribers s @ [st_NextSubID s],
              st_Chans := st_Chans s @ [newSubscriber (nat (op_BufferSize (st_Opts s)))]\<rparr>))"

definition stream_finish :: "stream \<Rightarrow> stream" where
  "stream_finish s =
     (if st_Closed s then s
      else s\<lparr>st_Closed := True, st_Subscribers := [],
             st_Chans := fold (\<lambda>i cs. cs[i := subscriber_close (cs ! i)]) (st_Subscribers s) (st_Chans s)\<rparr>)"

definition stream_resume :: "int \<Rightarrow> int \<Rightarrow> stream \<Rightarrow> stream" where
  "stream_resume attempt cnt s =
     (if attempt < st_ResumeAttempt s \<or> (attempt = st_ResumeAttempt s \<and> cnt \<le> st_ResumeCount s) then s
      else s\<lparr>st_ResumeAttempt := attempt, st_ResumeCount := cnt, st_Closed := False,
             st_History := newRing (op_HistorySize (st_Opts s))\<rparr>)"

text \<open>
  \<^verbatim>\<open>subscribeStream\<close> sends the history after the lock is released. On a closed stream the subscriber has no number and its
  channel is the result.
\<close>

fun send_history :: "nat \<Rightarrow> Event list \<Rightarrow> stream \<Rightarrow> stream option" where
  "send_history i [] s = Some s"
| "send_history i (evt # history) s =
     (case subscriber_send evt (st_Chans s ! i) of
        None \<Rightarrow> None
      | Some (True, c) \<Rightarrow> send_history i history (s\<lparr>st_Chans := (st_Chans s)[i := c]\<rparr>)
      | Some (False, c) \<Rightarrow> Some (stream_drop i (s\<lparr>st_Chans := (st_Chans s)[i := c]\<rparr>)))"

fun send_detached :: "Event list \<Rightarrow> chan \<Rightarrow> chan option" where
  "send_detached [] c = Some c"
| "send_detached (evt # history) c =
     (case subscriber_send evt c of
        None \<Rightarrow> None
      | Some (True, c') \<Rightarrow> send_detached history c'
      | Some (False, c') \<Rightarrow> Some c')"

datatype subscription = Registered nat | Detached chan

definition subscribe_deliver :: "int \<Rightarrow> stream \<Rightarrow> (subscription \<times> stream) option" where
  "subscribe_deliver sinceID s =
     (case stream_subscribe sinceID s of
        (Some i, history, s') \<Rightarrow> map_option (Pair (Registered i)) (send_history i history s')
      | (None, history, s') \<Rightarrow>
          map_option (\<lambda>c. (Detached (subscriber_close c), s'))
            (send_detached history (newSubscriber (nat (op_BufferSize (st_Opts s))))))"

section \<open>Hub\<close>

record hub =
  hub_Streams :: "(string \<times> stream) list"
  hub_JobStreams :: "(string \<times> stream) list"
  hub_Opts :: Options

definition NewHub :: "Options \<Rightarrow> hub" where
  "NewHub opts = \<lparr>hub_Streams = [], hub_JobStreams = [], hub_Opts = Options_normalize opts\<rparr>"

definition getOrCreateStream :: "Options \<Rightarrow> (string \<times> stream) list \<Rightarrow> string \<Rightarrow> stream" where
  "getOrCreateStream opts streams key = (case map_of streams key of Some s \<Rightarrow> s | None \<Rightarrow> newStream opts)"

definition ensureStream :: "Options \<Rightarrow> (string \<times> stream) list \<Rightarrow> string \<Rightarrow> (string \<times> stream) list" where
  "ensureStream opts streams key = AList.update key (getOrCreateStream opts streams key) streams"

definition Ensure :: "string \<Rightarrow> hub \<Rightarrow> hub_error option \<times> hub" where
  "Ensure runID h =
     (if IsEmpty runID then (Some ErrInvalidRunID, h)
      else (None, h\<lparr>hub_Streams := ensureStream (hub_Opts h) (hub_Streams h) (Normalize runID)\<rparr>))"

definition EnsureJob :: "string \<Rightarrow> hub \<Rightarrow> hub_error option \<times> hub" where
  "EnsureJob jobID h =
     (if IsEmpty jobID then (Some ErrInvalidJobID, h)
      else (None, h\<lparr>hub_JobStreams := ensureStream (hub_Opts h) (hub_JobStreams h) (Normalize jobID)\<rparr>))"

text \<open>\<open>cancelled\<close> is \<^verbatim>\<open>ctx.Err() != nil\<close>; \<open>payload\<close> the result of \<^verbatim>\<open>json.Marshal\<close>. A payload that does not encode leaves a new stream behind.\<close>

definition publishStream ::
  "bool \<Rightarrow> Options \<Rightarrow> string \<Rightarrow> string \<Rightarrow> string option \<Rightarrow> (string \<times> stream) list \<Rightarrow> (hub_error option \<times> (string \<times> stream) list) option" where
  "publishStream cancelled opts key eventType payload streams =
     (if SSEEventType_Validate eventType = None then Some (Some ErrInvalidEventType, streams)
      else if cancelled then Some (Some ErrContext, streams)
      else let s = getOrCreateStream opts streams key in
        case payload of
          None \<Rightarrow> Some (Some ErrMarshal, AList.update key s streams)
        | Some data \<Rightarrow>
            map_option (\<lambda>(e, s'). (e, AList.update key s' streams))
              (stream_publish \<lparr>ev_ID = 0, ev_Type = eventType, ev_Data = data\<rparr> s))"

definition hub_publish :: "bool \<Rightarrow> string \<Rightarrow> SSEEventType \<Rightarrow> string option \<Rightarrow> hub \<Rightarrow> (hub_error option \<times> hub) option" where
  "hub_publish cancelled runID eventType payload h =
     (if IsEmpty runID then Some (Some ErrInvalidRunID, h)
      else map_option (\<lambda>(e, ss). (e, h\<lparr>hub_Streams := ss\<rparr>))
             (publishStream cancelled (hub_Opts h) (Normalize runID) (SSEEventType_String eventType) payload (hub_Streams h)))"

definition hub_publishJob :: "bool \<Rightarrow> string \<Rightarrow> SSEEventType \<Rightarrow> string option \<Rightarrow> hub \<Rightarrow> (hub_error option \<times> hub) option" where
  "hub_publishJob cancelled jobID eventType payload h =
     (if IsEmpty jobID then Some (Some ErrInvalidJobID, h)
      else map_option (\<lambda>(e, ss). (e, h\<lparr>hub_JobStreams := ss\<rparr>))
             (publishStream cancelled (hub_Opts h) (Normalize jobID) (SSEEventType_String eventType) payload (hub_JobStreams h)))"

definition finishStream :: "string \<Rightarrow> (string \<times> stream) list \<Rightarrow> (string \<times> stream) list" where
  "finishStream key streams = (case map_of streams key of None \<Rightarrow> streams | Some s \<Rightarrow> AList.update key (stream_finish s) streams)"

definition PublishStatus :: "bool \<Rightarrow> string \<Rightarrow> string option \<Rightarrow> hub \<Rightarrow> (hub_error option \<times> hub) option" where
  "PublishStatus cancelled runID payload h =
     map_option (\<lambda>(e, h'). case e of
         Some e \<Rightarrow> (Some e, h')
       | None \<Rightarrow> (None, h'\<lparr>hub_Streams := finishStream (Normalize runID) (hub_Streams h')\<rparr>))
       (hub_publish cancelled runID SSEEventDone payload h)"

definition PublishJobStatus :: "bool \<Rightarrow> string \<Rightarrow> string option \<Rightarrow> hub \<Rightarrow> (hub_error option \<times> hub) option" where
  "PublishJobStatus cancelled jobID payload h =
     map_option (\<lambda>(e, h'). case e of
         Some e \<Rightarrow> (Some e, h')
       | None \<Rightarrow> (None, h'\<lparr>hub_JobStreams := finishStream (Normalize jobID) (hub_JobStreams h')\<rparr>))
       (hub_publishJob cancelled jobID SSEEventDone payload h)"

definition PublishRun :: "bool \<Rightarrow> string \<Rightarrow> string option \<Rightarrow> hub \<Rightarrow> (hub_error option \<times> hub) option" where
  "PublishRun cancelled runID run h = hub_publish cancelled runID SSEEventRun run h"

definition PublishStage :: "bool \<Rightarrow> string \<Rightarrow> string option \<Rightarrow> hub \<Rightarrow> (hub_error option \<times> hub) option" where
  "PublishStage cancelled runID payload h = hub_publish cancelled runID SSEEventStage payload h"

definition PublishJobLog :: "bool \<Rightarrow> string \<Rightarrow> string option \<Rightarrow> hub \<Rightarrow> (hub_error option \<times> hub) option" where
  "PublishJobLog cancelled jobID payload h = hub_publishJob cancelled jobID SSEEventLog payload h"

definition PublishJobRetention :: "bool \<Rightarrow> string \<Rightarrow> string option \<Rightarrow> hub \<Rightarrow> (hub_error option \<times> hub) option" where
  "PublishJobRetention cancelled jobID hint h = hub_publishJob cancelled jobID SSEEventRetention hint h"

definition subscribeStream ::
  "bool \<Rightarrow> Options \<Rightarrow> string \<Rightarrow> int \<Rightarrow> (string \<times> stream) list \<Rightarrow> ((hub_error + subscription) \<times> (string \<times> stream) list) option" where
  "subscribeStream cancelled opts key sinceID streams =
     (if cancelled then Some (Inl ErrContext, streams)
      else map_option (\<lambda>(sub, s'). (Inr sub, AList.update key s' streams))
             (subscribe_deliver sinceID (getOrCreateStream opts streams key)))"

definition Subscribe :: "bool \<Rightarrow> string \<Rightarrow> int \<Rightarrow> hub \<Rightarrow> ((hub_error + subscription) \<times> hub) option" where
  "Subscribe cancelled runID sinceID h =
     (if IsEmpty runID then Some (Inl ErrInvalidRunID, h)
      else if sinceID < 0 then Some (Inl ErrInvalidSince, h)
      else map_option (\<lambda>(r, ss). (r, h\<lparr>hub_Streams := ss\<rparr>))
             (subscribeStream cancelled (hub_Opts h) (Normalize runID) sinceID (hub_Streams h)))"

definition SubscribeJob :: "bool \<Rightarrow> string \<Rightarrow> int \<Rightarrow> hub \<Rightarrow> ((hub_error + subscription) \<times> hub) option" where
  "SubscribeJob cancelled jobID sinceID h =
     (if IsEmpty jobID then Some (Inl ErrInvalidJobID, h)
      else if sinceID < 0 then Some (Inl ErrInvalidSince, h)
      else map_option (\<lambda>(r, ss). (r, h\<lparr>hub_JobStreams := ss\<rparr>))
             (subscribeStream cancelled (hub_Opts h) (Normalize jobID) sinceID (hub_JobStreams h)))"

definition Snapshot :: "string \<Rightarrow> hub \<Rightarrow> Event list" where
  "Snapshot runID h =
     (if IsEmpty runID then []
      else case map_of (hub_Streams h) (Normalize runID) of None \<Rightarrow> [] | Some s \<Rightarrow> stream_snapshot s)"

definition SnapshotJob :: "string \<Rightarrow> hub \<Rightarrow> Event list" where
  "SnapshotJob jobID h =
     (if IsEmpty jobID then []
      else case map_of (hub_JobStreams h) (Normalize jobID) of None \<Rightarrow> [] | Some s \<Rightarrow> stream_snapshot s)"

definition ResumeRun :: "string \<Rightarrow> int \<Rightarrow> int \<Rightarrow> hub \<Rightarrow> hub" where
  "ResumeRun runID attempt cnt h =
     (if IsEmpty runID \<or> cnt \<le> 0 then h
      else let key = Normalize runID
           in h\<lparr>hub_Streams := AList.update key (stream_resume attempt cnt (getOrCreateStream (hub_Opts h) (hub_Streams h) key)) (hub_Streams h)\<rparr>)"

definition ResumeJob :: "string \<Rightarrow> int \<Rightarrow> hub \<Rightarrow> hub" where
  "ResumeJob jobID cnt h =
     (if IsEmpty jobID \<or> cnt \<le> 0 then h
      else let key = Normalize jobID
           in h\<lparr>hub_JobStreams := AList.update key (stream_resume 0 cnt (getOrCreateStream (hub_Opts h) (hub_JobStreams h) key)) (hub_JobStreams h)\<rparr>)"

interpretation sse_event_enum: wire_enum sse_event_types SSEEventType_String
proof
  show "c \<in> set sse_event_types" for c by (cases c) (simp_all add: sse_event_types_def)
  show "SSEEventType_String c = SSEEventType_String d \<Longrightarrow> c = d" for c d by (cases c; cases d) simp_all
  show "TrimSpace (SSEEventType_String c) = SSEEventType_String c" for c
    by (cases c) (simp_all add: TrimSpace_fixed is_space_def)
qed

lemma event_type_valid [simp]: "SSEEventType_Validate (SSEEventType_String ty) = Some ty"
proof -
  have "\<not> IsEmpty (SSEEventType_String ty)"
    by (cases ty) (simp_all add: IsEmpty_def Normalize_def sse_event_enum.str_trimmed TrimSpace_fixed is_space_def)
  then show ?thesis by (simp add: SSEEventType_Validate_def)
qed

section \<open>The ring keeps the last events\<close>

definition lastn :: "nat \<Rightarrow> 'a list \<Rightarrow> 'a list" where
  "lastn n xs = drop (length xs - n) xs"

lemma lastn_append: "lastn c (lastn c xs @ [e]) = lastn c (xs @ [e])"
proof (cases "length xs \<le> c")
  case False
  then have "Suc (length xs) - (length xs - c + c) + (length xs - c) = Suc (length xs) - c" by simp
  then show ?thesis by (simp add: lastn_def)
qed (simp add: lastn_def)

text \<open>A log of the last entries, and what the users of one rely on.\<close>

locale bounded_log =
  fixes c :: nat and empty :: 'b and push :: "'e \<Rightarrow> 'b \<Rightarrow> 'b" and contents :: "'b \<Rightarrow> 'e list" and ok :: "'b \<Rightarrow> bool"
  assumes ok_empty: "ok empty"
    and ok_push: "ok b \<Longrightarrow> ok (push e b)"
    and contents_empty: "contents empty = []"
    and contents_push: "ok b \<Longrightarrow> contents (push e b) = lastn c (contents b @ [e])"
begin

lemma pushes: "ok (fold push es empty) \<and> contents (fold push es empty) = lastn c es"
proof (induction es rule: rev_induct)
  case Nil
  show ?case by (simp add: ok_empty contents_empty lastn_def)
next
  case (snoc e es)
  then show ?case by (simp add: ok_push contents_push lastn_append)
qed

end

definition ring_ok :: "nat \<Rightarrow> ring \<Rightarrow> bool" where
  "ring_ok c r \<longleftrightarrow> 0 < c \<and> ring_cap r = c \<and> length (ring_items r) = c \<and> ring_head r < c \<and> ring_len r \<le> c"

text \<open>The slots from the one that is written next, round to the one written last.\<close>

definition ring_rot :: "ring \<Rightarrow> Event list" where
  "ring_rot r = drop (ring_head r) (ring_items r) @ take (ring_head r) (ring_items r)"

lemma ring_slice_rot:
  assumes "ring_ok c r"
  shows "ring_slice r = drop (c - ring_len r) (ring_rot r)"
proof -
  have r: "ring_cap r = c" "length (ring_items r) = c" "ring_head r < c" "ring_len r \<le> c" using assms by (simp_all add: ring_ok_def)
  consider "ring_len r \<le> ring_head r" | "ring_len r > ring_head r" "ring_head r = 0" | "ring_len r > ring_head r" "ring_head r > 0" by linarith
  then show ?thesis
  proof cases
    case 1
    then have e: "ring_head r + c - ring_len r = c + (ring_head r - ring_len r)" by simp
    have "(ring_head r + c - ring_len r) mod c = ring_head r - ring_len r"
      unfolding e mod_add_self1 by (rule mod_less) (use r in linarith)
    then have "ring_oldest r = ring_head r - ring_len r" using r(1) by (simp add: ring_oldest_def)
    then show ?thesis using 1 r by (simp add: ring_slice_def ring_rot_def drop_take)
  next
    case 2
    then show ?thesis using r by (simp add: ring_slice_def ring_rot_def ring_oldest_def)
  next
    case 3
    then have "ring_oldest r = ring_head r + c - ring_len r" using r by (simp add: ring_oldest_def)
    then show ?thesis using 3 r by (simp add: ring_slice_def ring_rot_def) (metis add.commute Nat.add_diff_assoc)
  qed
qed

lemma ring_rot_push:
  assumes "ring_ok c r"
  shows "ring_rot (ring_push e r) = tl (ring_rot r) @ [e]"
proof -
  have r: "ring_cap r = c" "length (ring_items r) = c" "ring_head r < c" using assms by (simp_all add: ring_ok_def)
  have "drop (ring_head r) (ring_items r) \<noteq> []" using r by simp
  then have tl: "tl (ring_rot r) = drop (Suc (ring_head r)) (ring_items r) @ take (ring_head r) (ring_items r)"
    by (simp add: ring_rot_def tl_drop drop_Suc)
  have new: "take (Suc (ring_head r)) ((ring_items r)[ring_head r := e]) = take (ring_head r) (ring_items r) @ [e]"
    using r by (simp add: take_Suc_conv_app_nth)
  show ?thesis
  proof (cases "Suc (ring_head r) = c")
    case True
    then have "(ring_items r)[ring_head r := e] = take (ring_head r) (ring_items r) @ [e]"
      using new r by (metis length_list_update order_refl take_all)
    then show ?thesis using True r by (simp add: tl) (simp add: ring_push_def ring_rot_def)
  next
    case False
    then have "Suc (ring_head r) mod c = Suc (ring_head r)" using r by simp
    then show ?thesis using r new by (simp add: tl) (simp add: ring_push_def ring_rot_def)
  qed
qed

lemma ring_push_ok: "ring_ok c r \<Longrightarrow> ring_ok c (ring_push e r)"
  by (auto simp: ring_ok_def ring_push_def)

lemma newRing_ok: "0 < h \<Longrightarrow> ring_ok (nat h) (newRing h)"
  by (simp add: ring_ok_def newRing_def Let_def)

lemma length_ring_rot: "ring_ok c r \<Longrightarrow> length (ring_rot r) = c"
  by (simp add: ring_ok_def ring_rot_def)

lemma ring_slice_push:
  assumes ok: "ring_ok c r"
  shows "ring_slice (ring_push e r) = lastn c (ring_slice r @ [e])"
proof -
  note len = length_ring_rot [OF ok]
  have l: "ring_len r \<le> c" "0 < c" using ok by (simp_all add: ring_ok_def)
  have rot: "ring_rot r = hd (ring_rot r) # tl (ring_rot r)" using len l by (cases "ring_rot r") auto
  show ?thesis
  proof (cases "ring_len r < c")
    case True
    then have "ring_len (ring_push e r) = Suc (ring_len r)" using ok by (simp add: ring_push_def ring_ok_def)
    moreover have "drop (c - ring_len r) (ring_rot r) = drop (c - Suc (ring_len r)) (tl (ring_rot r))"
      using True by (subst rot) (simp add: drop_Cons')
    ultimately show ?thesis using True len
      by (simp add: ring_slice_rot [OF ok] ring_slice_rot [OF ring_push_ok [OF ok]] ring_rot_push [OF ok] lastn_def)
  next
    case False
    then have "ring_len r = c" "ring_len (ring_push e r) = c" using ok l by (simp_all add: ring_push_def ring_ok_def)
    then show ?thesis using len l
      by (simp add: ring_slice_rot [OF ok] ring_slice_rot [OF ring_push_ok [OF ok]] ring_rot_push [OF ok] lastn_def drop_Suc)
  qed
qed

lemma newRing_slice: "ring_slice (newRing h) = []"
  by (simp add: newRing_def ring_slice_def Let_def)

interpretation ring_log: bounded_log "Suc n" "newRing (int (Suc n))" ring_push ring_slice "ring_ok (Suc n)" for n
proof unfold_locales
  show "ring_ok (Suc n) (newRing (int (Suc n)))" using newRing_ok [of "int (Suc n)"] unfolding nat_int by simp
qed (simp_all only: ring_push_ok newRing_slice ring_slice_push)

text \<open>The walk over the ring is the filter of its contents.\<close>

lemma after_loop_filter:
  "after_loop r since n idx = filter (\<lambda>e. ev_ID e > since) (map (\<lambda>k. ring_items r ! ((idx + k) mod ring_cap r)) [0..<n])"
  if "idx < ring_cap r"
  using that
proof (induction n arbitrary: idx)
  case (Suc n)
  have "(idx + 1) mod ring_cap r < ring_cap r" using Suc.prems by simp
  note IH = Suc.IH [OF this]
  have "((idx + 1) mod ring_cap r + k) mod ring_cap r = (idx + Suc k) mod ring_cap r" for k
    by (simp add: mod_add_left_eq)
  moreover have "[0..<Suc n] = 0 # map Suc [0..<n]" by (simp add: map_Suc_upt upt_conv_Cons)
  ultimately show ?case using Suc.prems IH by (simp add: comp_def Let_def)
qed simp

lemma ring_slice_nth:
  assumes ok: "ring_ok c r"
  shows "ring_slice r = map (\<lambda>k. ring_items r ! ((ring_oldest r + k) mod ring_cap r)) [0..<ring_len r]"
proof (rule nth_equalityI)
  have r: "ring_cap r = c" "length (ring_items r) = c" "ring_head r < c" "ring_len r \<le> c" using ok by (simp_all add: ring_ok_def)
  show len: "length (ring_slice r) = length (map (\<lambda>k. ring_items r ! ((ring_oldest r + k) mod ring_cap r)) [0..<ring_len r])"
    using r by (simp add: ring_slice_rot [OF ok] length_ring_rot [OF ok])
  fix k assume "k < length (ring_slice r)"
  then have k: "k < ring_len r" using len by simp
  let ?i = "c - ring_len r + k"
  have i: "?i < c" using k r by linarith
  have rot: "ring_rot r ! j = ring_items r ! ((ring_head r + j) mod c)" if "j < c" for j
  proof (cases "j < c - ring_head r")
    case True
    then show ?thesis using r that by (simp add: ring_rot_def nth_append)
  next
    case False
    then have "ring_head r + j = c + (j - (c - ring_head r))" using r by linarith
    moreover have "(c + (j - (c - ring_head r))) mod c = j - (c - ring_head r)"
      unfolding mod_add_self1 by (rule mod_less) (use r that in linarith)
    ultimately have "(ring_head r + j) mod c = j - (c - ring_head r)" by (simp only:)
    then show ?thesis using False r that by (simp add: ring_rot_def nth_append)
  qed
  have "(ring_oldest r + k) mod c = (ring_head r + ?i) mod c"
    using r by (simp add: ring_oldest_def mod_add_left_eq add.assoc)
  moreover have "ring_slice r ! k = ring_rot r ! ?i"
    using i length_ring_rot [OF ok] by (simp add: ring_slice_rot [OF ok])
  ultimately show "ring_slice r ! k = map (\<lambda>k. ring_items r ! ((ring_oldest r + k) mod ring_cap r)) [0..<ring_len r] ! k"
    using rot [OF i] k r by simp
qed

lemma ring_after_filter:
  assumes ok: "ring_ok c r" and pos: "\<forall>e \<in> set (ring_slice r). 0 < ev_ID e"
  shows "ring_after since r = filter (\<lambda>e. ev_ID e > since) (ring_slice r)"
proof (cases "ring_len r = 0 \<or> since \<le> 0")
  case True
  have "filter (\<lambda>e. since < ev_ID e) (ring_slice r) = ring_slice r" if "since \<le> 0" using pos that by (intro filter_True) force
  then show ?thesis using True by (auto simp: ring_after_def ring_slice_def)
next
  case False
  have "ring_oldest r < ring_cap r" using ok by (simp add: ring_oldest_def ring_ok_def)
  then show ?thesis using False by (simp add: ring_after_def after_loop_filter ring_slice_nth [OF ok])
qed

end
