(* ===== verification/Event_Delivery.thy ===== *)
theory Event_Delivery
  imports Event_Hub "HOL-Library.Sublist"
begin

text \<open>
  What a stream of the event hub delivers. A state is a stream together with the list of all events ever published on it;
  a step is one call of publish, subscribe, cancel, finish or resume, or a consumer that takes an event. The invariant says that the
  ring holds the last events and that every channel holds a gap-free part of the published events.
\<close>

section \<open>Effects on the channels\<close>

definition room :: "chan \<Rightarrow> bool" where
  "room c \<longleftrightarrow> length (ch_Sent c) - ch_Taken c < ch_Cap c"

definition deliver :: "Event \<Rightarrow> chan \<Rightarrow> chan" where
  "deliver evt c = (if room c then c\<lparr>ch_Sent := ch_Sent c @ [evt]\<rparr> else subscriber_close c)"

definition upd :: "nat list \<Rightarrow> ('a \<Rightarrow> 'a) \<Rightarrow> 'a list \<Rightarrow> 'a list" where
  "upd is f cs = fold (\<lambda>i cs. cs[i := f (cs ! i)]) is cs"

lemma length_upd [simp]: "length (upd is f cs) = length cs"
  by (induction "is" arbitrary: cs) (simp_all add: upd_def)

lemma upd_simps [simp]: "upd [] f cs = cs" "upd (i # is) f cs = upd is f (cs[i := f (cs ! i)])"
  by (simp_all add: upd_def)

lemma nth_upd: "distinct is \<Longrightarrow> j < length cs \<Longrightarrow> upd is f cs ! j = (if j \<in> set is then f (cs ! j) else cs ! j)"
proof (induction "is" arbitrary: cs)
  case (Cons i "is")
  then show ?case by (cases "j = i") auto
qed simp

lemma send_open: "\<not> ch_Closed c \<Longrightarrow> subscriber_send evt c = Some (room c, deliver evt c)"
  by (simp add: subscriber_send_def room_def deliver_def)

lemma publish_sends_open:
  assumes "distinct is" "\<forall>i \<in> set is. i < length (st_Chans s) \<and> \<not> ch_Closed (st_Chans s ! i)"
  shows "publish_sends evt is ds s =
    Some (ds @ filter (\<lambda>i. \<not> room (st_Chans s ! i)) is, s\<lparr>st_Chans := upd is (deliver evt) (st_Chans s)\<rparr>)"
  using assms
proof (induction "is" arbitrary: ds s)
  case (Cons i "is")
  let ?s = "s\<lparr>st_Chans := (st_Chans s)[i := deliver evt (st_Chans s ! i)]\<rparr>"
  have same: "st_Chans ?s ! k = st_Chans s ! k" if "k \<in> set is" for k using Cons.prems that by (cases "k = i") auto
  have rest: "filter (\<lambda>k. \<not> room (st_Chans ?s ! k)) is = filter (\<lambda>k. \<not> room (st_Chans s ! k)) is"
    by (rule filter_cong) (simp_all only: same)
  have "publish_sends evt is ds' ?s = Some (ds' @ filter (\<lambda>k. \<not> room (st_Chans ?s ! k)) is,
      ?s\<lparr>st_Chans := upd is (deliver evt) (st_Chans ?s)\<rparr>)" for ds'
    using Cons.prems same by (intro Cons.IH) auto
  then show ?case using Cons.prems unfolding rest by (simp add: send_open)
qed simp

lemma fold_stream_drop:
  assumes "distinct ds" "set ds \<subseteq> set (st_Subscribers s)" "distinct (st_Subscribers s)"
  shows "fold stream_drop ds s =
    s\<lparr>st_Subscribers := filter (\<lambda>i. i \<notin> set ds) (st_Subscribers s), st_Chans := upd ds subscriber_close (st_Chans s)\<rparr>"
  using assms
proof (induction ds arbitrary: s)
  case (Cons d ds)
  let ?s = "stream_drop d s"
  have s: "?s = s\<lparr>st_Subscribers := filter (\<lambda>i. i \<noteq> d) (st_Subscribers s),
      st_Chans := (st_Chans s)[d := subscriber_close (st_Chans s ! d)]\<rparr>"
    using Cons.prems by (simp add: stream_drop_def distinct_remove1_removeAll removeAll_filter_not_eq)
      (simp add: eq_commute)
  have "fold stream_drop ds ?s = ?s\<lparr>st_Subscribers := filter (\<lambda>i. i \<notin> set ds) (st_Subscribers ?s),
      st_Chans := upd ds subscriber_close (st_Chans ?s)\<rparr>"
    using Cons.prems by (intro Cons.IH) (auto simp: s)
  then show ?case by (simp add: s conj_commute)
qed simp

text \<open>Publishing on an open stream: every subscriber with room gets the event, the others are dropped.\<close>

definition numbered :: "Event \<Rightarrow> stream \<Rightarrow> Event" where
  "numbered evt s = evt\<lparr>ev_ID := st_NextEventID s + 1\<rparr>"

definition subs_ok :: "stream \<Rightarrow> bool" where
  "subs_ok s \<longleftrightarrow> distinct (st_Subscribers s) \<and> (\<forall>i \<in> set (st_Subscribers s). i < length (st_Chans s) \<and> \<not> ch_Closed (st_Chans s ! i))"

lemma stream_publish_open:
  assumes "subs_ok s" "\<not> st_Closed s"
  obtains s' where "stream_publish evt s = Some (None, s')" "st_Opts s' = st_Opts s" "\<not> st_Closed s'"
    "st_NextEventID s' = st_NextEventID s + 1" "st_NextSubID s' = st_NextSubID s"
    "st_History s' = ring_push (numbered evt s) (st_History s)"
    "st_Subscribers s' = filter (\<lambda>i. room (st_Chans s ! i)) (st_Subscribers s)"
    "length (st_Chans s') = length (st_Chans s)"
    "\<And>i. i < length (st_Chans s) \<Longrightarrow> st_Chans s' ! i =
      (if i \<in> set (st_Subscribers s) then deliver (numbered evt s) (st_Chans s ! i) else st_Chans s ! i)"
proof -
  let ?subs = "st_Subscribers s"
  let ?full = "filter (\<lambda>i. \<not> room (st_Chans s ! i)) ?subs"
  let ?evt = "numbered evt s"
  let ?s1 = "s\<lparr>st_NextEventID := st_NextEventID s + 1, st_History := ring_push ?evt (st_History s)\<rparr>"
  let ?s2 = "?s1\<lparr>st_Chans := upd ?subs (deliver ?evt) (st_Chans s)\<rparr>"
  let ?s' = "?s2\<lparr>st_Subscribers := filter (\<lambda>i. i \<notin> set ?full) ?subs, st_Chans := upd ?full subscriber_close (st_Chans ?s2)\<rparr>"
  have ok: "distinct ?subs" "\<forall>i \<in> set ?subs. i < length (st_Chans s) \<and> \<not> ch_Closed (st_Chans s ! i)"
    using assms(1) by (simp_all add: subs_ok_def)
  have "publish_sends ?evt ?subs [] ?s1 = Some (?full, ?s2)" using publish_sends_open [OF ok(1), of ?s1 ?evt "[]"] ok(2) by simp
  moreover have "fold stream_drop ?full ?s2 = ?s'" using ok(1) by (subst fold_stream_drop) auto
  ultimately have "stream_publish evt s = Some (None, ?s')"
    using assms(2) by (simp add: stream_publish_def publish_locked_def numbered_def Let_def)
  then show thesis
  proof (rule that)
    fix i assume i: "i < length (st_Chans s)"
    have "subscriber_close (deliver ?evt c) = deliver ?evt c" if "\<not> room c" for c
      using that by (simp add: deliver_def subscriber_close_def)
    then show "st_Chans ?s' ! i = (if i \<in> set ?subs then deliver ?evt (st_Chans s ! i) else st_Chans s ! i)"
      using i ok(1) by (simp add: nth_upd)
  qed (use assms(2) in \<open>auto intro: filter_cong\<close>)
qed

section \<open>Subscribing\<close>

definition free :: "chan \<Rightarrow> nat" where
  "free c = ch_Cap c - (length (ch_Sent c) - ch_Taken c)"

lemma free_room: "free c = 0 \<longleftrightarrow> \<not> room c"
  by (auto simp: free_def room_def)

text \<open>The history is sent as far as the buffer goes; a subscriber that cannot take all of it is dropped.\<close>

lemma send_history_open:
  assumes "i < length (st_Chans s)" "\<not> ch_Closed (st_Chans s ! i)" "ch_Taken (st_Chans s ! i) \<le> length (ch_Sent (st_Chans s ! i))"
  shows "send_history i hs s = Some (
    if length hs \<le> free (st_Chans s ! i)
    then s\<lparr>st_Chans := (st_Chans s)[i := (st_Chans s ! i)\<lparr>ch_Sent := ch_Sent (st_Chans s ! i) @ hs\<rparr>]\<rparr>
    else stream_drop i (s\<lparr>st_Chans := (st_Chans s)[i :=
      subscriber_close ((st_Chans s ! i)\<lparr>ch_Sent := ch_Sent (st_Chans s ! i) @ take (free (st_Chans s ! i)) hs\<rparr>)]\<rparr>))"
  using assms
proof (induction hs arbitrary: s)
  case (Cons e hs)
  let ?c = "st_Chans s ! i"
  show ?case
  proof (cases "room ?c")
    case True
    let ?d = "?c\<lparr>ch_Sent := ch_Sent ?c @ [e]\<rparr>"
    let ?s = "s\<lparr>st_Chans := (st_Chans s)[i := ?d]\<rparr>"
    have c: "st_Chans ?s ! i = ?d" using Cons.prems(1) by simp
    have f: "free ?c = Suc (free ?d)" using True Cons.prems(3) by (auto simp: free_def room_def)
    have "send_history i (e # hs) s = send_history i hs ?s"
      using True Cons.prems(2) by (simp add: send_open deliver_def)
    then show ?thesis using Cons.IH [of ?s] Cons.prems unfolding c f by simp
  next
    case False
    then show ?thesis using Cons.prems free_room [of ?c] by (simp add: send_open deliver_def)
  qed
qed (simp add: list_update_id)

lemma send_detached_open:
  assumes "\<not> ch_Closed c" "ch_Taken c \<le> length (ch_Sent c)"
  shows "\<exists>c'. send_detached hs c = Some c' \<and> ch_Sent c' = ch_Sent c @ take (free c) hs"
  using assms
proof (induction hs arbitrary: c)
  case (Cons e hs)
  show ?case
  proof (cases "room c")
    case True
    let ?d = "c\<lparr>ch_Sent := ch_Sent c @ [e]\<rparr>"
    have f: "free c = Suc (free ?d)" using True Cons.prems(2) by (auto simp: free_def room_def)
    show ?thesis using Cons.IH [of ?d] Cons.prems True unfolding f by (simp add: send_open deliver_def)
  next
    case False
    then show ?thesis using Cons.prems free_room [of c] by (simp add: send_open deliver_def subscriber_close_def)
  qed
qed simp

section \<open>Invariant\<close>

definition chan_ok :: "Event list \<Rightarrow> int \<Rightarrow> chan \<Rightarrow> bool" where
  "chan_ok L buffer c \<longleftrightarrow> sublist (ch_Sent c) L \<and> ch_Taken c \<le> length (ch_Sent c) \<and>
     length (ch_Sent c) - ch_Taken c \<le> ch_Cap c \<and> ch_Cap c = nat buffer"

definition stream_inv :: "Event list \<times> stream \<Rightarrow> bool" where
  "stream_inv = (\<lambda>(L, s).
     0 < op_BufferSize (st_Opts s) \<and> 0 < op_HistorySize (st_Opts s) \<and>
     ring_ok (nat (op_HistorySize (st_Opts s))) (st_History s) \<and> suffix (ring_slice (st_History s)) L \<and>
     map ev_ID L = [1..st_NextEventID s] \<and> st_NextEventID s = int (length L) \<and>
     st_NextSubID s = length (st_Chans s) \<and> subs_ok s \<and> (st_Closed s \<longrightarrow> st_Subscribers s = []) \<and>
     (\<forall>i < length (st_Chans s). chan_ok L (op_BufferSize (st_Opts s)) (st_Chans s ! i)) \<and>
     (\<forall>i \<in> set (st_Subscribers s). suffix (ch_Sent (st_Chans s ! i)) L))"

lemma stream_invD:
  assumes "stream_inv (L, s)"
  shows "0 < op_BufferSize (st_Opts s)" "0 < op_HistorySize (st_Opts s)"
    "ring_ok (nat (op_HistorySize (st_Opts s))) (st_History s)" "suffix (ring_slice (st_History s)) L"
    "map ev_ID L = [1..st_NextEventID s]" "st_NextEventID s = int (length L)"
    "st_NextSubID s = length (st_Chans s)" "subs_ok s" "st_Closed s \<Longrightarrow> st_Subscribers s = []"
    "\<And>i. i < length (st_Chans s) \<Longrightarrow> chan_ok L (op_BufferSize (st_Opts s)) (st_Chans s ! i)"
    "\<And>i. i \<in> set (st_Subscribers s) \<Longrightarrow> suffix (ch_Sent (st_Chans s ! i)) L"
  using assms by (auto simp: stream_inv_def)

inductive stream_step :: "Event list \<times> stream \<Rightarrow> Event list \<times> stream \<Rightarrow> bool" where
  publish: "stream_publish evt s = Some (None, s') \<Longrightarrow> stream_step (L, s) (L @ [numbered evt s], s')"
| subscribe: "subscribe_deliver since s = Some (sub, s') \<Longrightarrow> stream_step (L, s) (L, s')"
| cancel: "stream_step (L, s) (L, stream_drop i s)"
| finish: "stream_step (L, s) (L, stream_finish s)"
| resume: "stream_step (L, s) (L, stream_resume attempt cnt s)"
| receive: "i < length (st_Chans s) \<Longrightarrow> stream_step (L, s) (L, s\<lparr>st_Chans := (st_Chans s)[i := chan_receive (st_Chans s ! i)]\<rparr>)"

definition stream_init :: "Event list \<times> stream \<Rightarrow> bool" where
  "stream_init = (\<lambda>(L, s). L = [] \<and> (\<exists>opts. s = newStream (Options_normalize opts)))"

lemma stream_init_inv: "stream_init p \<Longrightarrow> stream_inv p"
proof -
  assume "stream_init p"
  then obtain opts where p: "p = ([], newStream (Options_normalize opts))" by (auto simp: stream_init_def)
  let ?o = "Options_normalize opts"
  have pos: "0 < op_BufferSize ?o" "0 < op_HistorySize ?o" by (auto simp: Options_normalize_def Let_def)
  show ?thesis using newRing_ok [OF pos(2)] pos
    by (simp add: p stream_inv_def newStream_def newRing_slice subs_ok_def)
qed

text \<open>What a step does to the channels, and what is left to show for the invariant.\<close>

lemma stream_inv_chans:
  assumes inv: "stream_inv (L, s)"
    and s': "st_Opts s' = st_Opts s" "st_History s' = st_History s" "st_NextEventID s' = st_NextEventID s"
      "st_NextSubID s' = length (st_Chans s')" "subs_ok s'" "st_Closed s' \<Longrightarrow> st_Subscribers s' = []"
    and c: "\<And>i. i < length (st_Chans s') \<Longrightarrow> chan_ok L (op_BufferSize (st_Opts s)) (st_Chans s' ! i)"
      "\<And>i. i \<in> set (st_Subscribers s') \<Longrightarrow> suffix (ch_Sent (st_Chans s' ! i)) L"
  shows "stream_inv (L, s')"
  using stream_invD [OF inv] s' c by (auto simp: stream_inv_def)

lemma close_fields [simp]:
  "ch_Sent (subscriber_close c) = ch_Sent c" "ch_Taken (subscriber_close c) = ch_Taken c"
  "ch_Cap (subscriber_close c) = ch_Cap c" "ch_Closed (subscriber_close c)"
  by (simp_all add: subscriber_close_def)

lemma chan_ok_close [simp]: "chan_ok L b (subscriber_close c) \<longleftrightarrow> chan_ok L b c"
  by (simp add: chan_ok_def)

lemma stream_drop_fields [simp]:
  "st_Opts (stream_drop i s) = st_Opts s" "st_History (stream_drop i s) = st_History s"
  "st_NextEventID (stream_drop i s) = st_NextEventID s" "st_NextSubID (stream_drop i s) = st_NextSubID s"
  "st_Closed (stream_drop i s) = st_Closed s" "length (st_Chans (stream_drop i s)) = length (st_Chans s)"
  by (simp_all add: stream_drop_def)

lemma stream_drop_inv:
  assumes inv: "stream_inv (L, s)"
  shows "stream_inv (L, stream_drop i s)"
proof (cases "i \<in> set (st_Subscribers s)")
  case True
  note I = stream_invD [OF inv]
  have ok: "distinct (st_Subscribers s)" "\<And>k. k \<in> set (st_Subscribers s) \<Longrightarrow> k < length (st_Chans s) \<and> \<not> ch_Closed (st_Chans s ! k)"
    using I(8) by (auto simp: subs_ok_def)
  have subs: "set (st_Subscribers (stream_drop i s)) = set (st_Subscribers s) - {i}" "distinct (st_Subscribers (stream_drop i s))"
    using True ok(1) by (simp_all add: stream_drop_def)
  have ch: "st_Chans (stream_drop i s) ! k = (if k = i then subscriber_close (st_Chans s ! i) else st_Chans s ! k)"
    if "k < length (st_Chans s)" for k using True that by (simp add: stream_drop_def)
  show ?thesis
  proof (rule stream_inv_chans [OF inv])
    show "subs_ok (stream_drop i s)" using ok subs ch by (auto simp: subs_ok_def)
    show "st_Subscribers (stream_drop i s) = []" if "st_Closed (stream_drop i s)" using that True I(9) by simp
    show "suffix (ch_Sent (st_Chans (stream_drop i s) ! k)) L" if "k \<in> set (st_Subscribers (stream_drop i s))" for k
      using that ok subs ch I(11) by auto
  qed (use I ch in auto)
qed (use inv in \<open>simp add: stream_drop_def\<close>)

lemma suffix_lastn: "suffix (lastn n xs) xs"
  by (simp add: lastn_def suffix_drop)

lemma stream_publish_inv:
  assumes inv: "stream_inv (L, s)" and p: "stream_publish evt s = Some (None, s')"
  shows "stream_inv (L @ [numbered evt s], s')"
proof -
  note I = stream_invD [OF inv]
  let ?e = "numbered evt s"
  have op: "\<not> st_Closed s" using p by (auto simp: stream_publish_def publish_locked_def)
  obtain s'' where p': "stream_publish evt s = Some (None, s'')" and e: "st_Opts s'' = st_Opts s" "\<not> st_Closed s''"
    "st_NextEventID s'' = st_NextEventID s + 1" "st_NextSubID s'' = st_NextSubID s"
    "st_History s'' = ring_push ?e (st_History s)"
    "st_Subscribers s'' = filter (\<lambda>i. room (st_Chans s ! i)) (st_Subscribers s)" "length (st_Chans s'') = length (st_Chans s)"
    and ch: "\<And>i. i < length (st_Chans s) \<Longrightarrow> st_Chans s'' ! i =
      (if i \<in> set (st_Subscribers s) then deliver ?e (st_Chans s ! i) else st_Chans s ! i)"
    using I(8) op by (rule stream_publish_open [where evt = evt]) blast
  have s': "s'' = s'" using p p' by simp
  have subs: "distinct (st_Subscribers s)" "\<And>k. k \<in> set (st_Subscribers s) \<Longrightarrow> k < length (st_Chans s) \<and> \<not> ch_Closed (st_Chans s ! k)"
    using I(8) by (auto simp: subs_ok_def)
  have "suffix (ring_slice (st_History s) @ [?e]) (L @ [?e])" using I(4) by simp
  then have hist: "suffix (ring_slice (ring_push ?e (st_History s))) (L @ [?e])"
    unfolding ring_slice_push [OF I(3)] using suffix_lastn suffix_order.order_trans by blast
  have ids: "map ev_ID (L @ [?e]) = [1..st_NextEventID s + 1]"
    using I(5,6) by (simp add: numbered_def upto_rec2)
  have chans: "chan_ok (L @ [?e]) (op_BufferSize (st_Opts s)) (st_Chans s'' ! i)" if i: "i < length (st_Chans s)" for i
  proof -
    note c = I(10) [OF i, unfolded chan_ok_def]
    have "sublist (ch_Sent (st_Chans s ! i)) (L @ [?e])" using c by (meson sublist_appendI sublist_order.order_trans sublist_append_leftI sublist_append_rightI)
    moreover have "sublist (ch_Sent (st_Chans s ! i) @ [?e]) (L @ [?e])" if "i \<in> set (st_Subscribers s)"
      using I(11) [OF that] by (intro suffix_imp_sublist) simp
    ultimately show ?thesis using ch [OF i] c by (auto simp: chan_ok_def deliver_def room_def)
  qed
  have "subs_ok s''" using subs ch e by (auto simp: subs_ok_def deliver_def)
  moreover have "suffix (ch_Sent (st_Chans s'' ! i)) (L @ [?e])" if "i \<in> set (st_Subscribers s'')" for i
    using that subs ch I(11) by (simp add: e deliver_def)
  ultimately show ?thesis unfolding s' [symmetric] stream_inv_def prod.case
    using I e ids hist chans ring_push_ok [OF I(3)] by auto
qed

text \<open>The events after a number are the last ones, because the numbers are consecutive.\<close>

lemma filter_sorted_suffix: "sorted (map f xs) \<Longrightarrow> filter (\<lambda>x. f x > (k :: int)) xs = dropWhile (\<lambda>x. f x \<le> k) xs"
proof (induction xs)
  case (Cons a xs)
  show ?case
  proof (cases "k < f a")
    case True
    then have "filter (\<lambda>x. f x > k) (a # xs) = a # xs" using Cons.prems by (intro filter_True) auto
    then show ?thesis using True by simp
  qed (use Cons in auto)
qed simp

lemma history_after:
  assumes inv: "stream_inv (L, s)"
  shows "ring_after since (st_History s) = filter (\<lambda>e. ev_ID e > since) (ring_slice (st_History s))"
    "suffix (ring_after since (st_History s)) L"
proof -
  note I = stream_invD [OF inv]
  obtain p where L: "L = p @ ring_slice (st_History s)" using I(4) by (auto simp: suffix_def)
  have "set (map ev_ID L) \<subseteq> {1..st_NextEventID s}" using I(5) by simp
  then have "\<forall>e \<in> set (ring_slice (st_History s)). 0 < ev_ID e" by (auto simp: L)
  then show f: "ring_after since (st_History s) = filter (\<lambda>e. ev_ID e > since) (ring_slice (st_History s))"
    by (rule ring_after_filter [OF I(3)])
  have "sorted (map ev_ID L)" using I(5) by simp
  then have "sorted (map ev_ID (ring_slice (st_History s)))" by (simp add: L sorted_append)
  then have "suffix (ring_after since (st_History s)) (ring_slice (st_History s))"
    unfolding f by (simp add: filter_sorted_suffix suffix_dropWhile)
  then show "suffix (ring_after since (st_History s)) L" using I(4) by (rule suffix_order.order_trans)
qed

lemma subscribe_inv:
  assumes inv: "stream_inv (L, s)" and sub: "subscribe_deliver since s = Some (sub, s')"
  shows "stream_inv (L, s')"
proof (cases "st_Closed s")
  case True
  then have "s' = s" using sub by (auto simp: subscribe_deliver_def stream_subscribe_def Let_def)
  then show ?thesis using inv by simp
next
  case False
  note I = stream_invD [OF inv]
  let ?b = "nat (op_BufferSize (st_Opts s))"
  let ?n = "length (st_Chans s)"
  let ?hs = "ring_after since (st_History s)"
  let ?s1 = "s\<lparr>st_NextSubID := ?n + 1, st_Subscribers := st_Subscribers s @ [?n], st_Chans := st_Chans s @ [newSubscriber ?b]\<rparr>"
  have subs: "distinct (st_Subscribers s)" "\<And>k. k \<in> set (st_Subscribers s) \<Longrightarrow> k < ?n \<and> \<not> ch_Closed (st_Chans s ! k)"
    using I(8) by (auto simp: subs_ok_def)
  have new: "newSubscriber ?b = \<lparr>ch_Sent = [], ch_Taken = 0, ch_Cap = ?b, ch_Closed = False\<rparr>" by (simp add: newSubscriber_def)
  define c1 where "c1 sent closed = \<lparr>ch_Sent = sent, ch_Taken = 0, ch_Cap = ?b, ch_Closed = closed\<rparr>" for sent closed
  define t where "t sent = ?s1\<lparr>st_Chans := st_Chans s @ [c1 sent False]\<rparr>" for sent
  have t: "stream_inv (L, t sent)" if "suffix sent L" "length sent \<le> ?b" for sent
  proof (rule stream_inv_chans [OF inv])
    show "subs_ok (t sent)" using subs by (auto simp: subs_ok_def t_def c1_def nth_append less_SucI)
    show "chan_ok L (op_BufferSize (st_Opts s)) (st_Chans (t sent) ! i)" if "i < length (st_Chans (t sent))" for i
      using that I(10) [of i] \<open>suffix sent L\<close> \<open>length sent \<le> ?b\<close>
      by (auto simp: t_def c1_def nth_append chan_ok_def suffix_imp_sublist less_Suc_eq)
    show "suffix (ch_Sent (st_Chans (t sent) ! i)) L" if "i \<in> set (st_Subscribers (t sent))" for i
      using that I(11) subs \<open>suffix sent L\<close> by (auto simp: t_def c1_def nth_append)
  qed (use I False in \<open>auto simp: t_def\<close>)
  have "send_history ?n ?hs ?s1 = Some s'"
    using sub False I(7) by (auto simp: subscribe_deliver_def stream_subscribe_def Let_def)
  moreover have "free (newSubscriber ?b) = ?b" by (simp add: free_def new)
  ultimately have s': "s' = (if length ?hs \<le> ?b then t ?hs
      else stream_drop ?n (?s1\<lparr>st_Chans := st_Chans s @ [c1 (take ?b ?hs) True]\<rparr>))"
    using send_history_open [of ?n ?s1 ?hs]
    by (simp add: new nth_append t_def c1_def subscriber_close_def list_update_append split: if_splits)
  show ?thesis
  proof (cases "length ?hs \<le> ?b")
    case True
    then show ?thesis using t [OF history_after(2) [OF inv, of since]] s' by simp
  next
    case False
    have e: "s' = s\<lparr>st_NextSubID := ?n + 1, st_Chans := st_Chans s @ [c1 (take ?b ?hs) True]\<rparr>"
      using s' False subs by (simp add: stream_drop_def remove1_append c1_def subscriber_close_def) (metis less_irrefl remove1_idem)
    have "sublist (take ?b ?hs) L"
      using history_after(2) [OF inv, of since] by (meson prefix_imp_sublist sublist_order.order_trans suffix_imp_sublist take_is_prefix)
    then have "chan_ok L (op_BufferSize (st_Opts s)) (c1 (take ?b ?hs) True)" by (simp add: chan_ok_def c1_def)
    then show ?thesis using I(9-11) subs
      by (intro stream_inv_chans [OF inv]) (auto simp: e subs_ok_def nth_append less_Suc_eq)
  qed
qed

lemma stream_finish_inv:
  assumes inv: "stream_inv (L, s)"
  shows "stream_inv (L, stream_finish s)"
proof (cases "st_Closed s")
  case False
  note I = stream_invD [OF inv]
  have "st_Chans (stream_finish s) = upd (st_Subscribers s) subscriber_close (st_Chans s)" using False by (simp add: stream_finish_def upd_def)
  moreover have "distinct (st_Subscribers s)" using I(8) by (simp add: subs_ok_def)
  ultimately have "chan_ok L (op_BufferSize (st_Opts s)) (st_Chans (stream_finish s) ! i)" if "i < length (st_Chans s)" for i
    using that I(10) by (simp add: nth_upd)
  then show ?thesis using I(7) False
    by (intro stream_inv_chans [OF inv]) (auto simp: stream_finish_def subs_ok_def upd_def [symmetric])
qed (use inv in \<open>simp add: stream_finish_def\<close>)

lemma stream_resume_inv:
  assumes inv: "stream_inv (L, s)"
  shows "stream_inv (L, stream_resume attempt cnt s)"
  using stream_invD [OF inv] inv newRing_ok [of "op_HistorySize (st_Opts s)"]
  by (auto simp: stream_resume_def stream_inv_def newRing_slice subs_ok_def)

lemma receive_inv:
  assumes inv: "stream_inv (L, s)" and i: "i < length (st_Chans s)"
  shows "stream_inv (L, s\<lparr>st_Chans := (st_Chans s)[i := chan_receive (st_Chans s ! i)]\<rparr>)"
proof -
  note I = stream_invD [OF inv]
  have "chan_ok L b (chan_receive c)" if "chan_ok L b c" for b c
    using that by (auto simp: chan_ok_def chan_receive_def)
  moreover have closed: "ch_Closed (chan_receive c) = ch_Closed c" "ch_Sent (chan_receive c) = ch_Sent c" for c
    by (simp_all add: chan_receive_def)
  ultimately show ?thesis using I i
    by (intro stream_inv_chans [OF inv]) (auto simp: subs_ok_def nth_list_update closed)
qed

lemma stream_step_inv: "stream_step p q \<Longrightarrow> stream_inv p \<Longrightarrow> stream_inv q"
  by (induction rule: stream_step.induct)
    (auto intro: stream_publish_inv subscribe_inv stream_drop_inv stream_finish_inv stream_resume_inv receive_inv)

interpretation delivery: invariant_system stream_init stream_step stream_inv
  by unfold_locales (auto intro: stream_init_inv stream_step_inv)

text \<open>What a new subscriber finds in its channel.\<close>

lemma subscribe_open:
  assumes inv: "stream_inv (L, s)" and op: "\<not> st_Closed s"
  obtains s' where "subscribe_deliver since s = Some (Registered (length (st_Chans s)), s')" "length (st_Chans s') = Suc (length (st_Chans s))"
    "ch_Sent (st_Chans s' ! length (st_Chans s)) = take (nat (op_BufferSize (st_Opts s))) (ring_after since (st_History s))"
    "length (st_Chans s) \<in> set (st_Subscribers s') \<longleftrightarrow>
       length (ring_after since (st_History s)) \<le> nat (op_BufferSize (st_Opts s))"
proof -
  note I = stream_invD [OF inv]
  let ?b = "nat (op_BufferSize (st_Opts s))"
  let ?n = "length (st_Chans s)"
  let ?hs = "ring_after since (st_History s)"
  let ?s1 = "s\<lparr>st_NextSubID := ?n + 1, st_Subscribers := st_Subscribers s @ [?n], st_Chans := st_Chans s @ [newSubscriber ?b]\<rparr>"
  have n: "?n \<notin> set (st_Subscribers s)" "distinct (st_Subscribers s)" using I(8) by (auto simp: subs_ok_def)
  have h: "send_history ?n ?hs ?s1 = Some (
      if length ?hs \<le> ?b then ?s1\<lparr>st_Chans := st_Chans s @ [(newSubscriber ?b)\<lparr>ch_Sent := ?hs\<rparr>]\<rparr>
      else stream_drop ?n (?s1\<lparr>st_Chans := st_Chans s @ [subscriber_close ((newSubscriber ?b)\<lparr>ch_Sent := take ?b ?hs\<rparr>)]\<rparr>))"
    using send_history_open [of ?n ?s1 ?hs]
    by (simp add: newSubscriber_def free_def nth_append list_update_append)
  then obtain s' where s': "send_history ?n ?hs ?s1 = Some s'" by blast
  show thesis
  proof (rule that)
    show "subscribe_deliver since s = Some (Registered ?n, s')"
      using s' op I(7) by (simp add: subscribe_deliver_def stream_subscribe_def Let_def)
    show "length (st_Chans s') = Suc ?n" "ch_Sent (st_Chans s' ! ?n) = take ?b ?hs"
        "?n \<in> set (st_Subscribers s') \<longleftrightarrow> length ?hs \<le> ?b"
      using s' h n by (auto simp: stream_drop_def nth_append remove1_append split: if_splits)
  qed
qed

section \<open>Frames\<close>

text \<open>
  \<^verbatim>\<open>internal/stream/http.go\<close>: the text of an event on the wire, and the loop that writes the events of a
  channel until it is closed or a \<^verbatim>\<open>done\<close> event was written. A connection whose context ends or whose writes fail
  stops earlier.
\<close>

fun nat_digits :: "nat \<Rightarrow> string \<Rightarrow> string" where
  "nat_digits n acc =
     (if n < 10 then char_of (48 + n) # acc else nat_digits (n div 10) (char_of (48 + n mod 10) # acc))"

definition EventID_String :: "int \<Rightarrow> string" where
  "EventID_String i = (if i < 0 then CHR ''-'' # nat_digits (nat (- i)) [] else nat_digits (nat i) [])"

definition newline :: char where "newline = CHR 0x0A"

definition WriteEventFrame :: "Event \<Rightarrow> string" where
  "WriteEventFrame evt =
     (if ev_ID evt > 0 then ''id: '' @ EventID_String (ev_ID evt) @ [newline] else []) @
     (if ev_Type evt \<noteq> [] then ''event: '' @ ev_Type evt @ [newline] else []) @
     (if ev_Data evt \<noteq> [] then concat (map (\<lambda>line. ''data: '' @ line @ [newline]) (split_on newline (ev_Data evt)))
      else ''data:'' @ [newline]) @ [newline]"

fun serve_loop :: "(Event \<Rightarrow> Event option) \<Rightarrow> Event list \<Rightarrow> string" where
  "serve_loop keep [] = []"
| "serve_loop keep (evt # evts) =
     (case keep evt of
        None \<Rightarrow> serve_loop keep evts
      | Some evt' \<Rightarrow>
          WriteEventFrame evt' @ (if ev_Type evt' = SSEEventType_String SSEEventDone then [] else serve_loop keep evts))"

text \<open>A request opens the stream of the run or job and subscribes to it; then the loop writes what its channel receives.\<close>

definition serve_open :: "bool \<Rightarrow> string \<Rightarrow> int \<Rightarrow> hub \<Rightarrow> ((hub_error + subscription) \<times> hub) option" where
  "serve_open cancelled runID sinceID h =
     (case Ensure runID h of
        (Some e, h') \<Rightarrow> Some (Inl e, h')
      | (None, h') \<Rightarrow> Subscribe cancelled runID sinceID h')"

definition serve_open_job :: "bool \<Rightarrow> string \<Rightarrow> int \<Rightarrow> hub \<Rightarrow> ((hub_error + subscription) \<times> hub) option" where
  "serve_open_job cancelled jobID sinceID h =
     (case EnsureJob jobID h of
        (Some e, h') \<Rightarrow> Some (Inl e, h')
      | (None, h') \<Rightarrow> SubscribeJob cancelled jobID sinceID h')"

definition ServeFiltered :: "(Event \<Rightarrow> Event option) \<Rightarrow> Event list \<Rightarrow> string" where
  "ServeFiltered keep evts = '':ok'' @ [newline, newline] @ serve_loop keep evts"

definition ServeJob :: "Event list \<Rightarrow> string" where
  "ServeJob evts = '':ok'' @ [newline, newline] @ serve_loop Some evts"

lemma nat_digits_no_newline: "newline \<notin> set acc \<Longrightarrow> newline \<notin> set (nat_digits n acc)"
proof (induction n acc rule: nat_digits.induct)
  case (1 n acc)
  have c: "char_of (48 + k) \<noteq> newline" if "k < 10" for k :: nat
  proof
    assume "char_of (48 + k) = newline"
    then have "of_char (char_of (48 + k) :: char) = (of_char CHR 0x0A :: nat)" unfolding newline_def by simp
    then show False using that by simp
  qed
  then have ne: "newline \<noteq> char_of (48 + k)" if "k < 10" for k :: nat using that by metis
  show ?case
  proof (cases "n < 10")
    case True
    then show ?thesis using ne [OF True] 1(2) by simp
  next
    case False
    have "newline \<notin> set (nat_digits (n div 10) (char_of (48 + n mod 10) # acc))"
      using 1 ne [of "n mod 10"] False by simp
    then show ?thesis using False by (subst nat_digits.simps) (simp del: nat_digits.simps)
  qed
qed

lemma lines_append: "newline \<notin> set l \<Longrightarrow> split_on newline (l @ newline # rest) = l # split_on newline rest"
  by (simp add: split_on_append split_on_no_sep)

lemma data_lines:
  "\<forall>l \<in> set ls. newline \<notin> set l \<Longrightarrow>
   split_on newline (concat (map (\<lambda>line. ''data: '' @ line @ [newline]) ls) @ rest) = map (\<lambda>l. ''data: '' @ l) ls @ split_on newline rest"
proof (induction ls)
  case (Cons l ls)
  have n: "newline \<notin> set (''data: '' @ l)" using Cons.prems by (auto simp: newline_def)
  then show ?case using Cons lines_append [OF n] by simp
qed simp

end
