(* ===== verification/Stream_Properties.thy ===== *)
theory Stream_Properties
  imports Event_Delivery
begin

text \<open>
  Properties of the event streams: what the ring retains, what followers of a run or job receive, and what happens when
  publishing and leaving overlap.
\<close>

section \<open>History\<close>

text \<open>
  C40. The ring is a log of the last events: after any sequence of pushes it holds the last ones, as many as its
  capacity, oldest first, and reading after a number gives those of them with a greater number.
\<close>

theorem ring_holds_last_events:
  assumes "\<forall>e \<in> set es. 0 < ev_ID e"
  shows "ring_slice (fold ring_push es (newRing (int (Suc n)))) = drop (length es - Suc n) es \<and>
    ring_after since (fold ring_push es (newRing (int (Suc n)))) = filter (\<lambda>e. ev_ID e > since) (drop (length es - Suc n) es)"
proof -
  let ?r = "fold ring_push es (newRing (int (Suc n)))"
  have r: "ring_ok (Suc n) ?r" "ring_slice ?r = drop (length es - Suc n) es"
    using ring_log.pushes [of n es] by (simp_all add: lastn_def)
  have "\<forall>e \<in> set (ring_slice ?r). 0 < ev_ID e" using assms unfolding r(2) by (auto dest: in_set_dropD)
  then show ?thesis using ring_after_filter [OF r(1)] r(2) by simp
qed

definition sample_event :: "int \<Rightarrow> Event" where
  "sample_event i = \<lparr>ev_ID = i, ev_Type = ''run'', ev_Data = ''{}''\<rparr>"

theorem ring_holds_last_events_witness:
  "ring_after 4 (fold ring_push (map sample_event [1, 2, 3, 4, 5]) (newRing (int (Suc 2)))) = [sample_event 5]"
  using ring_holds_last_events [of "map sample_event [1, 2, 3, 4, 5]" 2 4] by (simp add: sample_event_def)

section \<open>Delivery\<close>


definition sample_stream :: stream where
  "sample_stream = newStream (Options_normalize \<lparr>op_BufferSize = 2, op_HistorySize = 3\<rparr>)"


definition sample_follow :: "int \<Rightarrow> stream \<Rightarrow> stream" where
  "sample_follow since s = (case subscribe_deliver since s of Some (_, s') \<Rightarrow> s' | None \<Rightarrow> s)"

definition sample_numbered :: "int \<Rightarrow> string \<Rightarrow> Event" where
  "sample_numbered i data = \<lparr>ev_ID = i, ev_Type = ''run'', ev_Data = data\<rparr>"







section \<open>The end of a stream\<close>

lemma finish_closed [simp]: "st_Closed (stream_finish s)"
  by (simp add: stream_finish_def)





section \<open>Frames\<close>

text \<open>
  The payload of an event cannot break out of its frame: line by line, a frame is the number, the type, the lines of the payload each
  marked as data, and the empty line that ends it.
\<close>

theorem frame_lines:
  assumes "newline \<notin> set (ev_Type evt)" "0 < ev_ID evt" "ev_Type evt \<noteq> []" "ev_Data evt \<noteq> []"
  shows "split_on newline (WriteEventFrame evt) =
    (''id: '' @ EventID_String (ev_ID evt)) # (''event: '' @ ev_Type evt) #
    map (\<lambda>line. ''data: '' @ line) (split_on newline (ev_Data evt)) @ [[], []]"
proof -
  have "newline \<notin> set (EventID_String (ev_ID evt))" using assms(2) nat_digits_no_newline [of "[]"] by (simp add: EventID_String_def)
  then have i: "newline \<notin> set (''id: '' @ EventID_String (ev_ID evt))" by (auto simp: newline_def)
  have t: "newline \<notin> set (''event: '' @ ev_Type evt)" using assms(1) by (auto simp: newline_def)
  have d: "\<forall>l \<in> set (split_on newline (ev_Data evt)). newline \<notin> set l" by (auto dest: split_on_no_sep)
  have f: "WriteEventFrame evt = (''id: '' @ EventID_String (ev_ID evt)) @ newline # (''event: '' @ ev_Type evt) @ newline #
      concat (map (\<lambda>line. ''data: '' @ line @ [newline]) (split_on newline (ev_Data evt))) @ [newline]"
    using assms by (simp add: WriteEventFrame_def)
  show ?thesis unfolding f lines_append [OF i] lines_append [OF t] data_lines [OF d] by simp
qed

theorem frame_lines_witness:
  "split_on newline (WriteEventFrame (sample_numbered 12 (''x'' @ [newline] @ ''id: 99''))) =
     [''id: 12'', ''event: run'', ''data: x'', ''data: id: 99'', [], []]"
proof -
  have "EventID_String 12 = ''12''" "split_on newline (''x'' @ [newline] @ ''id: 99'') = [''x'', ''id: 99'']" by code_simp+
  then show ?thesis using frame_lines [of "sample_numbered 12 (''x'' @ [newline] @ ''id: 99'')"]
    by (simp add: sample_numbered_def newline_def)
qed

section \<open>Overlapping calls\<close>

text \<open>
  The sends of a publication happen after the lock is released. When a follower leaves in between, its channel is closed and the
  send panics.
\<close>

lemma publish_sends_closed:
  "i \<in> set is \<Longrightarrow> i < length (st_Chans s) \<Longrightarrow> ch_Closed (st_Chans s ! i) \<Longrightarrow> publish_sends evt is ds s = None"
proof (induction "is" arbitrary: ds s)
  case (Cons k "is")
  show ?case
  proof (cases "ch_Closed (st_Chans s ! k)")
    case False
    then have "k \<noteq> i" "i \<in> set is" using Cons.prems by auto
    then have "publish_sends evt is ds' (s\<lparr>st_Chans := (st_Chans s)[k := deliver evt (st_Chans s ! k)]\<rparr>) = None" for ds'
      using Cons.prems by (intro Cons.IH) auto
    then show ?thesis using False by (simp add: send_open)
  qed (simp add: subscriber_send_def)
qed simp

theorem leaving_during_publish_panics:
  assumes "reachable stream_init stream_step (L, s)" "i \<in> set (st_Subscribers s)" "publish_locked evt s = Inr (evt', snapshot, s1)"
  shows "publish_sends evt' snapshot [] (stream_drop i s1) = None"
proof -
  have ok: "subs_ok s" using stream_invD(8) [OF delivery.reachable_inv [OF assms(1)]] .
  have s1: "snapshot = st_Subscribers s" "st_Subscribers s1 = st_Subscribers s" "st_Chans s1 = st_Chans s"
    using assms(3) by (auto simp: publish_locked_def Let_def split: if_splits)
  have "i < length (st_Chans s)" using ok assms(2) by (auto simp: subs_ok_def)
  then show ?thesis using assms(2) s1 by (intro publish_sends_closed [of i]) (simp_all add: stream_drop_def)
qed

text \<open>Two publications whose sends overlap reach a follower in the wrong order.\<close>

theorem overlapping_publications_reorder:
  "\<exists>s0 s1 s2 s3 s4 e1 e2 ids. s0 = sample_follow 0 sample_stream \<and>
     publish_locked (sample_numbered 0 ''a'') s0 = Inr (e1, ids, s1) \<and> publish_locked (sample_numbered 0 ''b'') s1 = Inr (e2, ids, s2) \<and>
     publish_sends e2 ids [] s2 = Some ([], s3) \<and> publish_sends e1 ids [] s3 = Some ([], s4) \<and>
     map ev_ID (ch_Sent (st_Chans s4 ! 0)) = [2, 1]"
proof -
  let ?s0 = "sample_follow 0 sample_stream"
  let ?e1 = "sample_numbered 1 ''a''" and ?e2 = "sample_numbered 2 ''b''"
  let ?s1 = "snd (snd (projr (publish_locked (sample_numbered 0 ''a'') ?s0)))"
  let ?s2 = "snd (snd (projr (publish_locked (sample_numbered 0 ''b'') ?s1)))"
  let ?s3 = "snd (the (publish_sends ?e2 [0] [] ?s2))"
  let ?s4 = "snd (the (publish_sends ?e1 [0] [] ?s3))"
  have steps: "publish_locked (sample_numbered 0 ''a'') ?s0 = Inr (?e1, [0], ?s1)" "publish_locked (sample_numbered 0 ''b'') ?s1 = Inr (?e2, [0], ?s2)"
    "publish_sends ?e2 [0] [] ?s2 = Some ([], ?s3)" "publish_sends ?e1 [0] [] ?s3 = Some ([], ?s4)"
    "map ev_ID (ch_Sent (st_Chans ?s4 ! 0)) = [2, 1]" by code_simp+
  show ?thesis
    by (rule exI [of _ ?s0], rule exI [of _ ?s1], rule exI [of _ ?s2], rule exI [of _ ?s3], rule exI [of _ ?s4],
        rule exI [of _ ?e1], rule exI [of _ ?e2], rule exI [of _ "[0]"]) (intro conjI refl steps)
qed

end
