(* ===== verification/Spec2Isabelle.thy ===== *)
theory Spec2Isabelle
  imports Execution_Properties Completion_Properties Run_Properties Launch_Properties Access_Properties Config_Properties Wire_Properties
    Image_Properties Stream_Properties
begin

text \<open>
  Verification of the control plane of \<^verbatim>\<open>ploy\<close>, a server that runs code migrations over many repositories.

  \<^bold>\<open>The program.\<close> An administrator launches a \<^emph>\<open>wave\<close> over a project. The wave has one \<^emph>\<open>run\<close> per repository, and a run is a
  chain of \<^emph>\<open>jobs\<close>: a build gate, the migration steps, and a second gate. Worker nodes claim jobs over HTTP, execute them and
  report their end; the server then queues the next job, or ends the run and in time the wave. A recovery task ends the runs of
  nodes that went silent. Clients follow a run through event streams. The state of all this is a PostgreSQL database; only the runtime
  configuration, the registry of ephemeral tokens and the event streams also live in memory.

  \<^bold>\<open>The model.\<close> A table is a list of rows, a query a function on the database, a transaction a function to
  \<open>store_error + result \<times> db\<close>, which changes nothing when it fails. Handlers return status codes. Go maps are association lists, nil
  pointers \<open>None\<close>, panics \<open>None\<close> of the send operation. Clocks, fresh identifiers and every third-party library (digests, token signatures,
  URL parsing, git, JSON schema) are arguments; a theorem that relies on such a library says so in its hypotheses. JSON is a parsed
  document: \<open>raw_json\<close> distinguishes absent, malformed and parsed input.

  \<^bold>\<open>Foundations.\<close>
    \<^item> \<^verbatim>\<open>Ploy_Prelude\<close>: Go string functions, tables, JSON, results, and the locale \<open>invariant_system\<close> of a transition system with an
      inductive invariant, which five systems below interpret.
    \<^item> \<^verbatim>\<open>Domain_Types\<close> (\<^verbatim>\<open>internal/domain/types\<close>): statuses, identifiers, commit hashes; the locale \<open>wire_enum\<close> gives the
      round trip of every enumeration with its text form. \<^verbatim>\<open>Lifecycle\<close> (\<^verbatim>\<open>internal/workflow/lifecycle\<close>): terminal statuses and the
      decision after a completion. \<^verbatim>\<open>Job_Chain\<close> (\<^verbatim>\<open>internal/workflow/jobchain/order.go\<close>): the order of a chain from its links; locale
      \<open>chain_orderer\<close>. \<^verbatim>\<open>Job_Meta\<close> (\<^verbatim>\<open>internal/workflow/contracts/job_meta.go\<close> and the gate documents): validation and JSON form.

  \<^bold>\<open>The store and the execution of runs.\<close>
    \<^item> \<^verbatim>\<open>Store_Model\<close>, \<^verbatim>\<open>Store_Tx\<close> (\<^verbatim>\<open>internal/store\<close>): tables, queries and transactions. \<^verbatim>\<open>Recovery\<close>
      (\<^verbatim>\<open>internal/server/recovery\<close>), \<^verbatim>\<open>Completion\<close>, \<^verbatim>\<open>Claim\<close> (\<^verbatim>\<open>jobs_complete*.go\<close> and \<^verbatim>\<open>nodes_claim*.go\<close> of
      \<^verbatim>\<open>internal/server/handlers\<close>), \<^verbatim>\<open>Hydra\<close> (\<^verbatim>\<open>contracts/hydra.go\<close>, \<^verbatim>\<open>claim_spec_mutator*.go\<close>), \<^verbatim>\<open>Nodes\<close>, \<^verbatim>\<open>Auth\<close>
      (\<^verbatim>\<open>internal/server/auth\<close>, tokens, enrolment).
    \<^item> \<^verbatim>\<open>Chain_Invariant\<close>, \<^verbatim>\<open>Store_Invariant\<close>, \<^verbatim>\<open>Store_Safety\<close>, \<^verbatim>\<open>Restart_Safety\<close>, \<^verbatim>\<open>Completion_Safety\<close>: the database
      invariant \<open>db_inv\<close> and that every transaction keeps it. \<^verbatim>\<open>Control_Plane\<close> puts the transactions together as one transition system.
    \<^item> \<^verbatim>\<open>Pipeline\<close> states what a run promises without the tables, and the locale \<open>forward_simulation\<close> gives that the control plane
      refines it. \<^verbatim>\<open>Progress\<close>: an active run can always be driven to success. \<^verbatim>\<open>Sample_Run\<close>: the concrete run of the witnesses.
    \<^item> \<^verbatim>\<open>Execution_Properties\<close>, \<^verbatim>\<open>Completion_Properties\<close>, \<^verbatim>\<open>Run_Properties\<close>: at most one active job per run, one active run
      per repository, jobs handed out in order with the commit of their predecessor, cancellation and success are final, the effect of
      each completion, of submission, restart, resume, recovery and of the end of a wave.

  \<^bold>\<open>Launching.\<close> \<^verbatim>\<open>Mig_Spec\<close> (\<^verbatim>\<open>contracts/migs_spec*.go\<close>, \<^verbatim>\<open>mod_image.go\<close>, \<^verbatim>\<open>command_spec.go\<close>, \<^verbatim>\<open>build_gate_*.go\<close>): decoding and
  validation of specifications. \<^verbatim>\<open>Token_Registry\<close> (\<^verbatim>\<open>internal/server/gitlabtokens\<close>, \<^verbatim>\<open>internal/gitlabtoken\<close>). \<^verbatim>\<open>Run_Handlers\<close>
  (\<^verbatim>\<open>planJobsFromSpec\<close>, \<^verbatim>\<open>migs_runs.go\<close>, \<^verbatim>\<open>runs_batch_http.go\<close>, \<^verbatim>\<open>cancelWaveHandler\<close>): the requests that launch, restart and cancel,
  on the database and the registry together; its transition system projects to the control plane. \<^verbatim>\<open>Launch_Properties\<close>: the plan follows
  the specification, the runs follow the plan and the selection, and a token is in memory exactly while a run uses it.

  \<^bold>\<open>Configuration.\<close> \<^verbatim>\<open>Global_Env\<close> (\<^verbatim>\<open>config_gitlab.go\<close>, \<^verbatim>\<open>config_env.go\<close>, \<^verbatim>\<open>store/config_env.sql.go\<close>, \<^verbatim>\<open>cmd/ployd/server.go\<close>),
  \<^verbatim>\<open>Config_Mirror\<close> (locales \<open>variable_store\<close> and \<open>mirrored_store\<close>: table and holder obey one contract and agree), \<^verbatim>\<open>Config_System\<close>
  and \<^verbatim>\<open>Config_Properties\<close>: reads return the last write over restarts, variables reach the jobs they are for, listings hide secrets.

  \<^bold>\<open>Gate images.\<close> \<^verbatim>\<open>Gate_Images\<close> (\<^verbatim>\<open>contracts/image_template.go\<close>, \<^verbatim>\<open>workflow/step/build_gate_image_resolver.go\<close>) and
  \<^verbatim>\<open>Image_Properties\<close>: the choice does not depend on the order of rules, the most specific rule wins, the specification beats the catalog.

  \<^bold>\<open>Access.\<close> \<^verbatim>\<open>Access\<close> and \<^verbatim>\<open>Access_Properties\<close>: who reaches which route, revoked tokens and used bootstrap tokens stay
  refused, drained nodes get no work.

  \<^bold>\<open>Event streams.\<close> \<^verbatim>\<open>Event_Hub\<close>, \<^verbatim>\<open>Event_Delivery\<close> (\<^verbatim>\<open>internal/stream\<close>; the locale \<open>bounded_log\<close> is the contract of the ring buffer) and
  \<^verbatim>\<open>Stream_Properties\<close>: followers see no gap, a reconnect continues, the terminal status is the last event.

  \<^bold>\<open>Wire formats.\<close> \<^verbatim>\<open>Wire_Properties\<close>: confinement of file destinations, round trips of stored values, the order of job lists.

  \<^bold>\<open>Bounds.\<close> No definition uses fuel: recursion is structural, or has a termination proof (the chain walk by the jobs not yet visited, the
  template scan by the text left). Integers are unbounded except where the code narrows them: heartbeats and counts to 32 bits, step
  indexes to 64 bits; the hypotheses that a database has fewer than \<open>2 ^ 31\<close> runs or a specification fewer than \<open>2 ^ 63\<close> steps name these places.

  \<^bold>\<open>Atomicity.\<close> A step of the control plane is a committed transaction. Reconciliation and recovery are several statements in the
  code and one step in the model; \<^verbatim>\<open>Run_Properties\<close> shows what an interleaved restart does. In the same way \<^verbatim>\<open>Config_Properties\<close>
  and \<^verbatim>\<open>Stream_Properties\<close> show what overlapping writes and publications do.

  \<^bold>\<open>Not modelled.\<close> The node agent with containers and file systems (\<^verbatim>\<open>internal/nodeagent\<close>, \<^verbatim>\<open>internal/workflow/stackdetect\<close>), the
  command line client and its TUI, object storage and snapshots, certificates, git processes, metrics, process wiring and signals:
  I/O around services outside the repository. The specification compiler reads YAML files from disk. The single-repository submission
  \<^verbatim>\<open>runs_submit.go\<close> and the handlers that only format rows are left out. KSUIDs and the scanner of \<^verbatim>\<open>encoding/json\<close> are library code.
\<close>

end
